(* ===== verification/Torium_Prelude.thy ===== *)
theory Torium_Prelude
  imports Complex_Main "HOL-Library.Word" "HOL-Library.Char_ord" "HOL-Library.List_Lexorder"
begin

text \<open>
  The prelude of the development: computations that may throw, as values of a sum type with
  their sequencing operators; decimal and hexadecimal text; the parts of the JavaScript string
  library the sources use.  Every other theory imports this one.

  JavaScript strings are sequences of UTF-16 code units.  They are modelled by the type
  \<^typ>\<open>string\<close> of HOL, that is, by sequences of code units below 256.  None of the modelled
  functions gives a meaning of its own to a code unit from 256 upwards.
\<close>

named_theorems result_simps \<open>rewriting computations that may throw\<close>
named_theorems js_text \<open>the definitions of the JavaScript string operations\<close>

section \<open>Computations that may throw\<close>

text \<open>
  A computation that may throw is a value of \<open>'e + 'a\<close>: \<open>Inl e\<close> when it throws \<open>e\<close> and
  \<open>Inr v\<close> when it returns \<open>v\<close>.
\<close>

definition bindR :: "'e + 'a \<Rightarrow> ('a \<Rightarrow> 'e + 'b) \<Rightarrow> 'e + 'b" where
  "bindR m f = (case m of Inl e \<Rightarrow> Inl e | Inr x \<Rightarrow> f x)"

definition throwIf :: "bool \<Rightarrow> 'e \<Rightarrow> 'e + unit" where
  "throwIf b e = (if b then Inl e else Inr ())"

definition catchR :: "'e + 'a \<Rightarrow> ('e \<Rightarrow> 'f + 'a) \<Rightarrow> 'f + 'a" where
  "catchR m h = (case m of Inl e \<Rightarrow> h e | Inr x \<Rightarrow> Inr x)"

definition mapErr :: "('e \<Rightarrow> 'f) \<Rightarrow> 'e + 'a \<Rightarrow> 'f + 'a" where
  "mapErr g m = (case m of Inl e \<Rightarrow> Inl (g e) | Inr x \<Rightarrow> Inr x)"

lemma bindR_simps [simp, result_simps]:
  "bindR (Inl e) f = Inl e" "bindR (Inr x) f = f x"
  by (simp_all add: bindR_def)

lemma throwIf_simps [simp, result_simps]:
  "throwIf True e = Inl e" "throwIf False e = Inr ()"
  by (simp_all add: throwIf_def)

lemma throwIf_Inr [simp, result_simps]: "throwIf b e = Inr u \<longleftrightarrow> \<not> b"
  by (simp add: throwIf_def)

lemma throwIf_Inl [simp, result_simps]: "throwIf b e = Inl e' \<longleftrightarrow> b \<and> e' = e"
  by (auto simp: throwIf_def)

lemma catchR_simps [simp, result_simps]:
  "catchR (Inl e) h = h e" "catchR (Inr x) h = Inr x"
  by (simp_all add: catchR_def)

lemma mapErr_simps [simp, result_simps]:
  "mapErr g (Inl e) = Inl (g e)" "mapErr g (Inr x) = Inr x"
  by (simp_all add: mapErr_def)

lemma mapErr_Inr [simp, result_simps]: "mapErr g m = Inr x \<longleftrightarrow> m = Inr x"
  by (cases m) simp_all

lemma bindR_Inr_iff: "bindR m f = Inr y \<longleftrightarrow> (\<exists>x. m = Inr x \<and> f x = Inr y)"
  by (cases m) simp_all

lemma bindR_Inl_iff: "bindR m f = Inl e \<longleftrightarrow> m = Inl e \<or> (\<exists>x. m = Inr x \<and> f x = Inl e)"
  by (cases m) simp_all

lemma bindR_InrE [elim!]:
  assumes "bindR m f = Inr y"
  obtains x where "m = Inr x" "f x = Inr y"
  using assms by (auto simp: bindR_Inr_iff)

lemma bindR_assoc: "bindR (bindR m f) g = bindR m (\<lambda>x. bindR (f x) g)"
  by (cases m) simp_all

lemma bindR_cong [fundef_cong]:
  "m = m' \<Longrightarrow> (\<And>x. m' = Inr x \<Longrightarrow> f x = f' x) \<Longrightarrow> bindR m f = bindR m' f'"
  by (cases m') simp_all

text \<open>\<open>xs.map(f)\<close> for a callback that may throw: the first throw ends the traversal.\<close>

fun mapR :: "('a \<Rightarrow> 'e + 'b) \<Rightarrow> 'a list \<Rightarrow> 'e + 'b list" where
  "mapR f [] = Inr []"
| "mapR f (x # xs) = bindR (f x) (\<lambda>y. bindR (mapR f xs) (\<lambda>ys. Inr (y # ys)))"

text \<open>A \<open>for ... of\<close> loop with a local state and a body that may throw.\<close>

fun foldR :: "('s \<Rightarrow> 'a \<Rightarrow> 'e + 's) \<Rightarrow> 's \<Rightarrow> 'a list \<Rightarrow> 'e + 's" where
  "foldR f s [] = Inr s"
| "foldR f s (x # xs) = bindR (f s x) (\<lambda>s'. foldR f s' xs)"

lemma mapR_Inr_iff: "mapR f xs = Inr ys \<longleftrightarrow> list_all2 (\<lambda>x y. f x = Inr y) xs ys"
proof (induction xs arbitrary: ys)
  case Nil
  show ?case by auto
next
  case (Cons x xs)
  show ?case
    by (cases ys) (auto simp: bindR_Inr_iff Cons.IH)
qed

lemma mapR_total: "(\<And>x. x \<in> set xs \<Longrightarrow> f x = Inr (g x)) \<Longrightarrow> mapR f xs = Inr (map g xs)"
  by (induction xs) simp_all

lemma mapR_length: "mapR f xs = Inr ys \<Longrightarrow> length ys = length xs"
  by (simp add: mapR_Inr_iff list_all2_lengthD)

lemma foldR_append: "foldR f s (xs @ ys) = bindR (foldR f s xs) (\<lambda>s'. foldR f s' ys)"
  by (induction xs arbitrary: s) (simp_all add: bindR_assoc)

lemma foldR_total:
  "(\<And>s x. x \<in> set xs \<Longrightarrow> f s x = Inr (g s x)) \<Longrightarrow> foldR f s xs = Inr (foldl g s xs)"
  by (induction xs arbitrary: s) simp_all

text \<open>Rule for an invariant of a loop that may throw.\<close>

lemma foldR_invariant:
  assumes "foldR f s xs = Inr t" and "P s"
    and "\<And>s x s'. x \<in> set xs \<Longrightarrow> P s \<Longrightarrow> f s x = Inr s' \<Longrightarrow> P s'"
  shows "P t"
  using assms
proof (induction xs arbitrary: s)
  case Nil
  then show ?case by simp
next
  case (Cons x xs)
  from Cons.prems(1) obtain s' where s': "f s x = Inr s'" "foldR f s' xs = Inr t"
    by auto
  with Cons.prems have "P s'" by (metis list.set_intros(1))
  with s'(2) show ?case by (rule Cons.IH) (use Cons.prems(3) in auto)
qed

section \<open>Code units\<close>

abbreviation code :: "char \<Rightarrow> nat" where
  "code c \<equiv> of_char c"

definition is_digit :: "char \<Rightarrow> bool" where
  "is_digit c \<longleftrightarrow> 48 \<le> code c \<and> code c \<le> 57"

definition is_upper :: "char \<Rightarrow> bool" where
  "is_upper c \<longleftrightarrow> 65 \<le> code c \<and> code c \<le> 90"

definition is_lower :: "char \<Rightarrow> bool" where
  "is_lower c \<longleftrightarrow> 97 \<le> code c \<and> code c \<le> 122"

definition is_hex_lower :: "char \<Rightarrow> bool" where
  "is_hex_lower c \<longleftrightarrow> is_digit c \<or> (97 \<le> code c \<and> code c \<le> 102)"

definition is_hex_upper :: "char \<Rightarrow> bool" where
  "is_hex_upper c \<longleftrightarrow> is_digit c \<or> (65 \<le> code c \<and> code c \<le> 70)"

definition is_hex :: "char \<Rightarrow> bool" where
  "is_hex c \<longleftrightarrow> is_hex_lower c \<or> is_hex_upper c"

lemmas char_class_defs [js_text] =
  is_digit_def is_upper_def is_lower_def is_hex_lower_def is_hex_upper_def is_hex_def

text \<open>\<open>String.prototype.toLowerCase\<close> and \<open>toUpperCase\<close> on code units below 256.\<close>

definition lower_char :: "char \<Rightarrow> char" where
  "lower_char c =
     (if is_upper c \<or> (192 \<le> code c \<and> code c \<le> 222 \<and> code c \<noteq> 215)
      then char_of (code c + 32) else c)"

definition toLowerCase :: "string \<Rightarrow> string" where
  "toLowerCase s = map lower_char s"

lemma toLowerCase_simps [simp]:
  "toLowerCase [] = []" "toLowerCase (c # s) = lower_char c # toLowerCase s"
  "toLowerCase (s @ t) = toLowerCase s @ toLowerCase t" "length (toLowerCase s) = length s"
  by (simp_all add: toLowerCase_def)

lemma code_lower_char:
  "code (lower_char c) =
     (if is_upper c \<or> (192 \<le> code c \<and> code c \<le> 222 \<and> code c \<noteq> 215) then code c + 32 else code c)"
  by (auto simp: lower_char_def is_upper_def)

lemma lower_char_idem [simp]: "lower_char (lower_char c) = lower_char c"
proof -
  have "code (lower_char (lower_char c)) = code (lower_char c)"
    unfolding code_lower_char [of "lower_char c"] by (simp add: code_lower_char is_upper_def)
  then show ?thesis by (simp only: of_char_eq_iff)
qed

lemma toLowerCase_idem [simp]: "toLowerCase (toLowerCase s) = toLowerCase s"
  by (simp add: toLowerCase_def)

lemma lower_char_id: "is_hex_lower c \<or> is_lower c \<or> is_digit c \<Longrightarrow> lower_char c = c"
  by (auto simp: lower_char_def char_class_defs)

lemma is_hex_lower_lower_char [simp]: "is_hex_lower (lower_char c) \<longleftrightarrow> is_hex c"
  by (auto simp: char_class_defs code_lower_char)

lemma is_hex_lower_is_hex: "is_hex_lower c \<Longrightarrow> is_hex c"
  by (simp add: is_hex_def)

lemma toLowerCase_id: "list_all is_hex_lower s \<Longrightarrow> toLowerCase s = s"
  by (induction s) (auto simp: lower_char_id)

section \<open>Decimal text\<close>

definition digit_char :: "nat \<Rightarrow> char" where
  "digit_char n = char_of (48 + n)"

definition digit_val :: "char \<Rightarrow> nat" where
  "digit_val c = code c - 48"

text \<open>\<open>toString(10)\<close> of an unsigned \<open>bigint\<close>, and of a signed one.\<close>

fun show_nat :: "nat \<Rightarrow> string" where
  "show_nat n = (if n < 10 then [digit_char n] else show_nat (n div 10) @ [digit_char (n mod 10)])"

declare show_nat.simps [simp del]

definition show_int :: "int \<Rightarrow> string" where
  "show_int i = (if i < 0 then CHR ''-'' # show_nat (nat (- i)) else show_nat (nat i))"

text \<open>\<open>BigInt(s)\<close> for a string of decimal digits.\<close>

definition read_nat :: "string \<Rightarrow> nat" where
  "read_nat s = foldl (\<lambda>a c. 10 * a + digit_val c) 0 s"

definition canonical_decimal :: "string \<Rightarrow> bool" where
  "canonical_decimal s \<longleftrightarrow>
     s = ''0'' \<or> (s \<noteq> [] \<and> hd s \<noteq> CHR ''0'' \<and> list_all is_digit s)"

lemma is_digit_digit_char [simp]: "n < 10 \<Longrightarrow> is_digit (digit_char n)"
  by (simp add: digit_char_def is_digit_def)

lemma digit_val_digit_char [simp]: "n < 10 \<Longrightarrow> digit_val (digit_char n) = n"
  by (simp add: digit_char_def digit_val_def)

lemma digit_char_digit_val: "is_digit c \<Longrightarrow> digit_char (digit_val c) = c"
  by (simp add: digit_char_def digit_val_def is_digit_def)

lemma digit_val_lt: "is_digit c \<Longrightarrow> digit_val c < 10"
  unfolding digit_val_def is_digit_def by linarith

lemma digit_char_0: "digit_char 0 = CHR ''0''"
proof -
  have "code (digit_char 0) = code (CHR ''0'')" by (simp add: digit_char_def)
  then show ?thesis by (simp only: of_char_eq_iff)
qed

lemma digit_char_numerals [js_text]:
  "digit_char 0 = CHR ''0''" "digit_char 1 = CHR ''1''" "digit_char (Suc 0) = CHR ''1''"
  "digit_char 2 = CHR ''2''" "digit_char 3 = CHR ''3''" "digit_char 4 = CHR ''4''"
  "digit_char 5 = CHR ''5''" "digit_char 6 = CHR ''6''" "digit_char 7 = CHR ''7''"
  "digit_char 8 = CHR ''8''" "digit_char 9 = CHR ''9''"
  by code_simp+

lemma read_nat_Nil [simp]: "read_nat [] = 0"
  by (simp add: read_nat_def)

lemma read_nat_snoc [simp]: "read_nat (s @ [c]) = 10 * read_nat s + digit_val c"
  by (simp add: read_nat_def)

lemma read_nat_append: "read_nat (s @ t) = read_nat s * 10 ^ length t + read_nat t"
proof (induction t rule: rev_induct)
  case Nil
  show ?case by simp
next
  case (snoc c t)
  have "read_nat (s @ t @ [c]) = read_nat ((s @ t) @ [c])" by simp
  also have "\<dots> = 10 * read_nat (s @ t) + digit_val c" by (rule read_nat_snoc)
  also have "\<dots> = read_nat s * 10 ^ length (t @ [c]) + read_nat (t @ [c])"
    by (simp add: snoc algebra_simps)
  finally show ?case .
qed

lemma read_nat_bound: "list_all is_digit s \<Longrightarrow> read_nat s < 10 ^ length s"
proof (induction s rule: rev_induct)
  case Nil
  show ?case by simp
next
  case (snoc c s)
  then have "read_nat s + 1 \<le> 10 ^ length s" "digit_val c < 10"
    by (auto simp: digit_val_lt)
  then show ?case by (simp add: algebra_simps)
qed

lemma show_nat_digits: "list_all is_digit (show_nat n)"
proof (induction n rule: show_nat.induct)
  case (1 n)
  then show ?case by (cases "n < 10") (simp_all add: show_nat.simps [of n])
qed

lemma show_nat_nonempty [simp]: "show_nat n \<noteq> []"
  by (simp add: show_nat.simps [of n])

lemma read_show_nat [simp]: "read_nat (show_nat n) = n"
proof (induction n rule: show_nat.induct)
  case (1 n)
  then show ?case
    by (cases "n < 10") (simp_all add: show_nat.simps [of n] read_nat_snoc [of "[]", simplified])
qed

lemma hd_show_nat: "0 < n \<Longrightarrow> hd (show_nat n) \<noteq> CHR ''0''"
proof (induction n rule: show_nat.induct)
  case (1 n)
  show ?case
  proof (cases "n < 10")
    case True
    have "digit_val (digit_char n) = n" using True by simp
    with 1(2) True show ?thesis
      by (auto simp: show_nat.simps [of n] digit_val_def)
  next
    case False
    with 1 show ?thesis by (simp add: show_nat.simps [of n])
  qed
qed

lemma show_nat_canonical: "canonical_decimal (show_nat n)"
proof (cases "n = 0")
  case True
  then show ?thesis by (simp add: show_nat.simps [of 0] canonical_decimal_def digit_char_0)
next
  case False
  then show ?thesis by (simp add: canonical_decimal_def hd_show_nat show_nat_digits)
qed

lemma canonical_decimal_digits: "canonical_decimal s \<Longrightarrow> list_all is_digit s"
  by (auto simp: canonical_decimal_def is_digit_def)

lemma canonical_decimal_butlast:
  "canonical_decimal (s @ [c]) \<Longrightarrow> s \<noteq> [] \<Longrightarrow> canonical_decimal s \<and> 0 < read_nat s"
proof (induction s rule: rev_induct)
  case Nil
  then show ?case by simp
next
  case (snoc d s)
  then have can: "canonical_decimal (s @ [d])" and nz: "hd (s @ [d]) \<noteq> CHR ''0''"
    by (cases s; auto simp: canonical_decimal_def)+
  show ?case
  proof (cases "s = []")
    case True
    with can nz have "is_digit d" "d \<noteq> CHR ''0''" by (auto simp: canonical_decimal_def)
    then have "digit_char (digit_val d) = d" "d \<noteq> digit_char 0"
      by (auto simp: digit_char_digit_val digit_char_0)
    then have "digit_val d \<noteq> 0" by metis
    with True can show ?thesis by (simp add: read_nat_snoc [of "[]", simplified])
  next
    case False
    moreover have "is_digit c" using snoc.prems by (auto simp: canonical_decimal_def)
    ultimately show ?thesis using can snoc.IH by (auto simp: canonical_decimal_def)
  qed
qed

lemma show_read_nat: "canonical_decimal s \<Longrightarrow> show_nat (read_nat s) = s"
proof (induction s rule: rev_induct)
  case Nil
  then show ?case by (simp add: canonical_decimal_def)
next
  case (snoc c s)
  have c: "is_digit c" using snoc.prems canonical_decimal_digits by fastforce
  note c = c digit_val_lt [OF c] digit_char_digit_val [OF c]
  show ?case
  proof (cases "s = []")
    case True
    with c show ?thesis
      by (simp add: show_nat.simps [of "digit_val c"] read_nat_snoc [of "[]", simplified])
  next
    case False
    with snoc.prems have "canonical_decimal s" "0 < read_nat s"
      using canonical_decimal_butlast by auto
    with c snoc.IH show ?thesis
      by (simp add: show_nat.simps [of "10 * read_nat s + digit_val c"])
  qed
qed

lemma show_nat_inject [simp]: "show_nat m = show_nat n \<longleftrightarrow> m = n"
  by (metis read_show_nat)

lemma show_nat_length_le: "n < 10 ^ k \<Longrightarrow> 0 < k \<Longrightarrow> length (show_nat n) \<le> k"
proof (induction k arbitrary: n)
  case 0
  then show ?case by simp
next
  case (Suc k)
  show ?case
  proof (cases "n < 10")
    case True
    then show ?thesis by (simp add: show_nat.simps [of n])
  next
    case False
    with Suc.prems have "n div 10 < 10 ^ k" "0 < k" by (auto simp: div_less_iff_less_mult intro: gr0I)
    with Suc.IH False show ?thesis by (simp add: show_nat.simps [of n])
  qed
qed

section \<open>Unsigned 256-bit integers\<close>

abbreviation max_uint256 :: int where
  "max_uint256 \<equiv> 2 ^ 256 - 1"

lemma max_uint256_lt: "(2::nat) ^ 256 < 10 ^ 78"
  by simp

section \<open>The interface of an exact codec\<close>

text \<open>
  What the conversions of the SDK promise to each other: every valid value has an encoding, decoding
  gives the value back, and nothing but the encoding of a valid value is accepted by the decoder.
\<close>

locale exact_codec =
  fixes enc :: "'a \<Rightarrow> 'e + 'b" and dec :: "'b \<Rightarrow> 'e + 'a" and valid :: "'a \<Rightarrow> bool"
  assumes enc_total: "valid a \<Longrightarrow> \<exists>b. enc a = Inr b"
    and dec_enc: "valid a \<Longrightarrow> enc a = Inr b \<Longrightarrow> dec b = Inr a"
    and enc_dec: "dec b = Inr a \<Longrightarrow> valid a \<and> enc a = Inr b"
begin

lemma dec_iff: "dec b = Inr a \<longleftrightarrow> valid a \<and> enc a = Inr b"
  using dec_enc enc_dec by blast

lemma enc_inject: "valid a \<Longrightarrow> valid a' \<Longrightarrow> enc a = Inr b \<Longrightarrow> enc a' = Inr b \<Longrightarrow> a = a'"
  by (metis dec_enc sum.inject(2))

lemma dec_inject: "dec b = Inr a \<Longrightarrow> dec b' = Inr a \<Longrightarrow> b = b'"
  by (metis enc_dec sum.inject(2))

lemma decode_encode: "valid a \<Longrightarrow> bindR (enc a) dec = Inr a"
  using enc_total dec_enc by fastforce

lemma encode_decode: "dec b = Inr a \<Longrightarrow> bindR (dec b) enc = Inr b"
  using enc_dec by fastforce

end

end
