(* ===== verification/Js_Regex.thy ===== *)
theory Js_Regex
  imports Torium_Prelude
begin

text \<open>
  The regular expressions of the sources.  A pattern is a value of type \<open>rx\<close>; \<open>ms\<close> is the
  backtracking matcher of the language, as the list of all ways a pattern matches at a position in
  the order the matcher tries them (the first one is the match).  A position is the code unit
  before it, if there is one, and the text after it, which is what \<open>^\<close>, \<open>$\<close> and \<open>\b\<close> look at.
  \<open>rx_test\<close> is \<open>RegExp.prototype.test\<close> and \<open>rx_replace\<close> is \<open>String.prototype.replace\<close> for a
  pattern with the flag \<open>g\<close>.

  The second half relates the matcher to the language of a pattern, which is what the other
  theories reason with.
\<close>

section \<open>Patterns and the matcher\<close>

datatype rx =
    Eps
  | Cls "char \<Rightarrow> bool"
  | Sq rx rx
  | Alt rx rx
  | Star rx
  | Bol
  | Eol
  | Wb

type_synonym pos = "char option \<times> string"

definition is_word_char :: "char \<Rightarrow> bool" where
  "is_word_char c \<longleftrightarrow> is_digit c \<or> is_upper c \<or> is_lower c \<or> c = CHR ''_''"

definition word_before :: "pos \<Rightarrow> bool" where
  "word_before p = (case fst p of None \<Rightarrow> False | Some c \<Rightarrow> is_word_char c)"

definition word_after :: "pos \<Rightarrow> bool" where
  "word_after p = (case snd p of [] \<Rightarrow> False | c # _ \<Rightarrow> is_word_char c)"

text \<open>
  A further iteration of a star has to consume something: the matcher refuses an empty one.
\<close>

function ms :: "rx \<Rightarrow> pos \<Rightarrow> pos list" where
  "ms Eps p = [p]"
| "ms (Cls C) p = (case snd p of [] \<Rightarrow> [] | c # s \<Rightarrow> if C c then [(Some c, s)] else [])"
| "ms (Sq r s) p = concat (map (ms s) (ms r p))"
| "ms (Alt r s) p = ms r p @ ms s p"
| "ms (Star r) p =
     concat (map (ms (Star r)) (filter (\<lambda>q. length (snd q) < length (snd p)) (ms r p))) @ [p]"
| "ms Bol p = (if fst p = None then [p] else [])"
| "ms Eol p = (if snd p = [] then [p] else [])"
| "ms Wb p = (if word_before p \<noteq> word_after p then [p] else [])"
  by pat_completeness auto
termination
  by (relation "measures [\<lambda>(r, p). size r, \<lambda>(r, p). length (snd p)]") auto

declare ms.simps(5) [simp del]

lemma in_ms_Star:
  "q \<in> set (ms (Star r) p) \<longleftrightarrow>
     q = p \<or> (\<exists>q' \<in> set (ms r p). length (snd q') < length (snd p) \<and> q \<in> set (ms (Star r) q'))"
  by (subst ms.simps(5)) auto

fun rx_find :: "rx \<Rightarrow> char option \<Rightarrow> string \<Rightarrow> bool" where
  "rx_find r b [] = (ms r (b, []) \<noteq> [])"
| "rx_find r b (c # s) = (ms r (b, c # s) \<noteq> [] \<or> rx_find r (Some c) s)"

definition rx_test :: "rx \<Rightarrow> string \<Rightarrow> bool" where
  "rx_test r s = rx_find r None s"

text \<open>
  Replacement: at the first position where the pattern matches, the match is replaced and the
  search goes on behind it.  An empty match moves on by one code unit.
\<close>

function rx_replace_from :: "rx \<Rightarrow> string \<Rightarrow> char option \<Rightarrow> string \<Rightarrow> string" where
  "rx_replace_from r t b s =
     (case ms r (b, s) of
        [] \<Rightarrow> (case s of [] \<Rightarrow> [] | c # s' \<Rightarrow> c # rx_replace_from r t (Some c) s')
      | (b', s') # _ \<Rightarrow>
          (if length s' < length s then t @ rx_replace_from r t b' s'
           else t @ (case s of [] \<Rightarrow> [] | c # s'' \<Rightarrow> c # rx_replace_from r t (Some c) s'')))"
  by pat_completeness auto
termination
  by (relation "measure (\<lambda>(r, t, b, s). length s)") auto

declare rx_replace_from.simps [simp del]

definition rx_replace :: "rx \<Rightarrow> string \<Rightarrow> string \<Rightarrow> string" where
  "rx_replace r t s = rx_replace_from r t None s"

section \<open>Derived patterns\<close>

definition chr :: "char \<Rightarrow> rx" where
  "chr c = Cls (\<lambda>d. d = c)"

fun lit :: "string \<Rightarrow> rx" where
  "lit [] = Eps"
| "lit (c # s) = Sq (chr c) (lit s)"

text \<open>A literal under the flag \<open>i\<close>.\<close>

fun lit_ci :: "string \<Rightarrow> rx" where
  "lit_ci [] = Eps"
| "lit_ci (c # s) = Sq (Cls (\<lambda>d. lower_char d = lower_char c)) (lit_ci s)"

fun alts :: "rx list \<Rightarrow> rx" where
  "alts [] = Cls (\<lambda>_. False)"
| "alts [r] = r"
| "alts (r # rs) = Alt r (alts rs)"

definition rplus :: "rx \<Rightarrow> rx" where
  "rplus r = Sq r (Star r)"

definition ropt :: "rx \<Rightarrow> rx" where
  "ropt r = Alt r Eps"

text \<open>\<open>r{n}\<close> and \<open>r{0,n}\<close>\<close>

fun rtimes :: "nat \<Rightarrow> rx \<Rightarrow> rx" where
  "rtimes 0 r = Eps"
| "rtimes (Suc n) r = Sq r (rtimes n r)"

fun rupto :: "nat \<Rightarrow> rx \<Rightarrow> rx" where
  "rupto 0 r = Eps"
| "rupto (Suc n) r = Alt (Sq r (rupto n r)) Eps"

text \<open>\<open>^r$\<close>\<close>

definition anchored :: "rx \<Rightarrow> rx" where
  "anchored r = Sq Bol (Sq r Eol)"

text \<open>The class \<open>\s\<close>, and \<open>.\<close>, which excludes the line terminators.\<close>

definition is_space :: "char \<Rightarrow> bool" where
  "is_space c \<longleftrightarrow> (9 \<le> code c \<and> code c \<le> 13) \<or> code c = 32 \<or> code c = 160"

definition is_dot :: "char \<Rightarrow> bool" where
  "is_dot c \<longleftrightarrow> code c \<noteq> 10 \<and> code c \<noteq> 13"

section \<open>The language of a pattern\<close>

text \<open>For patterns without assertions.\<close>

fun pure_rx :: "rx \<Rightarrow> bool" where
  "pure_rx (Sq r s) = (pure_rx r \<and> pure_rx s)"
| "pure_rx (Alt r s) = (pure_rx r \<and> pure_rx s)"
| "pure_rx (Star r) = pure_rx r"
| "pure_rx Eps = True"
| "pure_rx (Cls C) = True"
| "pure_rx Bol = False"
| "pure_rx Eol = False"
| "pure_rx Wb = False"

inductive_set stars :: "string set \<Rightarrow> string set" for A where
  stars_Nil: "[] \<in> stars A"
| stars_step: "v \<in> A \<Longrightarrow> w \<in> stars A \<Longrightarrow> v @ w \<in> stars A"

fun lang :: "rx \<Rightarrow> string set" where
  "lang Eps = {[]}"
| "lang (Cls C) = {[c] | c. C c}"
| "lang (Sq r s) = {v @ w | v w. v \<in> lang r \<and> w \<in> lang s}"
| "lang (Alt r s) = lang r \<union> lang s"
| "lang (Star r) = stars (lang r)"
| "lang Bol = {}"
| "lang Eol = {}"
| "lang Wb = {}"

text \<open>The text a match leaves over, as a set: for a pure pattern it does not depend on what is before.\<close>

definition rests :: "rx \<Rightarrow> pos \<Rightarrow> string set" where
  "rests r p = snd ` set (ms r p)"

lemma ms_lang_sound:
  "pure_rx r \<Longrightarrow> q \<in> set (ms r p) \<Longrightarrow> \<exists>w. snd p = w @ snd q \<and> w \<in> lang r"
proof (induction r p arbitrary: q rule: ms.induct)
  case (3 r s p)
  from 3(4) obtain q' where q': "q' \<in> set (ms r p)" "q \<in> set (ms s q')" by auto
  from 3(1) [OF _ q'(1)] 3(3) obtain v where v: "snd p = v @ snd q'" "v \<in> lang r" by auto
  from 3(2) [OF q'(1) _ q'(2)] 3(3) obtain w where w: "snd q' = w @ snd q" "w \<in> lang s" by auto
  have "snd p = (v @ w) @ snd q" using v w by simp
  then show ?case using v w by auto
next
  case (5 r p)
  show ?case
  proof (cases "q = p")
    case True
    then show ?thesis by (auto intro: stars_Nil)
  next
    case False
    with 5(4) obtain q' where q': "q' \<in> set (ms r p)" "length (snd q') < length (snd p)"
      "q \<in> set (ms (Star r) q')" by (auto simp: in_ms_Star [of q r p])
    from 5(1) [OF _ q'(1)] 5(3) obtain v where v: "snd p = v @ snd q'" "v \<in> lang r" by auto
    from 5(2) [of q' q] q' 5(3) obtain w where w: "snd q' = w @ snd q" "w \<in> lang (Star r)" by auto
    have "snd p = (v @ w) @ snd q" using v w by simp
    moreover have "v @ w \<in> lang (Star r)" using v w by (auto intro: stars_step)
    ultimately show ?thesis by blast
  qed
next
  case (4 r s p)
  then show ?case by (metis UnCI Un_iff lang.simps(4) ms.simps(4) pure_rx.simps(2) set_append)
qed (auto split: list.splits if_splits)

lemma ms_lang_complete:
  "pure_rx r \<Longrightarrow> w \<in> lang r \<Longrightarrow> \<exists>q \<in> set (ms r (b, w @ s)). snd q = s"
proof (induction r arbitrary: b w s)
  case (Sq r1 r2)
  from Sq.prems obtain v u where vu: "w = v @ u" "v \<in> lang r1" "u \<in> lang r2" by auto
  with Sq.IH(1) [of v b "u @ s"] Sq.prems obtain q where
    q: "q \<in> set (ms r1 (b, w @ s))" "snd q = u @ s" by auto
  with Sq.IH(2) [of u "fst q" s] Sq.prems vu obtain q' where
    q': "q' \<in> set (ms r2 (fst q, u @ s))" "snd q' = s" by auto
  have "(fst q, u @ s) = q" using q(2) by (cases q) simp
  with q' q(1) have "q' \<in> set (ms (Sq r1 r2) (b, w @ s))" by auto
  with q'(2) show ?case by blast
next
  case (Star r)
  from Star.prems(2) have "w \<in> stars (lang r)" by simp
  then show ?case
  proof (induction arbitrary: b)
    case stars_Nil
    show ?case by (rule bexI [of _ "(b, s)"]) (simp_all add: in_ms_Star [of "(b, s)" r "(b, s)"])
  next
    case (stars_step v w)
    show ?case
    proof (cases "v = []")
      case True
      with stars_step.IH show ?thesis by simp
    next
      case False
      from Star.IH [of v b "w @ s"] Star.prems stars_step obtain q where
        q: "q \<in> set (ms r (b, v @ w @ s))" "snd q = w @ s" by auto
      from stars_step.IH [of "fst q"] obtain q' where
        "q' \<in> set (ms (Star r) (fst q, w @ s))" "snd q' = s" by auto
      moreover have "(fst q, w @ s) = q" using q(2) by (cases q) simp
      ultimately have "q' \<in> set (ms (Star r) q)" "snd q' = s" by simp_all
      moreover have "length (snd q) < length (v @ w @ s)" using q False by simp
      ultimately have "q' \<in> set (ms (Star r) (b, v @ w @ s))" using q(1)
        by (auto simp: in_ms_Star [of q' r "(b, v @ w @ s)"])
      then show ?thesis using \<open>snd q' = s\<close> by auto
    qed
  qed
next
  case (Alt r1 r2)
  from Alt.prems consider "w \<in> lang r1" | "w \<in> lang r2" by auto
  then show ?case
  proof cases
    case 1
    with Alt.IH(1) [of w b s] Alt.prems show ?thesis by auto
  next
    case 2
    with Alt.IH(2) [of w b s] Alt.prems show ?thesis by auto
  qed
qed auto

lemma ms_pure_iff:
  assumes "pure_rx r"
  shows "(\<exists>q \<in> set (ms r (b, t)). snd q = s) \<longleftrightarrow> (\<exists>w. t = w @ s \<and> w \<in> lang r)"
proof
  assume "\<exists>q \<in> set (ms r (b, t)). snd q = s"
  then obtain q where q: "q \<in> set (ms r (b, t))" "snd q = s" by blast
  from ms_lang_sound [OF assms q(1)] q(2) show "\<exists>w. t = w @ s \<and> w \<in> lang r" by simp
next
  assume "\<exists>w. t = w @ s \<and> w \<in> lang r"
  then obtain w where "t = w @ s" "w \<in> lang r" by blast
  with ms_lang_complete [OF assms, of w b s] show "\<exists>q \<in> set (ms r (b, t)). snd q = s" by simp
qed

lemma ms_pure_nonempty:
  assumes "pure_rx r"
  shows "ms r (b, t) \<noteq> [] \<longleftrightarrow> (\<exists>w s. t = w @ s \<and> w \<in> lang r)"
proof
  assume "ms r (b, t) \<noteq> []"
  then have "hd (ms r (b, t)) \<in> set (ms r (b, t))" by simp
  from ms_lang_sound [OF assms this] show "\<exists>w s. t = w @ s \<and> w \<in> lang r" by auto
next
  assume "\<exists>w s. t = w @ s \<and> w \<in> lang r"
  then obtain w s where "t = w @ s" "w \<in> lang r" by blast
  with ms_lang_complete [OF assms, of w b s] show "ms r (b, t) \<noteq> []" by auto
qed

text \<open>An anchored pattern tests whether the whole text is in its language.\<close>

lemma rx_find_Bol: "rx_find (Sq Bol r) (Some c) s = False"
  by (induction s arbitrary: c) simp_all

theorem rx_test_anchored:
  assumes "pure_rx r"
  shows "rx_test (anchored r) s \<longleftrightarrow> s \<in> lang r"
proof -
  have "rx_test (anchored r) s \<longleftrightarrow> ms (Sq Bol (Sq r Eol)) (None, s) \<noteq> []"
    unfolding rx_test_def anchored_def by (cases s) (simp_all add: rx_find_Bol)
  also have "\<dots> \<longleftrightarrow> (\<exists>q \<in> set (ms r (None, s)). snd q = [])"
    by auto
  also have "\<dots> \<longleftrightarrow> s \<in> lang r"
    by (simp add: ms_pure_iff [OF assms])
  finally show ?thesis .
qed

text \<open>An unanchored pattern tests whether some part of the text is in its language.\<close>

theorem rx_test_pure:
  assumes "pure_rx r"
  shows "rx_test r s \<longleftrightarrow> (\<exists>u w v. s = u @ w @ v \<and> w \<in> lang r)"
proof -
  have "rx_find r b s \<longleftrightarrow> (\<exists>u w v. s = u @ w @ v \<and> w \<in> lang r)" for b
  proof (induction s arbitrary: b)
    case Nil
    show ?case by (simp add: ms_pure_nonempty [OF assms])
  next
    case (Cons c s)
    have "(\<exists>u w v. c # s = u @ w @ v \<and> w \<in> lang r) \<longleftrightarrow>
        (\<exists>w v. c # s = w @ v \<and> w \<in> lang r) \<or> (\<exists>u w v. s = u @ w @ v \<and> w \<in> lang r)"
      by (metis (no_types, opaque_lifting) Cons_eq_append_conv append_Cons append_Nil)
    then show ?case by (simp add: Cons.IH ms_pure_nonempty [OF assms])
  qed
  then show ?thesis by (simp add: rx_test_def)
qed

section \<open>Languages of the derived patterns\<close>

lemma pure_derived [simp]:
  "pure_rx (chr c)" "pure_rx (lit s)" "pure_rx (rplus r) = pure_rx r" "pure_rx (ropt r) = pure_rx r"
  by (simp_all add: chr_def rplus_def ropt_def) (induction s, simp_all add: chr_def)

lemma pure_times [simp]: "pure_rx r \<Longrightarrow> pure_rx (rtimes n r)"
  by (induction n) simp_all

lemma pure_rupto [simp]: "pure_rx r \<Longrightarrow> pure_rx (rupto n r)"
  by (induction n) simp_all

lemma pure_alts [simp]: "pure_rx (alts rs) \<longleftrightarrow> list_all pure_rx rs"
  by (induction rs rule: alts.induct) simp_all

lemma lang_chr [simp]: "lang (chr c) = {[c]}"
  by (auto simp: chr_def)

lemma lang_lit [simp]: "lang (lit s) = {s}"
  by (induction s) auto

declare lit.simps [simp del]

lemma lang_opt [simp]: "lang (ropt r) = insert [] (lang r)"
  by (auto simp: ropt_def)

lemma lang_alts [simp]: "lang (alts rs) = (\<Union>r \<in> set rs. lang r)"
  by (induction rs rule: alts.induct) auto

lemma stars_class: "stars {[c] | c. C c} = {w. list_all C w}"
proof
  show "stars {[c] | c. C c} \<subseteq> {w. list_all C w}"
  proof
    fix w assume "w \<in> stars {[c] | c. C c}"
    then show "w \<in> {w. list_all C w}" by (induction) auto
  qed
  show "{w. list_all C w} \<subseteq> stars {[c] | c. C c}"
  proof
    fix w assume "w \<in> {w. list_all C w}"
    then show "w \<in> stars {[c] | c. C c}"
    proof (induction w)
      case Nil
      show ?case by (rule stars_Nil)
    next
      case (Cons c w)
      then have "[c] \<in> {[c] | c. C c}" "w \<in> stars {[c] | c. C c}" by auto
      then have "[c] @ w \<in> stars {[c] | c. C c}" by (rule stars_step)
      then show ?case by simp
    qed
  qed
qed

lemma lang_Star_Cls [simp]: "lang (Star (Cls C)) = {w. list_all C w}"
  by (simp add: stars_class)

lemma lang_Sq_Cls: "lang (Sq (Cls C) r) = {c # w | c w. C c \<and> w \<in> lang r}"
proof -
  have "lang (Sq (Cls C) r) = {[c] @ w | c w. C c \<and> w \<in> lang r}"
    unfolding lang.simps by blast
  then show ?thesis by simp
qed

lemma lang_rplus_Cls [simp]: "lang (rplus (Cls C)) = {w. w \<noteq> [] \<and> list_all C w}"
proof -
  have "lang (rplus (Cls C)) = {c # w | c w. C c \<and> list_all C w}"
    by (simp only: rplus_def lang_Sq_Cls lang_Star_Cls mem_Collect_eq)
  also have "\<dots> = {w. w \<noteq> [] \<and> list_all C w}"
    by (auto simp: neq_Nil_conv)
  finally show ?thesis .
qed

lemma lang_times_Cls [simp]: "lang (rtimes n (Cls C)) = {w. length w = n \<and> list_all C w}"
proof (induction n)
  case 0
  show ?case by auto
next
  case (Suc n)
  have "lang (rtimes (Suc n) (Cls C)) = {c # w | c w. C c \<and> length w = n \<and> list_all C w}"
    by (simp only: rtimes.simps lang_Sq_Cls Suc mem_Collect_eq)
  also have "\<dots> = {w. length w = Suc n \<and> list_all C w}"
    by (auto simp: length_Suc_conv)
  finally show ?case .
qed

lemma lang_rupto_Cls [simp]: "lang (rupto n (Cls C)) = {w. length w \<le> n \<and> list_all C w}"
proof (induction n)
  case 0
  show ?case by auto
next
  case (Suc n)
  have "lang (rupto (Suc n) (Cls C)) = insert [] {c # w | c w. C c \<and> length w \<le> n \<and> list_all C w}"
    unfolding rupto.simps lang.simps(4) lang_Sq_Cls Suc by simp
  also have "\<dots> = {w. length w \<le> Suc n \<and> list_all C w}"
  proof (intro equalityI subsetI)
    fix w assume "w \<in> {w. length w \<le> Suc n \<and> list_all C w}"
    then show "w \<in> insert [] {c # w | c w. C c \<and> length w \<le> n \<and> list_all C w}"
      by (cases w) auto
  qed auto
  finally show ?case .
qed

lemma lang_Sq_lit [simp]: "lang (Sq (lit s) r) = {s @ w | w. w \<in> lang r}"
  by auto

end
