(* ===== verification/Js_Values.thy ===== *)
theory Js_Values
  imports Js_Regex
begin

text \<open>
  JavaScript values.  A finite number is a real number, which every double is; not-a-number and the
  infinities are values of their own.  An object is the list of its own enumerable properties in the
  order of \<open>Object.keys\<close>.  Where two references to one object matter (an error whose \<open>cause\<close> leads
  back to itself) an object is a reference \<open>JRef a\<close> into a heap, and \<open>JFun f\<close> is a callable.
\<close>

section \<open>Errors of the language\<close>

datatype js_exn = TypeError string | RangeError string | SyntaxError string | PlainError string

section \<open>Numbers\<close>

datatype jsnum = NaN | PosInf | NegInf | Fin real

definition max_safe_integer :: int where
  "max_safe_integer = 2 ^ 53 - 1"

fun num_isFinite :: "jsnum \<Rightarrow> bool" where
  "num_isFinite (Fin x) = True"
| "num_isFinite _ = False"

fun num_isInteger :: "jsnum \<Rightarrow> bool" where
  "num_isInteger (Fin x) = (x = of_int \<lfloor>x\<rfloor>)"
| "num_isInteger _ = False"

fun num_isSafeInteger :: "jsnum \<Rightarrow> bool" where
  "num_isSafeInteger (Fin x) = (x = of_int \<lfloor>x\<rfloor> \<and> \<bar>x\<bar> \<le> of_int max_safe_integer)"
| "num_isSafeInteger _ = False"

text \<open>The operators \<open><\<close> and \<open><=\<close>: no comparison with not-a-number holds.\<close>

fun num_lt :: "jsnum \<Rightarrow> jsnum \<Rightarrow> bool" where
  "num_lt NaN _ = False"
| "num_lt _ NaN = False"
| "num_lt (Fin x) (Fin y) = (x < y)"
| "num_lt NegInf NegInf = False"
| "num_lt NegInf _ = True"
| "num_lt PosInf _ = False"
| "num_lt (Fin _) PosInf = True"
| "num_lt (Fin _) NegInf = False"

definition num_le :: "jsnum \<Rightarrow> jsnum \<Rightarrow> bool" where
  "num_le x y \<longleftrightarrow> num_lt x y \<or> (x = y \<and> x \<noteq> NaN)"

text \<open>The value of an integral number; used where the code has checked that it is one.\<close>

fun num_int :: "jsnum \<Rightarrow> int" where
  "num_int (Fin x) = \<lfloor>x\<rfloor>"
| "num_int _ = 0"

abbreviation NInt :: "int \<Rightarrow> jsnum" where
  "NInt n \<equiv> Fin (of_int n)"

lemma num_le_Fin [simp]: "num_le (Fin x) (Fin y) \<longleftrightarrow> x \<le> y"
  by (auto simp: num_le_def)

lemma num_isInteger_NInt [simp]: "num_isInteger (NInt n)"
  by simp

lemma num_isSafeInteger_NInt [simp]: "num_isSafeInteger (NInt n) \<longleftrightarrow> \<bar>n\<bar> \<le> max_safe_integer"
  by simp linarith

lemma num_isIntegerE:
  assumes "num_isInteger x"
  obtains n where "x = NInt n"
  using assms by (cases x) auto

lemma num_isSafeIntegerE:
  assumes "num_isSafeInteger x"
  obtains n where "x = NInt n" "\<bar>n\<bar> \<le> max_safe_integer"
proof (cases x)
  case (Fin y)
  with assms have "x = NInt \<lfloor>y\<rfloor>" by simp
  with assms that show ?thesis by (metis num_isSafeInteger_NInt)
qed (use assms in simp_all)

section \<open>Values\<close>

datatype jsval =
    JUndefined
  | JNull
  | JBool bool
  | JNum jsnum
  | JBigInt int
  | JStr string
  | JArr "jsval list"
  | JObj "(string \<times> jsval) list"
  | JRef nat
  | JFun nat

abbreviation JInt :: "int \<Rightarrow> jsval" where
  "JInt n \<equiv> JNum (NInt n)"

type_synonym fields = "(string \<times> jsval) list"

text \<open>Reading a property: \<open>undefined\<close> where the object has none.\<close>

definition fieldOf :: "fields \<Rightarrow> string \<Rightarrow> jsval" where
  "fieldOf fs k = (case map_of fs k of None \<Rightarrow> JUndefined | Some v \<Rightarrow> v)"

definition hasOwn :: "fields \<Rightarrow> string \<Rightarrow> bool" where
  "hasOwn fs k \<longleftrightarrow> k \<in> fst ` set fs"

lemma fieldOf_simps [simp]:
  "fieldOf [] k = JUndefined" "fieldOf ((k', v) # fs) k = (if k = k' then v else fieldOf fs k)"
  by (simp_all add: fieldOf_def)

lemma hasOwn_simps [simp]:
  "hasOwn [] k = False" "hasOwn (f # fs) k \<longleftrightarrow> k = fst f \<or> hasOwn fs k"
  by (auto simp: hasOwn_def)

definition isNullish :: "jsval \<Rightarrow> bool" where
  "isNullish v \<longleftrightarrow> v = JUndefined \<or> v = JNull"

text \<open>\<open>a ?? b\<close>\<close>

definition nullish :: "jsval \<Rightarrow> jsval \<Rightarrow> jsval" where
  "nullish a b = (if isNullish a then b else a)"

fun isString :: "jsval \<Rightarrow> bool" where
  "isString (JStr s) = True"
| "isString _ = False"

fun isNumber :: "jsval \<Rightarrow> bool" where
  "isNumber (JNum x) = True"
| "isNumber _ = False"

fun isBoolean :: "jsval \<Rightarrow> bool" where
  "isBoolean (JBool b) = True"
| "isBoolean _ = False"

fun isArray :: "jsval \<Rightarrow> bool" where
  "isArray (JArr xs) = True"
| "isArray _ = False"

text \<open>\<open>typeof v === "object" && v !== null\<close>: arrays count.\<close>

fun isObjectLike :: "jsval \<Rightarrow> bool" where
  "isObjectLike (JArr xs) = True"
| "isObjectLike (JObj fs) = True"
| "isObjectLike (JRef a) = True"
| "isObjectLike _ = False"

text \<open>\<open>Number.isSafeInteger(v)\<close> and its kin answer \<open>false\<close> for anything that is not a number.\<close>

fun isSafeInteger :: "jsval \<Rightarrow> bool" where
  "isSafeInteger (JNum x) = num_isSafeInteger x"
| "isSafeInteger _ = False"

fun isInteger :: "jsval \<Rightarrow> bool" where
  "isInteger (JNum x) = num_isInteger x"
| "isInteger _ = False"

fun isFinite :: "jsval \<Rightarrow> bool" where
  "isFinite (JNum x) = num_isFinite x"
| "isFinite _ = False"

fun truthy :: "jsval \<Rightarrow> bool" where
  "truthy JUndefined = False"
| "truthy JNull = False"
| "truthy (JBool b) = b"
| "truthy (JNum x) = (x \<noteq> NaN \<and> x \<noteq> Fin 0)"
| "truthy (JBigInt i) = (i \<noteq> 0)"
| "truthy (JStr s) = (s \<noteq> [])"
| "truthy (JArr xs) = True"
| "truthy (JObj fs) = True"
| "truthy (JRef a) = True"
| "truthy (JFun f) = True"

lemma isSafeIntegerE:
  assumes "isSafeInteger v"
  obtains n where "v = JInt n" "\<bar>n\<bar> \<le> max_safe_integer"
  using assms by (cases v) (auto elim: num_isSafeIntegerE)

section \<open>Patterns shared by the sources\<close>

text \<open>\<open>/^0x[0-9a-fA-F]{64}$/u\<close>, and \<open>/^0x[0-9a-f]{64}$/iu\<close>, which also accepts the prefix \<open>0X\<close>.\<close>

definition hash_rx :: rx where
  "hash_rx = anchored (Sq (lit ''0x'') (rtimes 64 (Cls is_hex)))"

definition hash_ci_rx :: rx where
  "hash_ci_rx = anchored (Sq (lit_ci ''0x'') (rtimes 64 (Cls is_hex)))"

text \<open>\<open>/^0x[0-9a-f]+$/iu\<close> and \<open>/^0x[0-9a-f]*$/iu\<close>\<close>

definition hex_number_rx :: rx where
  "hex_number_rx = anchored (Sq (lit_ci ''0x'') (rplus (Cls is_hex)))"

definition hex_text_rx :: rx where
  "hex_text_rx = anchored (Sq (lit_ci ''0x'') (Star (Cls is_hex)))"

text \<open>\<open>/^(?:0|[1-9][0-9]*)$/u\<close>\<close>

definition canonical_decimal_rx :: rx where
  "canonical_decimal_rx =
     anchored (Alt (lit ''0'') (Sq (Cls (\<lambda>c. is_digit c \<and> c \<noteq> CHR ''0'')) (Star (Cls is_digit))))"

definition is_hash :: "string \<Rightarrow> bool" where
  "is_hash s \<longleftrightarrow> length s = 66 \<and> take 2 s = ''0x'' \<and> list_all is_hex (drop 2 s)"

lemma two_char_prefix: "(\<exists>w. s = [a, b] @ w \<and> P w) \<longleftrightarrow> take 2 s = [a, b] \<and> P (drop 2 s)"
  by (cases s; cases "tl s") auto

lemma hash_rx_iff [simp]: "rx_test hash_rx s \<longleftrightarrow> is_hash s"
proof -
  have "rx_test hash_rx s \<longleftrightarrow> (\<exists>w. s = ''0x'' @ w \<and> length w = 64 \<and> list_all is_hex w)"
    unfolding hash_rx_def by (subst rx_test_anchored, simp, simp only: lang_Sq_lit lang_times_Cls) auto
  also have "\<dots> \<longleftrightarrow> is_hash s"
    unfolding two_char_prefix is_hash_def by auto
  finally show ?thesis .
qed

lemma lang_lit_ci_0x:
  "lang (Sq (lit_ci ''0x'') r) = {s. toLowerCase (take 2 s) = ''0x'' \<and> drop 2 s \<in> lang r}"
proof -
  have z: "lower_char CHR ''0'' = CHR ''0''" "lower_char CHR ''x'' = CHR ''x''" by code_simp+
  have "lang (lit_ci ''0x'') = {[a, b] | a b. lower_char a = CHR ''0'' \<and> lower_char b = CHR ''x''}"
    by (simp only: lit_ci.simps lang_Sq_Cls lang.simps(1) z) blast
  then have "lang (Sq (lit_ci ''0x'') r) =
      {[a, b] @ w | a b w. lower_char a = CHR ''0'' \<and> lower_char b = CHR ''x'' \<and> w \<in> lang r}"
    by (simp only: lang.simps(3)) blast
  also have "\<dots> = {s. toLowerCase (take 2 s) = ''0x'' \<and> drop 2 s \<in> lang r}"
  proof (rule set_eqI)
    show "s \<in> {[a, b] @ w | a b w. lower_char a = CHR ''0'' \<and> lower_char b = CHR ''x'' \<and> w \<in> lang r} \<longleftrightarrow>
      s \<in> {s. toLowerCase (take 2 s) = ''0x'' \<and> drop 2 s \<in> lang r}" for s
      by (cases s; cases "tl s") auto
  qed
  finally show ?thesis .
qed

lemma pure_lit_ci [simp]: "pure_rx (lit_ci s)"
  by (induction s) simp_all

text \<open>The case-insensitive patterns as predicates on strings.\<close>

definition hex_prefixed :: "string \<Rightarrow> bool" where
  "hex_prefixed s \<longleftrightarrow> toLowerCase (take 2 s) = ''0x'' \<and> list_all is_hex (drop 2 s)"

lemma hash_ci_rx_iff: "rx_test hash_ci_rx s \<longleftrightarrow> hex_prefixed s \<and> length s = 66"
proof -
  have "rx_test hash_ci_rx s \<longleftrightarrow> toLowerCase (take 2 s) = ''0x'' \<and> length (drop 2 s) = 64 \<and> list_all is_hex (drop 2 s)"
    unfolding hash_ci_rx_def by (subst rx_test_anchored, simp, simp only: lang_lit_ci_0x lang_times_Cls) blast
  then show ?thesis by (auto simp: hex_prefixed_def)
qed

lemma hex_number_rx_iff: "rx_test hex_number_rx s \<longleftrightarrow> hex_prefixed s \<and> 2 < length s"
proof -
  have "rx_test hex_number_rx s \<longleftrightarrow> toLowerCase (take 2 s) = ''0x'' \<and> drop 2 s \<noteq> [] \<and> list_all is_hex (drop 2 s)"
    unfolding hex_number_rx_def by (subst rx_test_anchored, simp, simp only: lang_lit_ci_0x lang_rplus_Cls) blast
  then show ?thesis by (auto simp: hex_prefixed_def)
qed

lemma hex_text_rx_iff: "rx_test hex_text_rx s \<longleftrightarrow> hex_prefixed s"
  unfolding hex_text_rx_def hex_prefixed_def
  by (subst rx_test_anchored, simp, simp only: lang_lit_ci_0x lang_Star_Cls) blast

lemma canonical_decimal_rx_iff [simp]: "rx_test canonical_decimal_rx s \<longleftrightarrow> canonical_decimal s"
proof -
  have "rx_test canonical_decimal_rx s \<longleftrightarrow>
      s = ''0'' \<or> (\<exists>c w. s = c # w \<and> is_digit c \<and> c \<noteq> CHR ''0'' \<and> list_all is_digit w)"
    unfolding canonical_decimal_rx_def
    by (subst rx_test_anchored, simp, simp only: lang.simps(4) lang_lit lang_Sq_Cls lang_Star_Cls) auto
  also have "\<dots> \<longleftrightarrow> canonical_decimal s"
    unfolding canonical_decimal_def by (cases s) auto
  finally show ?thesis .
qed

end
