(* ===== verification/Bech32_Checksum.thy ===== *)
theory Bech32_Checksum
  imports Bech32
begin

text \<open>
  The checksum of the account codec as linear algebra over the field with two elements, and the
  theorems about whole addresses that follow from it: encoding and decoding are inverse to each other,
  and a decoder never accepts an address that differs from a valid one in one or two characters.
\<close>

unbundle bit_operations_syntax

section \<open>Linearity\<close>

lemma generators_acc: "polymodGenerators gs i t c = c XOR polymodGenerators gs i t 0"
proof (induction gs arbitrary: i c)
  case (Cons g gs)
  show ?case
    using Cons.IH [of "Suc i" "c XOR g"] Cons.IH [of "Suc i" g] Cons.IH [of "Suc i" c]
    by (auto simp: ac_simps)
qed simp

lemma generators_bit: "drop_bit i (t :: 32 word) AND 1 \<noteq> 0 \<longleftrightarrow> bit t i"
  by (simp add: and_one_eq bit_iff_odd_drop_bit odd_iff_mod_2_eq_one)

lemma generators_linear:
  "polymodGenerators gs i (s XOR t) 0 = polymodGenerators gs i s 0 XOR polymodGenerators gs i t 0"
proof (induction gs arbitrary: i)
  case (Cons g gs)
  have *: "polymodGenerators gs (Suc i) u g = g XOR polymodGenerators gs (Suc i) u 0" for u
    by (rule generators_acc)
  show ?case
    unfolding polymodGenerators.simps generators_bit bit_xor_iff
    by (cases "bit s i"; cases "bit t i") (simp_all add: Cons.IH * ac_simps)
qed simp

text \<open>One step of the checksum without the input, and the whole fold over words.\<close>

definition syndrome :: "32 word \<Rightarrow> 32 word" where
  "syndrome c = push_bit 5 (take_bit 25 c) XOR polymodGenerators bech32Generator 0 (drop_bit 25 c) 0"

definition polyW :: "32 word \<Rightarrow> 32 word list \<Rightarrow> 32 word" where
  "polyW c vs = foldl (\<lambda>c v. syndrome c XOR v) c vs"

lemma polyW_simps [simp]:
  "polyW c [] = c" "polyW c (v # vs) = polyW (syndrome c XOR v) vs"
  "polyW c (vs @ ws) = polyW (polyW c vs) ws"
  by (simp_all add: polyW_def)

lemma polymodStep_syndrome: "polymodStep c v = syndrome c XOR word_of_int v"
proof -
  have "c AND 0x1ffffff = take_bit 25 c" by (simp add: take_bit_eq_mask mask_eq_exp_minus_1)
  then show ?thesis
    unfolding polymodStep_def Let_def syndrome_def by (subst generators_acc) (simp add: ac_simps)
qed

lemma bech32Polymod_polyW: "bech32Polymod vs = uint (polyW 1 (map word_of_int vs))"
proof -
  have "foldl polymodStep c vs = polyW c (map word_of_int vs)" for c
    by (induction vs arbitrary: c) (simp_all add: polymodStep_syndrome)
  then show ?thesis by (simp add: bech32Polymod_def)
qed

lemma syndrome_xor: "syndrome (a XOR b) = syndrome a XOR syndrome b"
  by (simp add: syndrome_def drop_bit_xor generators_linear push_bit_xor take_bit_xor ac_simps)

lemma polyW_xor:
  "length vs = length ws \<Longrightarrow> polyW (a XOR b) (map2 (XOR) vs ws) = polyW a vs XOR polyW b ws"
proof (induction vs ws arbitrary: a b rule: list_induct2)
  case (Cons v vs w ws)
  have "syndrome (a XOR b) XOR (v XOR w) = (syndrome a XOR v) XOR (syndrome b XOR w)"
    by (simp add: syndrome_xor ac_simps)
  then show ?case using Cons.IH by simp
qed simp

section \<open>States of bounded width\<close>

definition fits :: "nat \<Rightarrow> 32 word \<Rightarrow> bool" where
  "fits n w \<longleftrightarrow> take_bit n w = w"

lemma fits_xor [intro]: "fits n a \<Longrightarrow> fits n b \<Longrightarrow> fits n (a XOR b)"
  by (simp add: fits_def take_bit_xor)

lemma fits_0 [simp]: "fits n 0"
  by (simp add: fits_def)

lemma fits_mono: "fits m w \<Longrightarrow> m \<le> n \<Longrightarrow> fits n w"
  by (metis fits_def min.absorb2 take_bit_take_bit)

lemma fits_bit: "fits n w \<longleftrightarrow> (\<forall>i \<ge> n. \<not> bit w i)"
proof -
  have "fits n w \<longleftrightarrow> (\<forall>i. (i < n \<and> bit w i) = bit w i)"
    unfolding fits_def bit_eq_iff bit_take_bit_iff by (meson bit_imp_possible_bit)
  then show ?thesis by (meson not_le)
qed

lemma push_bit_eq_0:
  assumes "push_bit 5 (c :: 32 word) = 0" "fits 25 c"
  shows "c = 0"
proof (rule bit_eqI)
  fix i
  have "\<not> bit (push_bit 5 c) (i + 5)" using assms(1) by simp
  then show "bit c i = bit 0 i"
    using assms(2) by (cases "i < 25") (auto simp: fits_bit bit_push_bit_iff)
qed

lemma fits_unat: "fits n w \<longleftrightarrow> unat w < 2 ^ n"
proof -
  have "fits n w \<longleftrightarrow> unat (take_bit n w) = unat w"
    unfolding fits_def by (rule word_unat_eq_iff)
  also have "\<dots> \<longleftrightarrow> take_bit n (unat w) = unat w" by (simp add: unsigned_take_bit_eq)
  finally show ?thesis by (simp add: take_bit_nat_eq_self_iff)
qed

lemma fits_push: "fits n w \<Longrightarrow> fits (n + k) (push_bit k w)"
  by (metis add_diff_cancel_right' fits_def take_bit_push_bit)

lemma generators_fits:
  "list_all (fits n) gs \<Longrightarrow> fits n c \<Longrightarrow> fits n (polymodGenerators gs i t c)"
  by (induction gs arbitrary: i c) auto

lemma syndrome_fits: "fits 30 (syndrome c)"
proof -
  have "fits (25 + 5) (push_bit 5 (take_bit 25 c))" by (rule fits_push) (simp add: fits_def)
  moreover have "list_all (fits 30) bech32Generator"
    by (simp add: bech32Generator_def fits_unat)
  ultimately show ?thesis
    unfolding syndrome_def by (intro fits_xor generators_fits) simp_all
qed

lemma polyW_fits:
  "fits 30 c \<Longrightarrow> list_all (fits 5) vs \<Longrightarrow> fits 30 (polyW c vs)"
proof (induction vs arbitrary: c)
  case (Cons v vs)
  then have "fits 30 (syndrome c XOR v)"
    using fits_mono [of 5 v 30] by (intro fits_xor syndrome_fits) simp
  with Cons show ?case by simp
qed simp

lemma generators_top_0 [simp]: "polymodGenerators gs i 0 c = c"
  by (induction gs arbitrary: i c) simp_all

lemma syndrome_push: "fits 25 c \<Longrightarrow> syndrome c = push_bit 5 c"
proof -
  assume f: "fits 25 c"
  then have "drop_bit 25 c = drop_bit 25 (take_bit 25 c)" by (simp add: fits_def)
  also have "\<dots> = 0" by (simp add: drop_bit_take_bit)
  finally show ?thesis using f by (simp add: syndrome_def fits_def)
qed

text \<open>The step is injective on 30-bit states: the low five bits of the feedback tell the top apart.\<close>

lemma generators_kernel:
  "list_all (\<lambda>d. polymodGenerators bech32Generator 0 (word_of_nat d) 0 AND 31 \<noteq> 0) [1..<32]"
  by code_simp

lemma syndrome_eq_0:
  assumes "fits 30 c" "syndrome c = 0"
  shows "c = 0"
proof -
  define t where "t = drop_bit 25 c"
  have "take_bit 5 (push_bit 5 (take_bit 25 c)) = 0" by (simp add: take_bit_push_bit)
  then have low: "polymodGenerators bech32Generator 0 t 0 AND 31 = 0"
    using arg_cong [OF assms(2), of "take_bit 5"]
    by (simp add: syndrome_def t_def take_bit_xor take_bit_eq_mask [of 5] mask_eq_exp_minus_1)
  have "fits 5 t"
    using assms(1) unfolding fits_bit t_def by (auto simp: bit_drop_bit_eq)
  then have "unat t < 32" by (simp add: fits_unat)
  moreover have "unat t \<notin> {1..<32}"
    using generators_kernel low by (auto simp: list_all_iff dest: bspec [of _ _ "unat t"])
  ultimately have "unat t = 0" by simp
  then have t: "t = 0" by (simp add: unat_eq_zero)
  then have "push_bit 5 (take_bit 25 c) = 0" using assms(2) by (simp add: syndrome_def t_def)
  moreover have "fits 25 c"
    using t unfolding t_def fits_def by (simp add: take_bit_eq_self_iff_drop_bit_eq_0)
  ultimately show ?thesis by (auto simp: fits_def dest: push_bit_eq_0)
qed

section \<open>The six checksum words\<close>

text \<open>Up to six words are packed into the state without any feedback, so they can be read back.\<close>

lemma polyW_fits_short:
  "list_all (fits 5) vs \<Longrightarrow> length vs \<le> 6 \<Longrightarrow> fits (5 * length vs) (polyW 0 vs)"
proof (induction vs rule: rev_induct)
  case (snoc v vs)
  then have IH: "fits (5 * length vs) (polyW 0 vs)" by simp
  with snoc.prems have "fits 25 (polyW 0 vs)" by (intro fits_mono [OF IH]) simp
  then have "polyW 0 (vs @ [v]) = push_bit 5 (polyW 0 vs) XOR v" by (simp add: syndrome_push)
  moreover have "fits (5 * length vs + 5) (push_bit 5 (polyW 0 vs))" by (rule fits_push [OF IH])
  moreover have "fits (5 * length vs + 5) v" using snoc.prems fits_mono [of 5 v] by simp
  ultimately show ?case using fits_xor by (simp add: add.commute)
qed simp

lemma polyW_snoc_short:
  assumes "list_all (fits 5) vs" "length vs \<le> 5"
  shows "polyW 0 (vs @ [v]) = push_bit 5 (polyW 0 vs) XOR v" and "fits 25 (polyW 0 vs)"
proof -
  show "fits 25 (polyW 0 vs)"
    by (rule fits_mono [OF polyW_fits_short]) (use assms in simp_all)
  then show "polyW 0 (vs @ [v]) = push_bit 5 (polyW 0 vs) XOR v" by (simp add: syndrome_push)
qed

lemma polyW_short_eq_0:
  "list_all (fits 5) vs \<Longrightarrow> length vs \<le> 6 \<Longrightarrow> polyW 0 vs = 0 \<Longrightarrow> list_all (\<lambda>v. v = 0) vs"
proof (induction vs rule: rev_induct)
  case (snoc v vs)
  have vs: "list_all (fits 5) vs" "length vs \<le> 5" and v: "fits 5 v"
    using snoc.prems by simp_all
  have eq: "push_bit 5 (polyW 0 vs) XOR v = 0"
    using polyW_snoc_short(1) [OF vs] snoc.prems(3) by simp
  then have "take_bit 5 (push_bit 5 (polyW 0 vs) XOR v) = 0" by simp
  then have "v = 0" using v by (simp add: fits_def take_bit_xor take_bit_push_bit)
  with eq have "push_bit 5 (polyW 0 vs) = 0" by simp
  then have "polyW 0 vs = 0" using push_bit_eq_0 polyW_snoc_short(2) [OF vs] by blast
  with snoc.IH vs \<open>v = 0\<close> show ?case by simp
qed simp

definition groups :: "32 word \<Rightarrow> nat \<Rightarrow> 32 word list" where
  "groups w n = map (\<lambda>i. drop_bit (5 * (n - 1 - i)) w AND 31) [0..<n]"

lemma fits_and31 [simp]: "fits 5 (w AND 31)"
  by (simp add: fits_def take_bit_eq_mask mask_eq_exp_minus_1 and.assoc)

lemma length_groups [simp]: "length (groups w n) = n"
  by (simp add: groups_def)

lemma groups_fits: "list_all (fits 5) (groups w n)"
  by (simp add: groups_def list_all_iff)

lemma groups_Suc: "groups w (Suc n) = groups (drop_bit 5 w) n @ [w AND 31]"
proof -
  have "5 * (n - i) = 5 * (n - 1 - i) + 5" if "i < n" for i using that by simp
  then show ?thesis by (simp add: groups_def drop_bit_drop_bit add.commute)
qed

lemma polyW_groups: "n \<le> 6 \<Longrightarrow> polyW 0 (groups w n) = take_bit (5 * n) w"
proof (induction n arbitrary: w)
  case (Suc n)
  have "polyW 0 (groups w (Suc n)) = push_bit 5 (polyW 0 (groups (drop_bit 5 w) n)) XOR (w AND 31)"
    unfolding groups_Suc
    by (rule polyW_snoc_short(1)) (use Suc.prems in \<open>simp_all add: groups_fits\<close>)
  also have "\<dots> = push_bit 5 (take_bit (5 * n) (drop_bit 5 w)) XOR take_bit 5 w"
    using Suc by (simp add: take_bit_eq_mask [of 5] mask_eq_exp_minus_1)
  also have "\<dots> = take_bit (5 * Suc n) w"
    by (auto intro!: bit_eqI simp: bit_xor_iff bit_push_bit_iff bit_take_bit_iff bit_drop_bit_eq)
  finally show ?case .
qed (simp add: groups_def)


lemma polyW_split:
  assumes "length cs = n"
  shows "polyW c cs = polyW c (replicate n 0) XOR polyW 0 cs"
proof -
  have "map2 (XOR) (replicate n 0) cs = cs"
    using assms by (intro nth_equalityI) simp_all
  then show ?thesis using polyW_xor [of "replicate n 0" cs c 0] assms by simp
qed

lemma xor_eq_0: "(a :: 32 word) XOR b = 0 \<longleftrightarrow> a = b"
proof
  assume "a XOR b = 0"
  then have "(a XOR b) XOR b = b" by simp
  then show "a = b" by (simp add: xor.assoc)
qed simp

lemma xor_shift: "(a :: 32 word) XOR x = b \<longleftrightarrow> x = a XOR b"
  using xor_eq_0 [of "a XOR x" b] xor_eq_0 [of x "a XOR b"] by (simp add: ac_simps)

lemma polyW_differ:
  assumes "length vs = length ws"
  shows "polyW c vs = polyW c ws \<longleftrightarrow> polyW 0 (map2 (XOR) vs ws) = 0"
  using polyW_xor [OF assms, of c c] xor_eq_0 by simp

lemma map2_xor_fits:
  "list_all (fits n) vs \<Longrightarrow> list_all (fits n) ws \<Longrightarrow> list_all (fits n) (map2 (XOR) vs ws)"
  by (auto simp: list_all_iff dest: set_zip_leftD set_zip_rightD)

lemma map2_xor_eq_0:
  "length vs = length ws \<Longrightarrow> list_all (\<lambda>v. v = 0) (map2 (XOR) vs ws) \<longleftrightarrow> vs = (ws :: 32 word list)"
  by (induction vs ws rule: list_induct2) (simp_all add: xor_eq_0)

lemma polyW_short_inject:
  assumes "list_all (fits 5) vs" "list_all (fits 5) ws" "length vs = length ws" "length ws \<le> 6"
  shows "polyW 0 vs = polyW 0 ws \<longleftrightarrow> vs = ws"
  using polyW_short_eq_0 [OF map2_xor_fits [OF assms(1,2)]] polyW_differ [OF assms(3), of 0]
    map2_xor_eq_0 [OF assms(3)] assms(3,4) by auto

abbreviation words_of :: "int list \<Rightarrow> 32 word list" where
  "words_of \<equiv> map word_of_int"

lemma words_of_fits: "in_range 5 vs \<Longrightarrow> list_all (fits 5) (words_of vs)"
  using word_in_range_drop_bit [of _ 5]
  by (auto simp: in_range_def list_all_iff fits_def take_bit_eq_self_iff_drop_bit_eq_0)

lemma words_of_inject:
  assumes "in_range 5 vs" "in_range 5 ws" "words_of vs = words_of ws"
  shows "vs = ws"
proof -
  have "map (uint \<circ> (word_of_int :: int \<Rightarrow> 32 word)) xs = xs" if "in_range 5 xs" for xs
    using that by (intro map_idI) (auto simp: in_range_def uint_word_of_int_eq take_bit_int_eq_self)
  then show ?thesis using assms by (metis map_map)
qed

lemma expandBech32Hrp_torium:
  "expandBech32Hrp ''torium'' = [3, 3, 3, 3, 3, 3, 0, 20, 15, 18, 9, 21, 13]"
  by code_simp

lemma createBech32Checksum_groups:
  "words_of (createBech32Checksum hrp words) =
     groups (polyW 1 (words_of (expandBech32Hrp hrp @ words @ [0, 0, 0, 0, 0, 0])) XOR 1) 6"
  by (simp add: createBech32Checksum_def Let_def groups_def bech32Polymod_polyW o_def)

lemma createBech32Checksum_range:
  "in_range 5 (createBech32Checksum hrp words) \<and> length (createBech32Checksum hrp words) = 6"
proof -
  have "uint (w AND 31 :: 32 word) < 32" for w :: "32 word"
  proof -
    have "uint (w AND 31) = int (unat (w AND 31))" by simp
    moreover have "unat (w AND 31) < 32" using fits_and31 [of w] by (simp only: fits_unat) simp
    ultimately show ?thesis by linarith
  qed
  then show ?thesis by (simp add: createBech32Checksum_def Let_def in_range_def)
qed


lemma checksum_state:
  assumes "in_range 5 words"
  shows "fits 30 (polyW 1 (words_of (expandBech32Hrp ''torium'' @ words)))"
  using assms by (intro polyW_fits words_of_fits) (simp_all add: expandBech32Hrp_torium fits_unat)

text \<open>
  The checksum of a data part is the one list of six words that the verification accepts.
\<close>

lemma verify_iff_create:
  assumes "in_range 5 words" "in_range 5 cs" "length cs = 6"
  shows "verifyBech32Checksum ''torium'' (words @ cs) \<longleftrightarrow> cs = createBech32Checksum ''torium'' words"
proof -
  let ?c = "polyW 1 (words_of (expandBech32Hrp ''torium'' @ words))"
  let ?p = "polyW ?c (replicate 6 0)"
  have rep: "words_of [0, 0, 0, 0, 0, 0] = replicate 6 0" by (simp add: numeral_eq_Suc)
  have fc: "list_all (fits 5) (words_of cs)" by (rule words_of_fits [OF assms(2)])
  let ?k = "createBech32Checksum ''torium'' words"
  have k: "words_of ?k = groups (?p XOR 1) 6"
    unfolding createBech32Checksum_groups append_assoc [symmetric] map_append [of _ "_ @ _"] rep by simp
  have "fits 30 ?p"
    by (rule polyW_fits [OF checksum_state [OF assms(1)]]) (simp add: numeral_eq_Suc)
  moreover have "fits 30 1" by (simp add: fits_unat)
  ultimately have "fits 30 (?p XOR 1)" by (rule fits_xor)
  then have pk: "polyW 0 (words_of ?k) = ?p XOR 1"
    unfolding k by (simp add: polyW_groups fits_def)
  have "verifyBech32Checksum ''torium'' (words @ cs) \<longleftrightarrow> polyW ?c (words_of cs) = 1"
    unfolding verifyBech32Checksum_def bech32Polymod_polyW 
    by (simp add: word_uint_eq_iff [of _ "1 :: 32 word"])
  also have "\<dots> \<longleftrightarrow> ?p XOR polyW 0 (words_of cs) = 1"
    using polyW_split [of "words_of cs" 6 ?c] assms(3) by simp
  also have "\<dots> \<longleftrightarrow> polyW 0 (words_of cs) = polyW 0 (words_of ?k)"
    unfolding pk by (rule xor_shift)
  also have "\<dots> \<longleftrightarrow> words_of cs = words_of ?k"
    using createBech32Checksum_range [of "''torium''" words] assms(3)
    by (intro polyW_short_inject fc words_of_fits) simp_all
  also have "\<dots> \<longleftrightarrow> cs = ?k"
    using words_of_inject [OF assms(2)] createBech32Checksum_range by blast
  finally show ?thesis .
qed


section \<open>Distance\<close>

text \<open>
  Starting from a single word, the states of the next 37 steps never come back to a single word, which
  is the length that matters: a payload has 38 words.
\<close>

fun never_small :: "nat \<Rightarrow> 32 word \<Rightarrow> bool" where
  "never_small 0 c = True"
| "never_small (Suc n) c = (let c' = syndrome c in drop_bit 5 c' \<noteq> 0 \<and> never_small n c')"

text \<open>By linearity it is enough to follow a basis of the five-bit words and look at its span.\<close>

fun spanned :: "32 word list \<Rightarrow> 32 word list" where
  "spanned [] = [0]"
| "spanned (b # bs) = (let r = spanned bs in r @ map ((XOR) b) r)"

fun never_small_span :: "nat \<Rightarrow> 32 word list \<Rightarrow> bool" where
  "never_small_span 0 bs = True"
| "never_small_span (Suc n) bs =
     (let bs' = map syndrome bs
      in list_all (\<lambda>c. drop_bit 5 c \<noteq> 0) (tl (spanned bs')) \<and> never_small_span n bs')"

lemma syndrome_0 [simp]: "syndrome 0 = 0"
  by (simp add: syndrome_def)

lemma spanned_syndrome: "spanned (map syndrome bs) = map syndrome (spanned bs)"
  by (induction bs) (simp_all add: Let_def syndrome_xor)

lemma never_small_spanned:
  "never_small_span n bs \<Longrightarrow> c \<in> set (tl (spanned bs)) \<Longrightarrow> never_small n c"
proof (induction n bs arbitrary: c rule: never_small_span.induct)
  case (2 n bs)
  have "syndrome c \<in> set (tl (spanned (map syndrome bs)))"
    using 2(3) by (simp add: spanned_syndrome map_tl [symmetric])
  then show ?case using 2(1) [OF refl, of "syndrome c"] 2(2) by (simp add: Let_def list_all_iff)
qed simp

text \<open>The same computation on lists of 30 bits, least significant first.\<close>

definition bits30 :: "32 word \<Rightarrow> bool list" where
  "bits30 w = map (bit w) [0..<30]"

fun xor_bits :: "bool list \<Rightarrow> bool list \<Rightarrow> bool list" where
  "xor_bits (a # as) (b # bs) = (a \<noteq> b) # xor_bits as bs"
| "xor_bits _ _ = []"

fun feedback_bits :: "bool list \<Rightarrow> bool list list \<Rightarrow> bool list \<Rightarrow> bool list" where
  "feedback_bits (b # bs) (g # gs) acc = feedback_bits bs gs (if b then xor_bits acc g else acc)"
| "feedback_bits _ _ acc = acc"

definition syndrome_bits :: "bool list list \<Rightarrow> bool list \<Rightarrow> bool list" where
  "syndrome_bits gs c =
     xor_bits (replicate 5 False @ take 25 c)
       (feedback_bits (drop 25 c) gs (replicate 30 False))"

fun spanned_bits :: "bool list list \<Rightarrow> bool list list" where
  "spanned_bits [] = [replicate 30 False]"
| "spanned_bits (b # bs) = (let r = spanned_bits bs in r @ map (xor_bits b) r)"

fun never_small_bits :: "bool list list \<Rightarrow> nat \<Rightarrow> bool list list \<Rightarrow> bool" where
  "never_small_bits gs 0 bs = True"
| "never_small_bits gs (Suc n) bs =
     (let bs' = map (syndrome_bits gs) bs
      in list_all (\<lambda>c. list_ex id (drop 5 c)) (tl (spanned_bits bs')) \<and> never_small_bits gs n bs')"

lemma xor_bits_map: "xor_bits (map f xs) (map g xs) = map (\<lambda>i. f i \<noteq> g i) xs"
  by (induction xs) simp_all

lemma bits30_xor: "bits30 (a XOR b) = xor_bits (bits30 a) (bits30 b)"
  by (simp add: bits30_def xor_bits_map bit_xor_iff)

lemma bits30_0 [simp]: "bits30 0 = replicate 30 False"
  by (rule nth_equalityI) (simp_all add: bits30_def)

lemma bits30_generators:
  "bits30 (polymodGenerators gs i t acc) =
     feedback_bits (map (bit t) [i..<i + length gs]) (map bits30 gs) (bits30 acc)"
proof (induction gs arbitrary: i acc)
  case (Cons g gs)
  have "[i..<i + length (g # gs)] = i # [Suc i..<Suc i + length gs]" 
    using upt_conv_Cons [of i "i + length (g # gs)"] by simp
  then show ?case
    unfolding polymodGenerators.simps generators_bit using Cons.IH [of "Suc i"] by (simp add: bits30_xor)
qed simp

lemma bits30_syndrome: "bits30 (syndrome c) = syndrome_bits (map bits30 bech32Generator) (bits30 c)"
proof -
  have "bits30 (push_bit 5 (take_bit 25 c)) = replicate 5 False @ take 25 (bits30 c)"
    by (rule nth_equalityI)
      (auto simp: bits30_def nth_append bit_push_bit_iff bit_take_bit_iff)
  moreover have "map (bit (drop_bit 25 c)) [0..<5] = drop 25 (bits30 c)"
    by (rule nth_equalityI) (simp_all add: bits30_def bit_drop_bit_eq)
  moreover have "length bech32Generator = 5" by (simp add: bech32Generator_def)
  ultimately show ?thesis
    unfolding syndrome_def bits30_xor bits30_generators syndrome_bits_def by simp
qed

lemma bits30_spanned: "map bits30 (spanned bs) = spanned_bits (map bits30 bs)"
proof (induction bs)
  case (Cons b bs)
  have "map bits30 (map ((XOR) b) r) = map (xor_bits (bits30 b)) (map bits30 r)" for r
    by (simp add: bits30_xor)
  then show ?case using Cons.IH by (simp add: Let_def del: map_map)
qed simp

lemma bits30_drop: "list_ex id (drop 5 (bits30 c)) \<Longrightarrow> drop_bit 5 c \<noteq> 0"
proof
  assume "list_ex id (drop 5 (bits30 c))" "drop_bit 5 c = 0"
  then obtain i where "bit c (5 + i)"
    by (auto simp: list_ex_iff bits30_def in_set_conv_nth)
  with drop_bit_0_not_bit \<open>drop_bit 5 c = 0\<close> show False by blast
qed

lemma never_small_bits:
  "never_small_bits (map bits30 bech32Generator) n (map bits30 bs) \<Longrightarrow> never_small_span n bs"
proof (induction n bs rule: never_small_span.induct)
  case (2 n bs)
  let ?bs = "map syndrome bs"
  have bs: "map (syndrome_bits (map bits30 bech32Generator)) (map bits30 bs) = map bits30 ?bs"
    by (simp add: bits30_syndrome)
  have "list_all (\<lambda>c. list_ex id (drop 5 c)) (map bits30 (tl (spanned ?bs)))"
    and "never_small_bits (map bits30 bech32Generator) n (map bits30 ?bs)"
    using 2(2) unfolding never_small_bits.simps bs Let_def bits30_spanned [symmetric] map_tl by simp_all
  then show ?case using 2(1) [OF refl] by (auto simp: Let_def list_all_iff bits30_drop)
qed simp

lemma never_small_basis: "never_small_span 37 [1, 2, 4, 8, 16]"
proof (rule never_small_bits)
  show "never_small_bits (map bits30 bech32Generator) 37 (map bits30 [1, 2, 4, 8, 16])" by code_simp
qed

lemma spanned_basis: "list_all (\<lambda>d. word_of_nat d \<in> set (tl (spanned [1, 2, 4, 8, 16]))) [1..<32]"
  by code_simp

lemma never_small_words: "list_all (\<lambda>d. never_small 37 (word_of_nat d)) [1..<32]"
  using spanned_basis never_small_spanned [OF never_small_basis] by (simp only: list_all_iff) blast

lemma never_small_word: "fits 5 a \<Longrightarrow> a \<noteq> 0 \<Longrightarrow> never_small 37 a"
proof -
  assume "fits 5 a" "a \<noteq> 0"
  then have "unat a \<in> set [1..<32]" by (simp add: fits_unat unat_gt_0 Suc_le_eq)
  then have "never_small 37 (word_of_nat (unat a))"
    using never_small_words by (metis (mono_tags, lifting) list_all_iff)
  then show ?thesis by simp
qed

definition weight :: "32 word list \<Rightarrow> nat" where
  "weight d = length (filter (\<lambda>v. v \<noteq> 0) d)"

lemma weight_simps [simp]:
  "weight [] = 0" "weight (v # d) = (if v = 0 then weight d else Suc (weight d))"
  by (simp_all add: weight_def)

lemma polyW_zeros: "fits 30 c \<Longrightarrow> c \<noteq> 0 \<Longrightarrow> weight d = 0 \<Longrightarrow> polyW c d \<noteq> 0"
proof (induction d arbitrary: c)
  case (Cons v d)
  then have "v = 0" "syndrome c \<noteq> 0" using syndrome_eq_0 [of c] by (auto split: if_splits)
  with Cons show ?case using syndrome_fits [of c] by simp
qed simp

lemma polyW_one_error:
  "never_small n c \<Longrightarrow> length d \<le> n \<Longrightarrow> fits 30 c \<Longrightarrow> c \<noteq> 0 \<Longrightarrow> weight d \<le> 1 \<Longrightarrow>
   list_all (fits 5) d \<Longrightarrow> polyW c d \<noteq> 0"
proof (induction n c arbitrary: d rule: never_small.induct)
  case (2 n c)
  show ?case
  proof (cases d)
    case (Cons v d')
    let ?c = "syndrome c"
    have ns: "drop_bit 5 ?c \<noteq> 0" "never_small n ?c" using 2(2) by (simp_all add: Let_def)
    show ?thesis
    proof (cases "v = 0")
      case True
      have "?c \<noteq> 0" using ns(1) by auto
      then have "polyW ?c d' \<noteq> 0"
        using 2(1) [OF refl ns(2), of d'] 2(3,6,7) Cons True syndrome_fits by simp
      then show ?thesis using Cons True by simp
    next
      case False
      have "drop_bit 5 v = 0"
        using 2(7) Cons by (simp add: fits_def take_bit_eq_self_iff_drop_bit_eq_0)
      with ns(1) have "?c XOR v \<noteq> 0" by (auto simp: xor_eq_0)
      moreover have "fits 30 (?c XOR v)"
        using 2(7) Cons fits_mono [of 5 v 30] by (intro fits_xor syndrome_fits) simp
      ultimately have "polyW (?c XOR v) d' \<noteq> 0"
        using polyW_zeros 2(6) Cons False by simp
      then show ?thesis using Cons by simp
    qed
  qed (use 2 in simp)
qed simp

lemma polyW_two_errors:
  "0 < weight d \<Longrightarrow> weight d \<le> 2 \<Longrightarrow> length d \<le> 38 \<Longrightarrow> list_all (fits 5) d \<Longrightarrow> polyW 0 d \<noteq> 0"
proof (induction d)
  case (Cons v d)
  show ?case
  proof (cases "v = 0")
    case True
    with Cons show ?thesis by simp
  next
    case False
    have "fits 5 v" using Cons.prems by simp
    then have "never_small 37 v" "fits 30 v"
      using False never_small_word fits_mono [of 5 v 30] by simp_all
    then have "polyW v d \<noteq> 0"
      using polyW_one_error [of 37 v d] False Cons.prems by simp
    then show ?thesis by simp
  qed
qed simp


section \<open>Whole addresses\<close>

lemma indexOf_from_found:
  "indexOf_from i s c = -1 \<or> (\<exists>k < length s. indexOf_from i s c = i + int k \<and> s ! k = c)"
proof (induction i s c rule: indexOf_from.induct)
  case (2 i d s c)
  show ?case
  proof (cases "c = d")
    case False
    with 2 have "indexOf_from (i + 1) s c = -1 \<or>
      (\<exists>k < length s. indexOf_from (i + 1) s c = i + int (Suc k) \<and> (d # s) ! Suc k = c)" by auto
    then show ?thesis using False by (simp only: indexOf_from.simps if_False) fastforce
  qed simp
qed simp

lemma indexOf_from_nth:
  "distinct s \<Longrightarrow> k < length s \<Longrightarrow> indexOf_from i s (s ! k) = i + int k"
  by (induction s arbitrary: i k) (auto simp: nth_Cons' split: if_splits)

lemma bech32Alphabet_facts:
  "length bech32Alphabet = 32" "distinct bech32Alphabet" "list_all (\<lambda>c. lower_char c = c) bech32Alphabet"
  by code_simp+

lemma indexOf_alphabet: "k < 32 \<Longrightarrow> indexOf bech32Alphabet (bech32Alphabet ! k) = int k"
  unfolding indexOf_def using indexOf_from_nth [of bech32Alphabet k 0] bech32Alphabet_facts by simp

lemma alphabet_indexOf:
  assumes "0 \<le> indexOf bech32Alphabet c"
  shows "indexOf bech32Alphabet c < 32" "bech32Alphabet ! nat (indexOf bech32Alphabet c) = c"
proof -
  from indexOf_from_found [of 0 bech32Alphabet c] assms obtain k where
    "k < 32" "indexOf bech32Alphabet c = int k" "bech32Alphabet ! k = c"
    by (auto simp: indexOf_def bech32Alphabet_facts(1))
  then show "indexOf bech32Alphabet c < 32" "bech32Alphabet ! nat (indexOf bech32Alphabet c) = c"
    by simp_all
qed

definition letters :: "int list \<Rightarrow> string" where
  "letters words = map (\<lambda>word. bech32Alphabet ! nat word) words"

lemma indexOf_letters: "in_range 5 words \<Longrightarrow> map (indexOf bech32Alphabet) (letters words) = words"
  by (auto simp: letters_def in_range_def indexOf_alphabet intro!: map_idI)

lemma letters_indexOf:
  assumes "\<not> list_ex (\<lambda>word. word < 0) (map (indexOf bech32Alphabet) payload)"
  shows "in_range 5 (map (indexOf bech32Alphabet) payload)"
    and "letters (map (indexOf bech32Alphabet) payload) = payload"
  using assms alphabet_indexOf
  by (auto simp: letters_def in_range_def list_ex_iff intro!: map_idI)

lemma letters_lower: "in_range 5 words \<Longrightarrow> toLowerCase (letters words) = letters words"
proof -
  assume "in_range 5 words"
  then have "set (letters words) \<subseteq> set bech32Alphabet"
    using bech32Alphabet_facts(1) by (auto simp: letters_def in_range_def intro!: nth_mem)
  then show ?thesis
    using bech32Alphabet_facts(3) by (auto simp: toLowerCase_def list_all_iff intro!: map_idI)
qed

lemma torium1_lower: "toLowerCase ''torium1'' = ''torium1''"
  by code_simp

lemma toLowerCase_append: "toLowerCase (s @ t) = toLowerCase s @ toLowerCase t"
  by (simp add: toLowerCase_def)

definition account_bytes :: "int list \<Rightarrow> bool" where
  "account_bytes bytes \<longleftrightarrow> length bytes = 20 \<and> list_all (\<lambda>b. 0 \<le> b \<and> b < 256) bytes"

lemma account_bytes_range: "account_bytes bytes \<longleftrightarrow> length bytes = 20 \<and> in_range 8 bytes"
  by (simp add: account_bytes_def in_range_def list_all_iff)

lemma encode_words:
  assumes "account_bytes bytes"
  shows "\<exists>words. convertBits bytes 8 5 True = Inr words \<and> length words = 32 \<and> in_range 5 words \<and>
    convertBits words 5 8 False = Inr bytes"
proof -
  have b: "length bytes = 20" "in_range 8 bytes" using assms by (simp_all add: account_bytes_range)
  from convertBits_exact [of 5 8 bytes 32 True] b obtain words where
    w: "convertBits bytes 8 5 True = Inr words" "length words = 32" "in_range 5 words" by auto
  with convertBits_roundtrip [of 8 bytes 5 32 True words False] b show ?thesis by auto
qed

lemma encode_shape:
  assumes "account_bytes bytes" "convertBits bytes 8 5 True = Inr words"
  shows "encodeBech32Account bytes = Inr (''torium1'' @ letters (words @ createBech32Checksum ''torium'' words))"
  using assms by (simp add: encodeBech32Account_def letters_def account_bytes_def)

lemma decode_shape:
  assumes "in_range 5 words" "length words = 38"
  shows "decodeBech32Account (''torium1'' @ letters words) =
    (if \<not> verifyBech32Checksum ''torium'' words
     then Inl (TypeError ''Torium Bech32 account has an invalid checksum or alphabet.'')
     else convertBits (take 32 words) 5 8 False)"
proof -
  have len: "length (''torium1'' @ letters words) = 45" "length (letters words) = 38"
    using assms(2) by (simp_all add: letters_def)
  have lower: "toLowerCase (''torium1'' @ letters words) = ''torium1'' @ letters words"
    by (simp only: toLowerCase_append torium1_lower letters_lower [OF assms(1)])
  have nonneg: "\<not> list_ex (\<lambda>word. word < 0) words"
    using assms(1) by (auto simp: list_ex_iff in_range_def)
  have "\<exists>out. convertBits (take 32 words) 5 8 False = Inr out \<and> length out = 20"
    using convertBits_exact [of 8 5 "take 32 words" 20 False] assms
    by (auto simp: in_range_def dest: in_set_takeD)
  then show ?thesis
    using len lower nonneg assms(2)
    unfolding decodeBech32Account_def by (auto simp: indexOf_letters [OF assms(1)])
qed

lemma decode_words:
  assumes "decodeBech32Account s = Inr bytes"
  shows "\<exists>words. s = ''torium1'' @ letters words \<and> in_range 5 words \<and> length words = 38"
proof -
  let ?words = "map (indexOf bech32Alphabet) (drop 7 s)"
  have a: "length s = 45" "take 7 s = ''torium1''" "\<not> list_ex (\<lambda>word. word < 0) ?words"
    using assms unfolding decodeBech32Account_def Let_def by (auto split: if_splits)
  then have "s = ''torium1'' @ letters ?words" "in_range 5 ?words" "length ?words = 38"
    using letters_indexOf [OF a(3)] append_take_drop_id [of 7 s] by simp_all
  then show ?thesis by blast
qed

interpretation account: exact_codec encodeBech32Account decodeBech32Account account_bytes
proof
  show "\<exists>s. encodeBech32Account bytes = Inr s" if "account_bytes bytes" for bytes
    using encode_words [OF that] encode_shape [OF that] by blast
next
  fix bytes s
  assume b: "account_bytes bytes" and s: "encodeBech32Account bytes = Inr s"
  from encode_words [OF b] obtain words where
    w: "convertBits bytes 8 5 True = Inr words" "length words = 32" "in_range 5 words"
      "convertBits words 5 8 False = Inr bytes" by blast
  let ?k = "createBech32Checksum ''torium'' words"
  have k: "in_range 5 ?k" "length ?k = 6" using createBech32Checksum_range by simp_all
  with w verify_iff_create [of words ?k] have "verifyBech32Checksum ''torium'' (words @ ?k)" by simp
  with w k decode_shape [of "words @ ?k"] encode_shape [OF b w(1)] s
  show "decodeBech32Account s = Inr bytes" by simp
next
  fix s bytes
  assume d: "decodeBech32Account s = Inr bytes"
  from decode_words [OF d] obtain words where
    w: "s = ''torium1'' @ letters words" "in_range 5 words" "length words = 38" by blast
  define ws cs where "ws = take 32 words" and "cs = drop 32 words"
  have p: "words = ws @ cs" "in_range 5 ws" "in_range 5 cs" "length ws = 32" "length cs = 6"
    using w(2,3) unfolding ws_def cs_def in_range_def by (auto dest: in_set_takeD in_set_dropD)
  from d decode_shape [OF w(2,3)] have
    v: "verifyBech32Checksum ''torium'' words" and c: "convertBits ws 5 8 False = Inr bytes"
    unfolding w(1) ws_def by (auto split: if_splits)
  have "cs = createBech32Checksum ''torium'' ws"
    using verify_iff_create [of ws cs] v p by simp
  moreover from convertBits_exact [of 8 5 ws 20 False] p c have b: "account_bytes bytes"
    by (auto simp: account_bytes_range)
  moreover have "convertBits bytes 8 5 True = Inr ws"
    by (rule convertBits_roundtrip [of 5 ws 8 20 False]) (use p c in simp_all)
  ultimately show "account_bytes bytes \<and> encodeBech32Account bytes = Inr s"
    using encode_shape [OF b] w(1) p(1) by simp
qed

text \<open>Distance of two strings of the same length: the number of positions where they differ.\<close>

definition hamming :: "'a list \<Rightarrow> 'a list \<Rightarrow> nat" where
  "hamming s t = length (filter (\<lambda>(a, b). a \<noteq> b) (zip s t))"

lemma hamming_simps [simp]:
  "hamming [] t = 0" "hamming (a # s) (b # t) = (if a = b then hamming s t else Suc (hamming s t))"
  by (simp_all add: hamming_def)

lemma hamming_append:
  "length s = length s' \<Longrightarrow> hamming (s @ t) (s' @ t') = hamming s s' + hamming t t'"
  by (simp add: hamming_def)

lemma hamming_0: "length s = length t \<Longrightarrow> hamming s t = 0 \<longleftrightarrow> s = t"
  by (induction s t rule: list_induct2) simp_all

lemma hamming_letters:
  assumes "in_range 5 v" "in_range 5 w" "length v = length w"
  shows "weight (map2 (XOR) (words_of v) (words_of w)) = hamming (letters v) (letters w)"
  using assms(3,1,2)
proof (induction v w rule: list_induct2)
  case (Cons x xs y ys)
  have r: "in_range 5 [x]" "in_range 5 [y]" using Cons.prems by simp_all
  have "word_of_int x = (word_of_int y :: 32 word) \<longleftrightarrow> x = y"
  proof
    assume "word_of_int x = (word_of_int y :: 32 word)"
    then have "words_of [x] = words_of [y]" by (simp only: list.map)
    then show "x = y" using words_of_inject [OF r] by blast
  qed simp
  moreover have "indexOf bech32Alphabet (bech32Alphabet ! nat z) = z" if "in_range 5 [z]" for z
    using indexOf_letters [OF that] by (simp add: letters_def)
  with r have "bech32Alphabet ! nat x = bech32Alphabet ! nat y \<longleftrightarrow> x = y" by metis
  moreover have "letters (x # xs) = bech32Alphabet ! nat x # letters xs"
    "letters (y # ys) = bech32Alphabet ! nat y # letters ys" by (simp_all add: letters_def)
  moreover have "weight (map2 (XOR) (words_of xs) (words_of ys)) = hamming (letters xs) (letters ys)"
    using Cons by simp
  ultimately show ?case by (simp add: xor_eq_0)
qed (simp add: letters_def)

text \<open>
  C14: An address that the decoder accepts is at distance at least three from every other address it
  accepts: one or two wrong characters are always detected.
\<close>

theorem decode_detects_two_substitutions:
  assumes "decodeBech32Account s = Inr bytes" "length s' = length s" "s' \<noteq> s" "hamming s' s \<le> 2"
  shows "\<exists>e. decodeBech32Account s' = Inl e"
proof (rule ccontr)
  assume "\<nexists>e. decodeBech32Account s' = Inl e"
  then obtain bytes' where d': "decodeBech32Account s' = Inr bytes'"
    by (cases "decodeBech32Account s'") auto
  from decode_words [OF assms(1)] decode_words [OF d'] obtain w w' where
    w: "s = ''torium1'' @ letters w" "in_range 5 w" "length w = 38" and
    w': "s' = ''torium1'' @ letters w'" "in_range 5 w'" "length w' = 38" by blast
  let ?d = "map2 (XOR) (words_of w') (words_of w)"
  have wt: "weight ?d = hamming s' s"
    using hamming_letters [of w' w] w w' by simp
  have "0 < hamming s' s" using assms(2,3) hamming_0 by (metis neq0_conv)
  then have "polyW 0 ?d \<noteq> 0"
    using polyW_two_errors [of ?d] map2_xor_fits words_of_fits wt w w' assms(4) by simp
  moreover have "verifyBech32Checksum ''torium'' w" "verifyBech32Checksum ''torium'' w'"
    using assms(1) d' decode_shape w w' by (auto split: if_splits)
  then have "polyW (polyW 1 (words_of (expandBech32Hrp ''torium''))) (words_of w') =
    polyW (polyW 1 (words_of (expandBech32Hrp ''torium''))) (words_of w)"
    unfolding word_uint_eq_iff by (simp add: verifyBech32Checksum_def bech32Polymod_polyW)
  ultimately show False using polyW_differ [of "words_of w'" "words_of w"] w w' by simp
qed


text \<open>The concrete input of the witnesses.\<close>

definition sample_bytes :: "int list" where
  "sample_bytes = [0, 1, 2, 3, 4, 5, 6, 7, 8, 9, 10, 11, 12, 13, 14, 15, 16, 17, 18, 19]"

definition sample_account :: string where
  "sample_account = ''torium1qqqsyqcyq5rqwzqfpg9scrgwpugpzysntzhrht''"

lemma sample_account_decodes: "decodeBech32Account sample_account = Inr sample_bytes"
  by code_simp

lemma sample_bytes_ok: "account_bytes sample_bytes"
  by code_simp

theorem decode_detects_two_substitutions_witness:
  "\<exists>e. decodeBech32Account ''torium1qqqsyqcyq5rqwzqfpg9scrgwpugpzysntzhrth'' = Inl e"
  by (rule decode_detects_two_substitutions [OF sample_account_decodes]) code_simp+

text \<open>
  C28: Every account of 20 bytes has an address of 45 characters, and decoding it gives the bytes back.
\<close>

theorem account_roundtrip:
  assumes "length bytes = 20" "\<forall>b \<in> set bytes. 0 \<le> b \<and> b < 256"
  shows "\<exists>s. encodeBech32Account bytes = Inr s \<and> length s = 45 \<and> decodeBech32Account s = Inr bytes"
proof -
  have b: "account_bytes bytes" using assms by (simp add: account_bytes_def list_all_iff)
  then obtain s where s: "encodeBech32Account bytes = Inr s" using account.enc_total by blast
  with b have d: "decodeBech32Account s = Inr bytes" by (rule account.dec_enc)
  then have "length s = 45" using decode_words [OF d] by (auto simp: letters_def)
  with s d show ?thesis by blast
qed

theorem account_roundtrip_witness:
  "length sample_bytes = 20 \<and> (\<exists>s. encodeBech32Account sample_bytes = Inr s \<and> length s = 45 \<and>
     decodeBech32Account s = Inr sample_bytes)"
proof -
  have "length sample_bytes = 20" "\<forall>b \<in> set sample_bytes. 0 \<le> b \<and> b < 256"
    by (simp_all add: sample_bytes_def)
  with account_roundtrip [of sample_bytes] show ?thesis by simp
qed

text \<open>
  C29: An address is canonical: the decoder accepts a string only if it is the very string that the
  encoder prints for the bytes it stands for, so no two addresses stand for the same account.
\<close>

theorem account_canonical:
  assumes "decodeBech32Account s = Inr bytes"
  shows "encodeBech32Account bytes = Inr s \<and> length bytes = 20 \<and> (\<forall>b \<in> set bytes. 0 \<le> b \<and> b < 256)"
  using account.enc_dec [OF assms] by (auto simp: account_bytes_def list_all_iff)

theorem account_canonical_witness: "encodeBech32Account sample_bytes = Inr sample_account"
  using account_canonical [OF sample_account_decodes] by simp

end
