(* ===== verification/Hex.thy ===== *)
theory Hex
  imports Torium_Prelude
begin

text \<open>
  Hexadecimal text: the value of a string of hexadecimal digits (\<open>BigInt("0x...")\<close> and
  \<open>Number.parseInt(s, 16)\<close>), the spelling of a number and of a list of bytes in lower case, and that
  these are inverse to each other.
\<close>

section \<open>Digits\<close>

definition hex_val :: "char \<Rightarrow> nat" where
  "hex_val c =
     (if is_digit c then code c - 48
      else if is_hex_upper c then code c - 55
      else code c - 87)"

definition hex_char :: "nat \<Rightarrow> char" where
  "hex_char n = (if n < 10 then char_of (48 + n) else char_of (87 + n))"

lemma hex_val_lt: "is_hex c \<Longrightarrow> hex_val c < 16"
  by (auto simp: hex_val_def char_class_defs)

lemma code_hex_char: "n < 16 \<Longrightarrow> code (hex_char n) = (if n < 10 then 48 + n else 87 + n)"
  by (simp add: hex_char_def of_char_of)

lemma hex_char_lower [simp]: "n < 16 \<Longrightarrow> is_hex_lower (hex_char n)"
  by (auto simp: char_class_defs code_hex_char)

lemma hex_val_hex_char [simp]: "n < 16 \<Longrightarrow> hex_val (hex_char n) = n"
  by (auto simp: char_class_defs code_hex_char hex_val_def)

lemma hex_char_hex_val: "is_hex_lower c \<Longrightarrow> hex_char (hex_val c) = c"
  by (auto simp: char_class_defs hex_val_def hex_char_def)

lemma hex_val_lower_char [simp]: "is_hex c \<Longrightarrow> hex_val (lower_char c) = hex_val c"
  by (auto simp: char_class_defs hex_val_def lower_char_def of_char_of)

section \<open>Numbers\<close>

definition read_hex :: "string \<Rightarrow> nat" where
  "read_hex s = foldl (\<lambda>acc c. 16 * acc + hex_val c) 0 s"

lemma read_hex_simps [simp]:
  "read_hex [] = 0" "read_hex (s @ [c]) = 16 * read_hex s + hex_val c"
  by (simp_all add: read_hex_def)

lemma read_hex_append: "read_hex (s @ t) = read_hex s * 16 ^ length t + read_hex t"
proof (induction t rule: rev_induct)
  case (snoc c t)
  have "read_hex (s @ t @ [c]) = 16 * read_hex (s @ t) + hex_val c"
    using read_hex_simps(2) [of "s @ t" c] by simp
  then show ?case using snoc by (simp add: algebra_simps)
qed simp

lemma read_hex_bound: "list_all is_hex s \<Longrightarrow> read_hex s < 16 ^ length s"
proof (induction s rule: rev_induct)
  case (snoc c s)
  then have "read_hex s < 16 ^ length s" "hex_val c < 16" by (simp_all add: hex_val_lt)
  then show ?case by simp
qed simp

lemma read_hex_inject:
  assumes "list_all is_hex_lower s" "list_all is_hex_lower t" "length s = length t" "read_hex s = read_hex t"
  shows "s = t"
  using assms
proof (induction s arbitrary: t rule: rev_induct)
  case (snoc c s)
  then obtain t' d where t: "t = t' @ [d]" by (cases t rule: rev_cases) auto
  have lt: "hex_val c < 16" "hex_val d < 16"
    using snoc.prems t by (auto intro: hex_val_lt is_hex_lower_is_hex)
  have eq: "16 * read_hex s + hex_val c = 16 * read_hex t' + hex_val d"
    using snoc.prems(4) t by simp
  have "hex_val c = (16 * read_hex s + hex_val c) mod 16" using lt(1) by simp
  also have "\<dots> = hex_val d" using lt(2) by (simp only: eq) simp
  finally have v: "hex_val c = hex_val d" .
  with eq have "read_hex s = read_hex t'" by simp
  moreover have "is_hex_lower c" "is_hex_lower d" using snoc.prems t by simp_all
  with v have "c = d" using hex_char_hex_val by metis
  ultimately show ?case using snoc t by simp
qed simp

section \<open>Bytes\<close>

definition hex_of_byte :: "int \<Rightarrow> string" where
  "hex_of_byte b = [hex_char (nat b div 16), hex_char (nat b mod 16)]"

definition hex_of_bytes :: "int list \<Rightarrow> string" where
  "hex_of_bytes bs = concat (map hex_of_byte bs)"

fun bytes_of_hex :: "string \<Rightarrow> int list" where
  "bytes_of_hex (a # b # s) = int (16 * hex_val a + hex_val b) # bytes_of_hex s"
| "bytes_of_hex _ = []"

definition byte_list :: "int list \<Rightarrow> bool" where
  "byte_list bs \<longleftrightarrow> list_all (\<lambda>b. 0 \<le> b \<and> b < 256) bs"

lemma hex_of_bytes_simps [simp]:
  "hex_of_bytes [] = []" "hex_of_bytes (b # bs) = hex_of_byte b @ hex_of_bytes bs"
  by (simp_all add: hex_of_bytes_def)

lemma length_hex_of_bytes [simp]: "length (hex_of_bytes bs) = 2 * length bs"
  by (induction bs) (simp_all add: hex_of_byte_def)

lemma bytes_of_hex_of_bytes [simp]: "byte_list bs \<Longrightarrow> bytes_of_hex (hex_of_bytes bs) = bs"
proof (induction bs)
  case (Cons b bs)
  then have b: "0 \<le> b" "b < 256" by (simp_all add: byte_list_def)
  then have "nat b div 16 < 16" by auto
  with b have "hex_val (hex_char (nat b div 16)) = nat b div 16" by simp
  with b Cons show ?case
    by (simp add: hex_of_byte_def byte_list_def)
qed simp

lemma hex_of_bytes_lower: "byte_list bs \<Longrightarrow> list_all is_hex_lower (hex_of_bytes bs)"
proof (induction bs)
  case (Cons b bs)
  then have "nat b div 16 < 16" by (auto simp: byte_list_def)
  then show ?case using Cons by (simp add: byte_list_def hex_of_byte_def)
qed simp

lemma bytes_of_hex_range: "list_all is_hex s \<Longrightarrow> byte_list (bytes_of_hex s)"
proof (induction s rule: bytes_of_hex.induct)
  case (1 a b s)
  then have "hex_val a < 16" "hex_val b < 16" by (simp_all add: hex_val_lt)
  then show ?case using 1 by (simp add: byte_list_def)
qed (simp_all add: byte_list_def)

lemma length_bytes_of_hex [simp]: "length (bytes_of_hex s) = length s div 2"
  by (induction s rule: bytes_of_hex.induct) simp_all

lemma bytes_of_hex_lower [simp]: "list_all is_hex s \<Longrightarrow> bytes_of_hex (toLowerCase s) = bytes_of_hex s"
  by (induction s rule: bytes_of_hex.induct) simp_all

lemma hex_of_bytes_of_hex:
  "list_all is_hex s \<Longrightarrow> even (length s) \<Longrightarrow> hex_of_bytes (bytes_of_hex s) = toLowerCase s"
proof (induction s rule: bytes_of_hex.induct)
  case (1 a b s)
  have c: "is_hex a" "is_hex b" using 1 by simp_all
  have "hex_char (hex_val c) = lower_char c" if "is_hex c" for c
    using that hex_char_hex_val [of "lower_char c"] by simp
  with c have "hex_of_byte (int (16 * hex_val a + hex_val b)) = [lower_char a, lower_char b]"
    unfolding hex_of_byte_def nat_int using hex_val_lt [OF c(2)] by simp
  then show ?case using 1 by simp
qed simp_all

end
