(* ===== verification/Chain_Defs.thy ===== *)
theory Chain_Defs
  imports Js_Values Hex
begin

text \<open>
  The chain definitions of \<^verbatim>\<open>packages/torium-sdk/src/chains.ts\<close>: the four environments with their replay
  domains, and the lookup by environment name and by EIP-155 id
  (\<^verbatim>\<open>utils.ts\<close>).  An environment is the string that the sources use as a key; \<open>defineChain\<close> of the
  viem package adds nothing to the fields modelled here.
\<close>

section \<open>Metadata\<close>

record rpc_profile =
  profileVersion :: string
  maxBatchRequests :: int
  subscriptions :: "string list"
  serverReplaysMissedMessages :: bool
  clientReconnectRequired :: bool
  httpBackfillRequired :: bool

record chain_metadata =
  manifestVersion :: string
  environment :: string
  public_network :: bool
  cosmosChainId :: string
  chainIdHex :: string
  networkId :: int
  caip2 :: string
  baseDenom :: string
  endpointStatus :: string
  blockExplorerStatus :: string
  contractRegistryStatus :: string
  rpcProfile :: "rpc_profile option"

record native_currency =
  nc_decimals :: int
  nc_name :: string
  nc_symbol :: string

record torium_chain =
  chain_id :: int
  chain_name :: string
  supportsTransactionReplacementDetection :: bool
  nativeCurrency :: native_currency
  rpcHttp :: "string list"
  rpcWebSocket :: "string list option"
  chain_testnet :: bool
  torium :: chain_metadata

definition localnetMetadata :: chain_metadata where
  "localnetMetadata =
     \<lparr>manifestVersion = ''0.2.0'', environment = ''localnet'', public_network = False,
      cosmosChainId = ''torium-localnet-1'', chainIdHex = ''0x544f524c'', networkId = 1414484556,
      caip2 = ''eip155:1414484556'', baseDenom = ''atorium'', endpointStatus = ''local-loopback'',
      blockExplorerStatus = ''deferred'', contractRegistryStatus = ''deferred'',
      rpcProfile = Some
        \<lparr>profileVersion = ''1.0.1'', maxBatchRequests = 100,
         subscriptions = [''newHeads'', ''logs'', ''newPendingTransactions''],
         serverReplaysMissedMessages = False, clientReconnectRequired = True,
         httpBackfillRequired = True\<rparr>\<rparr>"

definition devnetMetadata :: chain_metadata where
  "devnetMetadata =
     \<lparr>manifestVersion = ''0.2.0'', environment = ''devnet'', public_network = False,
      cosmosChainId = ''torium-devnet-1'', chainIdHex = ''0x544f5244'', networkId = 1414484548,
      caip2 = ''eip155:1414484548'', baseDenom = ''atorium'', endpointStatus = ''deferred-unpublished'',
      blockExplorerStatus = ''deferred'', contractRegistryStatus = ''deferred'', rpcProfile = None\<rparr>"

definition testnetMetadata :: chain_metadata where
  "testnetMetadata =
     \<lparr>manifestVersion = ''0.2.0'', environment = ''testnet'', public_network = True,
      cosmosChainId = ''torium-testnet-1'', chainIdHex = ''0x544f5254'', networkId = 1414484564,
      caip2 = ''eip155:1414484564'', baseDenom = ''atorium'', endpointStatus = ''deferred-unpublished'',
      blockExplorerStatus = ''deferred'', contractRegistryStatus = ''deferred'', rpcProfile = None\<rparr>"

definition mainnetMetadata :: chain_metadata where
  "mainnetMetadata =
     \<lparr>manifestVersion = ''0.2.0'', environment = ''mainnet'', public_network = True,
      cosmosChainId = ''torium-1'', chainIdHex = ''0x544f52'', networkId = 5525330,
      caip2 = ''eip155:5525330'', baseDenom = ''atorium'', endpointStatus = ''deferred-unpublished'',
      blockExplorerStatus = ''deferred'', contractRegistryStatus = ''deferred'', rpcProfile = None\<rparr>"

definition testToken :: native_currency where
  "testToken = \<lparr>nc_decimals = 18, nc_name = ''Torium Test Token'', nc_symbol = ''tTOR''\<rparr>"

definition toriumLocalnet :: torium_chain where
  "toriumLocalnet =
     \<lparr>chain_id = 1414484556, chain_name = ''Torium Localnet'',
      supportsTransactionReplacementDetection = False, nativeCurrency = testToken,
      rpcHttp = [''http://127.0.0.1:8545''], rpcWebSocket = Some [''ws://127.0.0.1:8546''],
      chain_testnet = True, torium = localnetMetadata\<rparr>"

definition toriumDevnet :: torium_chain where
  "toriumDevnet =
     \<lparr>chain_id = 1414484548, chain_name = ''Torium Devnet'',
      supportsTransactionReplacementDetection = False, nativeCurrency = testToken,
      rpcHttp = [], rpcWebSocket = None, chain_testnet = True, torium = devnetMetadata\<rparr>"

definition toriumTestnet :: torium_chain where
  "toriumTestnet =
     \<lparr>chain_id = 1414484564, chain_name = ''Torium Testnet'',
      supportsTransactionReplacementDetection = False, nativeCurrency = testToken,
      rpcHttp = [], rpcWebSocket = None, chain_testnet = True, torium = testnetMetadata\<rparr>"

definition toriumMainnet :: torium_chain where
  "toriumMainnet =
     \<lparr>chain_id = 5525330, chain_name = ''Torium'',
      supportsTransactionReplacementDetection = False,
      nativeCurrency = \<lparr>nc_decimals = 18, nc_name = ''Torium'', nc_symbol = ''TOR''\<rparr>,
      rpcHttp = [], rpcWebSocket = None, chain_testnet = False, torium = mainnetMetadata\<rparr>"

definition toriumChains :: "(string \<times> torium_chain) list" where
  "toriumChains =
     [(''localnet'', toriumLocalnet), (''devnet'', toriumDevnet),
      (''testnet'', toriumTestnet), (''mainnet'', toriumMainnet)]"

lemmas chain_defs =
  toriumChains_def toriumLocalnet_def toriumDevnet_def toriumTestnet_def toriumMainnet_def
  localnetMetadata_def devnetMetadata_def testnetMetadata_def mainnetMetadata_def testToken_def

text \<open>\<open>undefined\<close> for a key that is not an environment.\<close>

definition getToriumChain :: "string \<Rightarrow> torium_chain option" where
  "getToriumChain env = map_of toriumChains env"

section \<open>Lookup by EIP-155 id\<close>

definition isToriumChainId :: "jsval \<Rightarrow> bool" where
  "isToriumChainId value \<longleftrightarrow>
     isSafeInteger value \<and> list_ex (\<lambda>(k, c). value = JInt (chain_id c)) toriumChains"

definition assertToriumChainId :: "jsval \<Rightarrow> js_exn + jsval" where
  "assertToriumChainId value =
     (if \<not> isToriumChainId value
      then Inl (RangeError ''Torium chain ID must match a canonical versioned replay domain.'')
      else Inr value)"

definition getToriumChainById :: "jsval \<Rightarrow> js_exn + torium_chain" where
  "getToriumChainById value =
     bindR (assertToriumChainId value) (\<lambda>chainId.
       case find (\<lambda>c. chainId = JInt (chain_id c)) (map snd toriumChains) of
         None \<Rightarrow> Inl (RangeError ''Torium chain ID is not available in this manifest.'')
       | Some chain \<Rightarrow> Inr chain)"

section \<open>The replay domains are consistent\<close>

lemma toriumChains_ids:
  "map (chain_id \<circ> snd) toriumChains = [1414484556, 1414484548, 1414484564, 5525330]"
  by (simp add: chain_defs)

lemma isToriumChainId_iff:
  "isToriumChainId value \<longleftrightarrow> (\<exists>c \<in> set (map snd toriumChains). value = JInt (chain_id c))"
  by (auto simp: isToriumChainId_def chain_defs max_safe_integer_def)

lemma find_distinct: "distinct (map f xs) \<Longrightarrow> c \<in> set xs \<Longrightarrow> find (\<lambda>c'. f c = f c') xs = Some c"
  by (induction xs) (auto, metis imageI)

lemma find_chain_id:
  assumes "c \<in> set (map snd toriumChains)"
  shows "find (\<lambda>c'. JInt (chain_id c) = JInt (chain_id c')) (map snd toriumChains) = Some c"
proof -
  have "distinct (map chain_id (map snd toriumChains))" using toriumChains_ids by simp
  from find_distinct [OF this assms] show ?thesis by simp
qed

lemma getToriumChainById_Inr:
  "getToriumChainById value = Inr c \<longleftrightarrow>
     c \<in> set (map snd toriumChains) \<and> value = JInt (chain_id c)"
proof (cases "isToriumChainId value")
  case True
  then obtain d where d: "d \<in> set (map snd toriumChains)" "value = JInt (chain_id d)"
    by (auto simp: isToriumChainId_iff)
  then have "getToriumChainById value = Inr d"
    using True find_chain_id [OF d(1)] by (simp add: getToriumChainById_def assertToriumChainId_def)
  moreover have "c = d" if "c \<in> set (map snd toriumChains)" "value = JInt (chain_id c)"
  proof -
    from that(2) d(2) have "JInt (chain_id c) = JInt (chain_id d)" by metis
    then have "Some c = Some d"
      using find_chain_id [OF that(1)] find_chain_id [OF d(1)] by (simp only:)
    then show ?thesis by simp
  qed
  ultimately show ?thesis using d by (metis sum.inject(2))
next
  case False
  then show ?thesis
    by (auto simp: getToriumChainById_def assertToriumChainId_def isToriumChainId_iff)
qed

text \<open>
  The lookup by id answers with a chain exactly for the ids of the four chains, and then with the
  one chain that has the id.
\<close>

theorem getToriumChainById_iff:
  "getToriumChainById value = Inr c \<longleftrightarrow>
     c \<in> set (map snd toriumChains) \<and> value = JInt (chain_id c)"
  by (rule getToriumChainById_Inr)

text \<open>The three spellings of an id agree with it, and the ids differ from each other.\<close>

definition chain_consistent :: "string \<times> torium_chain \<Rightarrow> bool" where
  "chain_consistent kc = (case kc of (k, c) \<Rightarrow>
     environment (torium c) = k \<and> networkId (torium c) = chain_id c \<and>
     caip2 (torium c) = ''eip155:'' @ show_int (chain_id c) \<and>
     int (read_hex (drop 2 (chainIdHex (torium c)))) = chain_id c)"


end
