(* ===== verification/Utils.thy ===== *)
theory Utils
  imports Bech32_Checksum Chain_Defs
begin

text \<open>
  The pure helpers of \<^verbatim>\<open>packages/torium-sdk/src/utils.ts\<close>: amounts, addresses, hashes, block references
  and the JSON envelope for big integers.  The functions of the viem package that the helpers call are
  fields of a \<open>viem\<close> record, an argument of the definitions that use them; what is relied on
  is stated as the predicates \<open>viem_units\<close> and \<open>viem_addresses\<close>, the documented behaviour of these functions.
\<close>

section \<open>Functions of viem\<close>

record viem =
  parseUnits :: "string \<Rightarrow> nat \<Rightarrow> int"
  formatUnits :: "int \<Rightarrow> nat \<Rightarrow> string"
  isAddress :: "string \<Rightarrow> bool"
  getAddress :: "string \<Rightarrow> js_exn + string"
  hexToBytes :: "string \<Rightarrow> int list"
  bytesToHex :: "int list \<Rightarrow> string"

section \<open>Currencies\<close>

definition toriumNativeDecimals :: nat where
  "toriumNativeDecimals = 18"

definition toriumBaseDenom :: string where
  "toriumBaseDenom = ''atorium''"

definition atoriumPerDisplayUnit :: int where
  "atoriumPerDisplayUnit = 1000000000000000000"

definition toriumMaxUint256 :: int where
  "toriumMaxUint256 = push_bit 256 1 - 1"

record torium_currency =
  tc_environment :: string
  tc_name :: string
  tc_symbol :: string
  tc_decimals :: nat
  tc_baseDenom :: string
  tc_valueStatus :: string

definition createNativeCurrency :: "string \<Rightarrow> string \<Rightarrow> string \<Rightarrow> string \<Rightarrow> torium_currency" where
  "createNativeCurrency env name symbol valueStatus =
     \<lparr>tc_environment = env, tc_name = name, tc_symbol = symbol, tc_decimals = toriumNativeDecimals,
      tc_baseDenom = toriumBaseDenom, tc_valueStatus = valueStatus\<rparr>"

definition toriumNativeCurrencies :: "(string \<times> torium_currency) list" where
  "toriumNativeCurrencies =
     (let cur = \<lambda>env chain status.
            (env, createNativeCurrency env (nc_name (nativeCurrency chain)) (nc_symbol (nativeCurrency chain)) status)
      in [cur ''localnet'' toriumLocalnet ''valueless-test-token'',
          cur ''devnet'' toriumDevnet ''valueless-test-token'',
          cur ''testnet'' toriumTestnet ''valueless-test-token'',
          cur ''mainnet'' toriumMainnet ''inactive-prelaunch-no-value-claim''])"

definition getToriumNativeCurrency :: "string \<Rightarrow> js_exn + torium_currency" where
  "getToriumNativeCurrency env =
     (case map_of toriumNativeCurrencies env of
        None \<Rightarrow> Inl (RangeError ''Torium environment must match a canonical network definition.'')
      | Some c \<Rightarrow> Inr c)"

section \<open>Amounts\<close>

definition assertToriumUint256 :: "jsval \<Rightarrow> js_exn + int" where
  "assertToriumUint256 value =
     (case value of
        JBigInt v \<Rightarrow>
          if v < 0 \<or> v > toriumMaxUint256
          then Inl (RangeError ''Torium integer must fit the unsigned EVM uint256 range.'')
          else Inr v
      | _ \<Rightarrow> Inl (TypeError ''Torium integer must be represented as bigint.''))"

text \<open>\<open>/^(?:0|[1-9][0-9]*)(?:\.[0-9]{1,18})?$/u\<close>\<close>

definition amount_rx :: rx where
  "amount_rx =
     anchored (Sq (Alt (lit ''0'') (Sq (Cls (\<lambda>c. is_digit c \<and> c \<noteq> CHR ''0'')) (Star (Cls is_digit))))
                  (ropt (Sq (chr CHR ''.'') (Sq (Cls is_digit) (rupto 17 (Cls is_digit))))))"

definition parseToriumAmount :: "viem \<Rightarrow> jsval \<Rightarrow> js_exn + int" where
  "parseToriumAmount V value =
     (case value of
        JStr s \<Rightarrow>
          if length s > 97 \<or> \<not> rx_test amount_rx s
          then Inl (TypeError ''Torium amount must be an unsigned locale-neutral decimal with at most 18 fractional digits.'')
          else assertToriumUint256 (JBigInt (parseUnits V s toriumNativeDecimals))
      | _ \<Rightarrow> Inl (TypeError ''Torium amount must be an unsigned locale-neutral decimal with at most 18 fractional digits.''))"

definition formatToriumAmount :: "viem \<Rightarrow> jsval \<Rightarrow> js_exn + string" where
  "formatToriumAmount V value =
     bindR (assertToriumUint256 value) (\<lambda>v. Inr (formatUnits V v toriumNativeDecimals))"

definition parseToriumBaseUnits :: "jsval \<Rightarrow> js_exn + int" where
  "parseToriumBaseUnits value =
     (case value of
        JStr s \<Rightarrow>
          if length s > 78 \<or> \<not> rx_test canonical_decimal_rx s
          then Inl (TypeError ''Torium base units must be an unsigned canonical base-10 integer.'')
          else assertToriumUint256 (JBigInt (int (read_nat s)))
      | _ \<Rightarrow> Inl (TypeError ''Torium base units must be an unsigned canonical base-10 integer.''))"

definition formatToriumBaseUnits :: "jsval \<Rightarrow> js_exn + string" where
  "formatToriumBaseUnits value = bindR (assertToriumUint256 value) (\<lambda>v. Inr (show_int v))"

section \<open>Addresses\<close>

definition normalizeToriumEvmAddress :: "viem \<Rightarrow> jsval \<Rightarrow> js_exn + string" where
  "normalizeToriumEvmAddress V value =
     (case value of
        JStr s \<Rightarrow>
          if \<not> isAddress V s
          then Inl (TypeError ''Torium EVM address must be a valid 20-byte EIP-55 or uniform-case value.'')
          else getAddress V s
      | _ \<Rightarrow> Inl (TypeError ''Torium EVM address must be a valid 20-byte EIP-55 or uniform-case value.''))"

definition isToriumEvmAddress :: "viem \<Rightarrow> jsval \<Rightarrow> bool" where
  "isToriumEvmAddress V value = (case value of JStr s \<Rightarrow> isAddress V s | _ \<Rightarrow> False)"

definition toriumEvmAddressToBech32 :: "viem \<Rightarrow> jsval \<Rightarrow> js_exn + string" where
  "toriumEvmAddressToBech32 V value =
     bindR (normalizeToriumEvmAddress V value) (\<lambda>address. encodeBech32Account (hexToBytes V address))"

definition toriumBech32AddressToEvm :: "viem \<Rightarrow> string \<Rightarrow> js_exn + string" where
  "toriumBech32AddressToEvm V value =
     bindR (decodeBech32Account value) (\<lambda>bytes. getAddress V (bytesToHex V bytes))"

definition isToriumAccountAddress :: "jsval \<Rightarrow> bool" where
  "isToriumAccountAddress value =
     (case value of
        JStr s \<Rightarrow> (case decodeBech32Account s of Inr _ \<Rightarrow> True | Inl _ \<Rightarrow> False)
      | _ \<Rightarrow> False)"

section \<open>Hashes, data and block references\<close>

definition normalizeToriumHash :: "jsval \<Rightarrow> js_exn + string" where
  "normalizeToriumHash value =
     (case value of
        JStr s \<Rightarrow>
          if \<not> rx_test hash_rx s
          then Inl (TypeError ''Torium hash must be an exact 32-byte 0x-prefixed hexadecimal value.'')
          else Inr (toLowerCase s)
      | _ \<Rightarrow> Inl (TypeError ''Torium hash must be an exact 32-byte 0x-prefixed hexadecimal value.''))"

definition isToriumHash :: "jsval \<Rightarrow> bool" where
  "isToriumHash value = (case value of JStr s \<Rightarrow> rx_test hash_rx s | _ \<Rightarrow> False)"

text \<open>\<open>/^0x(?:[0-9a-fA-F]{2})*$/u\<close>\<close>

definition hex_data_rx :: rx where
  "hex_data_rx = anchored (Sq (lit ''0x'') (Star (rtimes 2 (Cls is_hex))))"

definition normalizeToriumHexData :: "jsval \<Rightarrow> js_exn + string" where
  "normalizeToriumHexData value =
     (case value of
        JStr s \<Rightarrow>
          if \<not> rx_test hex_data_rx s
          then Inl (TypeError ''Torium hex data must be 0x-prefixed and contain complete bytes.'')
          else Inr (toLowerCase s)
      | _ \<Rightarrow> Inl (TypeError ''Torium hex data must be 0x-prefixed and contain complete bytes.''))"

definition isToriumHexData :: "jsval \<Rightarrow> bool" where
  "isToriumHexData value = (case value of JStr s \<Rightarrow> rx_test hex_data_rx s | _ \<Rightarrow> False)"

definition toriumBlockTags :: "string list" where
  "toriumBlockTags = [''earliest'', ''latest'', ''pending'', ''safe'', ''finalized'']"

definition normalizeToriumBlockReference :: "jsval \<Rightarrow> js_exn + jsval" where
  "normalizeToriumBlockReference value =
     (case value of
        JBigInt v \<Rightarrow> bindR (assertToriumUint256 value) (\<lambda>v. Inr (JBigInt v))
      | JStr s \<Rightarrow>
          if s \<in> set toriumBlockTags then Inr value
          else bindR (normalizeToriumHash value) (\<lambda>h. Inr (JStr h))
      | _ \<Rightarrow> Inl (TypeError ''Torium block reference must be a bigint, hash or standard tag.''))"


section \<open>Base units\<close>

lemma toriumMaxUint256_eq: "toriumMaxUint256 = max_uint256"
  by (simp add: toriumMaxUint256_def push_bit_eq_mult)

definition uint256 :: "int \<Rightarrow> bool" where
  "uint256 v \<longleftrightarrow> 0 \<le> v \<and> v \<le> toriumMaxUint256"

lemma assertToriumUint256_BigInt [simp]:
  "assertToriumUint256 (JBigInt v) =
     (if uint256 v then Inr v
      else Inl (RangeError ''Torium integer must fit the unsigned EVM uint256 range.''))"
  by (auto simp: assertToriumUint256_def uint256_def)

lemma assertToriumUint256_Inr_iff: "assertToriumUint256 value = Inr v \<longleftrightarrow> value = JBigInt v \<and> uint256 v"
  by (cases "value") (auto simp: assertToriumUint256_def uint256_def)

lemma uint256_digits: "uint256 v \<Longrightarrow> length (show_nat (nat v)) \<le> 78"
  using max_uint256_lt by (intro show_nat_length_le) (auto simp: uint256_def toriumMaxUint256_eq)

lemma canonical_digits_length: "canonical_decimal s \<Longrightarrow> uint256 (int (read_nat s)) \<Longrightarrow> length s \<le> 78"
  using uint256_digits [of "int (read_nat s)"] show_read_nat [of s] by simp

interpretation base_units: exact_codec
  "\<lambda>v. formatToriumBaseUnits (JBigInt v)" "\<lambda>s. parseToriumBaseUnits (JStr s)" uint256
proof
  show "\<exists>s. formatToriumBaseUnits (JBigInt v) = Inr s" if "uint256 v" for v
    using that by (simp add: formatToriumBaseUnits_def)
next
  show "parseToriumBaseUnits (JStr s) = Inr v"
    if "uint256 v" "formatToriumBaseUnits (JBigInt v) = Inr s" for v s
    using that uint256_digits [of v] show_nat_canonical [of "nat v"]
    by (auto simp: formatToriumBaseUnits_def parseToriumBaseUnits_def show_int_def uint256_def)
next
  show "uint256 v \<and> formatToriumBaseUnits (JBigInt v) = Inr s"
    if "parseToriumBaseUnits (JStr s) = Inr v" for v s
    using that
    by (auto simp: formatToriumBaseUnits_def parseToriumBaseUnits_def show_int_def show_read_nat
        split: if_splits)
qed

text \<open>
  Parsing base units accepts exactly the canonical decimal spelling of the unsigned 256-bit
  integers, and formatting is its inverse: the length limit of 78 characters rejects no valid amount.
\<close>

theorem base_units_exact:
  "parseToriumBaseUnits value = Inr v \<longleftrightarrow>
     (0 \<le> v \<and> v \<le> 2 ^ 256 - 1 \<and> formatToriumBaseUnits (JBigInt v) = Inr (show_int v) \<and>
      value = JStr (show_int v))"
proof (cases "value")
  case (JStr s)
  have "formatToriumBaseUnits (JBigInt v) = Inr s \<longleftrightarrow> uint256 v \<and> s = show_int v"
    by (auto simp: formatToriumBaseUnits_def)
  then show ?thesis
    using JStr base_units.dec_iff [of s v]
    by (auto simp: uint256_def toriumMaxUint256_eq formatToriumBaseUnits_def)
qed (simp_all add: parseToriumBaseUnits_def)


section \<open>Display amounts\<close>

text \<open>The documented result of \<open>formatUnits\<close> and \<open>parseUnits\<close> with 18 decimals on unsigned amounts.\<close>

definition padStart :: "nat \<Rightarrow> string \<Rightarrow> string" where
  "padStart n s = replicate (n - length s) CHR ''0'' @ s"

definition strip_zeros :: "string \<Rightarrow> string" where
  "strip_zeros s = rev (dropWhile (\<lambda>c. c = CHR ''0'') (rev s))"

definition with_fraction :: "string \<Rightarrow> string \<Rightarrow> string" where
  "with_fraction i f = i @ (if f = [] then [] else CHR ''.'' # f)"

definition units_text :: "int \<Rightarrow> string" where
  "units_text v =
     with_fraction (show_nat (nat v div 10 ^ 18)) (strip_zeros (padStart 18 (show_nat (nat v mod 10 ^ 18))))"

definition units_value :: "string \<Rightarrow> string \<Rightarrow> int" where
  "units_value i f = int (read_nat i * 10 ^ 18 + read_nat f * 10 ^ (18 - length f))"

definition viem_units :: "viem \<Rightarrow> bool" where
  "viem_units V \<longleftrightarrow>
     (\<forall>v \<ge> 0. formatUnits V v 18 = units_text v) \<and>
     (\<forall>i f. canonical_decimal i \<longrightarrow> list_all is_digit f \<longrightarrow> length f \<le> 18 \<longrightarrow>
        parseUnits V (with_fraction i f) 18 = units_value i f)"

lemma amount_rx_iff:
  "rx_test amount_rx s \<longleftrightarrow>
     (\<exists>i f. s = with_fraction i f \<and> canonical_decimal i \<and> list_all is_digit f \<and> length f \<le> 18)"
proof -
  have c: "canonical_decimal i \<longleftrightarrow>
      i = ''0'' \<or> (\<exists>c w. i = c # w \<and> is_digit c \<and> c \<noteq> CHR ''0'' \<and> list_all is_digit w)" for i
    unfolding canonical_decimal_def by (cases i) auto
  let ?A = "Alt (lit ''0'') (Sq (Cls (\<lambda>c. is_digit c \<and> c \<noteq> CHR ''0'')) (Star (Cls is_digit)))"
  let ?B = "ropt (Sq (chr CHR ''.'') (Sq (Cls is_digit) (rupto 17 (Cls is_digit))))"
  have A: "i \<in> lang ?A \<longleftrightarrow> canonical_decimal i" for i
    unfolding c by (simp only: lang.simps(4) lang_lit lang_Sq_Cls lang_Star_Cls) blast
  have B: "f \<in> lang ?B \<longleftrightarrow>
      f = [] \<or> (\<exists>d w. f = CHR ''.'' # d # w \<and> is_digit d \<and> length w \<le> 17 \<and> list_all is_digit w)" for f
    unfolding chr_def by (simp only: lang_opt lang_Sq_Cls lang_rupto_Cls) blast
  have "rx_test amount_rx s \<longleftrightarrow> s \<in> lang (Sq ?A ?B)"
    unfolding amount_rx_def by (rule rx_test_anchored) simp
  also have "\<dots> \<longleftrightarrow> (\<exists>i f. s = i @ f \<and> i \<in> lang ?A \<and> f \<in> lang ?B)"
    by (simp only: lang.simps(3)) blast
  also have "\<dots> \<longleftrightarrow>
     (\<exists>i f. s = i @ f \<and> canonical_decimal i \<and>
        (f = [] \<or> (\<exists>d w. f = CHR ''.'' # d # w \<and> is_digit d \<and> length w \<le> 17 \<and> list_all is_digit w)))"
    unfolding A B ..
  also have "\<dots> \<longleftrightarrow> (\<exists>i f. s = with_fraction i f \<and> canonical_decimal i \<and> list_all is_digit f \<and> length f \<le> 18)"
  proof
    assume "\<exists>i f. s = i @ f \<and> canonical_decimal i \<and>
      (f = [] \<or> (\<exists>d w. f = CHR ''.'' # d # w \<and> is_digit d \<and> length w \<le> 17 \<and> list_all is_digit w))"
    then obtain i f where i: "s = i @ f" "canonical_decimal i" and
      f: "f = [] \<or> (\<exists>d w. f = CHR ''.'' # d # w \<and> is_digit d \<and> length w \<le> 17 \<and> list_all is_digit w)"
      by blast
    have "s = with_fraction i (tl f) \<and> list_all is_digit (tl f) \<and> length (tl f) \<le> 18"
      using i f by (auto simp: with_fraction_def)
    with i show "\<exists>i f. s = with_fraction i f \<and> canonical_decimal i \<and> list_all is_digit f \<and> length f \<le> 18"
      by blast
  next
    assume "\<exists>i f. s = with_fraction i f \<and> canonical_decimal i \<and> list_all is_digit f \<and> length f \<le> 18"
    then obtain i f where if1: "s = with_fraction i f" "canonical_decimal i" "list_all is_digit f" "length f \<le> 18"
      by blast
    then show "\<exists>i f. s = i @ f \<and> canonical_decimal i \<and>
      (f = [] \<or> (\<exists>d w. f = CHR ''.'' # d # w \<and> is_digit d \<and> length w \<le> 17 \<and> list_all is_digit w))"
      by (cases f) (auto simp: with_fraction_def)
  qed
  finally show ?thesis .
qed

lemma strip_zeros_snoc: "strip_zeros (s @ [c]) = (if c = CHR ''0'' then strip_zeros s else s @ [c])"
  by (simp add: strip_zeros_def)

lemma strip_zeros_value:
  "length (strip_zeros s) \<le> length s \<and>
   read_nat (strip_zeros s) * 10 ^ (length s - length (strip_zeros s)) = read_nat s"
proof (induction s rule: rev_induct)
  case (snoc c s)
  show ?case
  proof (cases "c = CHR ''0''")
    case True
    have "digit_val CHR ''0'' = 0" by (simp add: digit_val_def)
    with True snoc show ?thesis by (simp add: strip_zeros_snoc Suc_diff_le algebra_simps)
  qed (simp add: strip_zeros_snoc)
qed (simp add: strip_zeros_def)

lemma strip_zeros_digits: "list_all is_digit s \<Longrightarrow> list_all is_digit (strip_zeros s)"
  by (induction s rule: rev_induct) (auto simp: strip_zeros_snoc strip_zeros_def)

lemma read_nat_zeros: "read_nat (replicate k CHR ''0'') = 0"
proof (induction k)
  case (Suc k)
  have "replicate (Suc k) CHR ''0'' = replicate k CHR ''0'' @ ''0''"
    by (simp add: replicate_append_same)
  then show ?case using Suc by (simp only: read_nat_snoc) (simp add: digit_val_def)
qed simp

lemma padStart_props:
  assumes "n < 10 ^ k" "0 < k"
  shows "read_nat (padStart k (show_nat n)) = n" "length (padStart k (show_nat n)) = k"
    "list_all is_digit (padStart k (show_nat n))"
proof -
  have "is_digit CHR ''0''" by (simp add: is_digit_def)
  then show "read_nat (padStart k (show_nat n)) = n" "length (padStart k (show_nat n)) = k"
    "list_all is_digit (padStart k (show_nat n))"
    using show_nat_length_le [OF assms] show_nat_digits
    by (auto simp: padStart_def read_nat_append read_nat_zeros list_all_iff)
qed

lemma units_text_shape:
  assumes "0 \<le> v"
  shows "\<exists>i f. units_text v = with_fraction i f \<and> canonical_decimal i \<and> list_all is_digit f \<and> length f \<le> 18
    \<and> units_value i f = v \<and> i = show_nat (nat v div 10 ^ 18)"
proof -
  let ?n = "nat v mod 10 ^ 18"
  let ?p = "padStart 18 (show_nat ?n)"
  have n: "?n < 10 ^ 18" by simp
  note p = padStart_props [OF n zero_less_numeral]
  have f: "list_all is_digit (strip_zeros ?p)" "length (strip_zeros ?p) \<le> 18"
    using strip_zeros_value [of ?p] strip_zeros_digits p by simp_all
  have "read_nat (strip_zeros ?p) * 10 ^ (18 - length (strip_zeros ?p)) = ?n"
    using strip_zeros_value [of ?p] p by simp
  then have "units_value (show_nat (nat v div 10 ^ 18)) (strip_zeros ?p) = int (nat v div 10 ^ 18 * 10 ^ 18 + ?n)"
    unfolding units_value_def read_show_nat by simp
  also have "\<dots> = v" using assms div_mult_mod_eq [of "nat v" "10 ^ 18"] by (simp only:)
  finally show ?thesis
    using f show_nat_canonical unfolding units_text_def by blast
qed


lemma canonical_length_bound:
  assumes "canonical_decimal i" "read_nat i < 10 ^ k" "0 < k"
  shows "length i \<le> k"
  using show_nat_length_le [OF assms(2,3)] show_read_nat [OF assms(1)] by simp

text \<open>
  C34: Formatting an amount and parsing the text gives the amount back, for every unsigned 256-bit
  amount: the syntax check and the limit of 97 characters accept everything that is formatted.
\<close>

theorem amount_roundtrip:
  assumes "viem_units V" "0 \<le> v" "v \<le> 2 ^ 256 - 1"
  shows "\<exists>s. formatToriumAmount V (JBigInt v) = Inr s \<and> parseToriumAmount V (JStr s) = Inr v"
proof -
  have u: "uint256 v" using assms(2,3) by (simp add: uint256_def toriumMaxUint256_eq)
  have fmt: "formatToriumAmount V (JBigInt v) = Inr (units_text v)"
    using assms(1,2) u by (simp add: formatToriumAmount_def toriumNativeDecimals_def viem_units_def)
  obtain i f where if1: "units_text v = with_fraction i f" "canonical_decimal i" "list_all is_digit f"
      "length f \<le> 18" "units_value i f = v" "i = show_nat (nat v div 10 ^ 18)"
    using units_text_shape [OF assms(2)] by blast
  have "nat v < 10 ^ 78"
    using u by (simp add: uint256_def toriumMaxUint256_eq nat_less_iff)
  then have "nat v div 10 ^ 18 < 10 ^ 60" by (simp add: div_less_iff_less_mult)
  then have "length i \<le> 60" unfolding if1(6) by (rule show_nat_length_le) simp
  with if1(4) have "length (units_text v) \<le> 97" by (simp add: if1(1) with_fraction_def)
  moreover have "rx_test amount_rx (units_text v)" using if1 by (auto simp: amount_rx_iff)
  moreover have "parseUnits V (units_text v) 18 = v"
    using assms(1) if1 by (simp add: viem_units_def)
  ultimately have "parseToriumAmount V (JStr (units_text v)) = Inr v"
    using u by (simp add: parseToriumAmount_def toriumNativeDecimals_def)
  with fmt show ?thesis by blast
qed


section \<open>Addresses\<close>

definition address_shape :: "string \<Rightarrow> bool" where
  "address_shape s \<longleftrightarrow> length s = 42 \<and> take 2 s = ''0x'' \<and> list_all is_hex (drop 2 s)"

text \<open>
  What the conversions rely on: an address is 20 bytes of prefixed hexadecimal text, the checksummed
  spelling differs in case only and does not depend on the case of its input, text in lower case is
  accepted, and the byte conversions are the usual ones.
\<close>

definition viem_addresses :: "viem \<Rightarrow> bool" where
  "viem_addresses V \<longleftrightarrow>
     (\<forall>s. isAddress V s \<longrightarrow> address_shape s) \<and>
     (\<forall>s. address_shape s \<longrightarrow> toLowerCase s = s \<longrightarrow> isAddress V s) \<and>
     (\<forall>s. isAddress V s \<longrightarrow>
        (\<exists>a. getAddress V s = Inr a \<and> isAddress V a \<and> toLowerCase a = toLowerCase s)) \<and>
     (\<forall>s t. isAddress V s \<longrightarrow> isAddress V t \<longrightarrow> toLowerCase s = toLowerCase t \<longrightarrow>
        getAddress V s = getAddress V t) \<and>
     (\<forall>s. address_shape s \<longrightarrow> hexToBytes V s = bytes_of_hex (drop 2 s)) \<and>
     (\<forall>bs. byte_list bs \<longrightarrow> bytesToHex V bs = ''0x'' @ hex_of_bytes bs)"

text \<open>An instance of the functions of viem with these properties, for the witnesses.\<close>

definition sample_viem :: viem where
  "sample_viem =
     \<lparr>parseUnits = (\<lambda>s d. units_value (takeWhile (\<lambda>c. c \<noteq> CHR ''.'') s)
                             (tl (dropWhile (\<lambda>c. c \<noteq> CHR ''.'') s))),
      formatUnits = (\<lambda>v d. units_text v),
      isAddress = address_shape,
      getAddress = (\<lambda>s. if address_shape s then Inr (toLowerCase s) else Inl (PlainError ''InvalidAddressError'')),
      hexToBytes = (\<lambda>s. bytes_of_hex (drop 2 s)),
      bytesToHex = (\<lambda>bs. ''0x'' @ hex_of_bytes bs)\<rparr>"

lemma sample_viem_units: "viem_units sample_viem"
proof -
  have "parseUnits sample_viem (with_fraction i f) 18 = units_value i f"
    if "canonical_decimal i" "list_all is_digit f" for i f
  proof -
    have i: "\<forall>c \<in> set i. c \<noteq> CHR ''.''"
      using canonical_decimal_digits [OF that(1)] by (auto simp: list_all_iff is_digit_def)
    have "takeWhile (\<lambda>c. c \<noteq> CHR ''.'') (with_fraction i f) = i"
      using i by (cases f) (simp_all add: with_fraction_def takeWhile_append)
    moreover have "tl (dropWhile (\<lambda>c. c \<noteq> CHR ''.'') (with_fraction i f)) = f"
      using i by (cases f) (simp_all add: with_fraction_def dropWhile_append dropWhile_eq_Nil_conv [THEN iffD2])
    ultimately show ?thesis by (simp add: sample_viem_def)
  qed
  then show ?thesis by (simp add: viem_units_def) (simp add: sample_viem_def)
qed

lemma drop_toLowerCase: "drop n (toLowerCase s) = toLowerCase (drop n s)"
  by (simp add: toLowerCase_def drop_map)

lemma take_toLowerCase: "take n (toLowerCase s) = toLowerCase (take n s)"
  by (simp add: toLowerCase_def take_map)

lemma is_hex_lower_char: "is_hex c \<Longrightarrow> is_hex (lower_char c)"
  by (simp add: is_hex_lower_is_hex)

lemma list_all_hex_lower: "list_all is_hex s \<Longrightarrow> list_all is_hex_lower (toLowerCase s)"
  by (simp add: toLowerCase_def list_all_iff)

lemma list_all_is_hex: "list_all is_hex s \<Longrightarrow> list_all is_hex (toLowerCase s)"
  by (induction s) (simp_all add: is_hex_lower_char)

lemma toLowerCase_0x: "toLowerCase ''0x'' = ''0x''"
  by code_simp

lemma address_shape_lower: "address_shape s \<Longrightarrow> address_shape (toLowerCase s)"
  unfolding address_shape_def drop_toLowerCase take_toLowerCase
  using list_all_is_hex [of "drop 2 s"] toLowerCase_0x by auto

lemma sample_viem_addresses: "viem_addresses sample_viem"
  by (auto simp: viem_addresses_def sample_viem_def address_shape_lower)


lemma viem_addressesD:
  assumes "viem_addresses V"
  shows "isAddress V s \<Longrightarrow> address_shape s"
    and "address_shape s \<Longrightarrow> toLowerCase s = s \<Longrightarrow> isAddress V s"
    and "isAddress V s \<Longrightarrow> \<exists>a. getAddress V s = Inr a \<and> isAddress V a \<and> toLowerCase a = toLowerCase s"
    and "isAddress V s \<Longrightarrow> isAddress V t \<Longrightarrow> toLowerCase s = toLowerCase t \<Longrightarrow> getAddress V s = getAddress V t"
    and "address_shape s \<Longrightarrow> hexToBytes V s = bytes_of_hex (drop 2 s)"
    and "byte_list bs \<Longrightarrow> bytesToHex V bs = ''0x'' @ hex_of_bytes bs"
  using assms unfolding viem_addresses_def by blast+

lemma evm_address_bytes:
  assumes "viem_addresses V" "isAddress V s"
  shows "account_bytes (hexToBytes V s)" "bytesToHex V (hexToBytes V s) = toLowerCase s"
proof -
  have sh: "address_shape s" by (rule viem_addressesD(1) [OF assms])
  then have b: "hexToBytes V s = bytes_of_hex (drop 2 s)" by (rule viem_addressesD(5) [OF assms(1)])
  have h: "list_all is_hex (drop 2 s)" "length (drop 2 s) = 40" "take 2 s = ''0x''"
    using sh by (simp_all add: address_shape_def)
  have r: "byte_list (bytes_of_hex (drop 2 s))" by (rule bytes_of_hex_range [OF h(1)])
  then show "account_bytes (hexToBytes V s)"
    using h(2) by (simp add: b account_bytes_def byte_list_def)
  have "bytesToHex V (hexToBytes V s) = ''0x'' @ toLowerCase (drop 2 s)"
    using viem_addressesD(6) [OF assms(1) r] hex_of_bytes_of_hex [OF h(1)]
    unfolding b h(2) by (simp only: even_numeral simp_thms)
  also have "\<dots> = toLowerCase (take 2 s @ drop 2 s)"
    unfolding toLowerCase_append h(3) toLowerCase_0x ..
  finally show "bytesToHex V (hexToBytes V s) = toLowerCase s" by simp
qed

lemma bytes_address:
  assumes "viem_addresses V" "account_bytes bytes"
  shows "isAddress V (bytesToHex V bytes)" "hexToBytes V (bytesToHex V bytes) = bytes"
    "toLowerCase (bytesToHex V bytes) = bytesToHex V bytes"
proof -
  have bl: "byte_list bytes" "length bytes = 20" using assms(2) by (simp_all add: account_bytes_def byte_list_def)
  have e: "bytesToHex V bytes = ''0x'' @ hex_of_bytes bytes"
    by (rule viem_addressesD(6) [OF assms(1) bl(1)])
  have hl: "list_all is_hex_lower (hex_of_bytes bytes)" by (rule hex_of_bytes_lower [OF bl(1)])
  have low: "toLowerCase (''0x'' @ hex_of_bytes bytes) = ''0x'' @ hex_of_bytes bytes"
    by (simp only: toLowerCase_append toLowerCase_0x toLowerCase_id [OF hl])
  have "address_shape (''0x'' @ hex_of_bytes bytes)"
    using bl(2) hl by (auto simp: address_shape_def list_all_iff is_hex_lower_is_hex)
  note sh = this
  show "isAddress V (bytesToHex V bytes)" unfolding e by (rule viem_addressesD(2) [OF assms(1) sh low])
  show "hexToBytes V (bytesToHex V bytes) = bytes"
    unfolding e viem_addressesD(5) [OF assms(1) sh] using bl(1) by simp
  show "toLowerCase (bytesToHex V bytes) = bytesToHex V bytes" unfolding e by (rule low)
qed

lemma address_conversions:
  assumes "viem_addresses V"
  shows "isAddress V s \<Longrightarrow> bindR (toriumEvmAddressToBech32 V (JStr s)) (toriumBech32AddressToEvm V) = getAddress V s"
    and "decodeBech32Account b = Inr bytes \<Longrightarrow>
      bindR (toriumBech32AddressToEvm V b) (\<lambda>a. toriumEvmAddressToBech32 V (JStr a)) = Inr b"
proof -
  assume s: "isAddress V s"
  then obtain a where a: "getAddress V s = Inr a" "isAddress V a" "toLowerCase a = toLowerCase s"
    using viem_addressesD(3) [OF assms] by blast
  note by_a = evm_address_bytes [OF assms a(2)]
  from account.enc_total [OF by_a(1)] obtain b where b: "encodeBech32Account (hexToBytes V a) = Inr b" by blast
  then have d: "decodeBech32Account b = Inr (hexToBytes V a)" by (rule account.dec_enc [OF by_a(1)])
  have "isAddress V (toLowerCase s)" using bytes_address(1) [OF assms by_a(1)] by_a(2) a(3) by simp
  then have "getAddress V (toLowerCase s) = getAddress V s"
    using viem_addressesD(4) [OF assms _ s] by simp
  with b d a by_a(2) s show "bindR (toriumEvmAddressToBech32 V (JStr s)) (toriumBech32AddressToEvm V) = getAddress V s"
    by (simp add: toriumEvmAddressToBech32_def toriumBech32AddressToEvm_def normalizeToriumEvmAddress_def)
next
  assume d: "decodeBech32Account b = Inr bytes"
  have bytes: "account_bytes bytes" "encodeBech32Account bytes = Inr b" using account.enc_dec [OF d] by simp_all
  note h = bytes_address [OF assms bytes(1)]
  from viem_addressesD(3) [OF assms h(1)] h(3) obtain a where
    a: "getAddress V (bytesToHex V bytes) = Inr a" "isAddress V a" "toLowerCase a = bytesToHex V bytes"
    by auto
  from viem_addressesD(3) [OF assms a(2)] obtain a' where
    a': "getAddress V a = Inr a'" "isAddress V a'" "toLowerCase a' = toLowerCase a" by blast
  have "bytes_of_hex (drop 2 (toLowerCase a')) = bytes_of_hex (drop 2 a')"
    using viem_addressesD(1) [OF assms a'(2)] by (simp add: address_shape_def drop_toLowerCase)
  moreover have "hexToBytes V x = bytes_of_hex (drop 2 x)" if "isAddress V x" for x
    using viem_addressesD(1,5) [OF assms] that by blast
  ultimately have "hexToBytes V a' = bytes" using h a(3) a'(2,3) by metis
  with d a a' bytes(2) show "bindR (toriumBech32AddressToEvm V b) (\<lambda>a. toriumEvmAddressToBech32 V (JStr a)) = Inr b"
    by (simp add: toriumEvmAddressToBech32_def toriumBech32AddressToEvm_def normalizeToriumEvmAddress_def)
qed


text \<open>
  C33: Converting an EVM address to its Bech32 spelling and back gives the checksummed address, and
  every Bech32 account converts to an EVM address that converts back to the same account.
\<close>

theorem address_conversions_inverse:
  assumes "viem_addresses V"
  shows "(isAddress V s \<longrightarrow>
      bindR (toriumEvmAddressToBech32 V (JStr s)) (toriumBech32AddressToEvm V) = getAddress V s) \<and>
    (isToriumAccountAddress (JStr b) \<longrightarrow>
      bindR (toriumBech32AddressToEvm V b) (\<lambda>a. toriumEvmAddressToBech32 V (JStr a)) = Inr b)"
  using address_conversions [OF assms] by (auto simp: isToriumAccountAddress_def split: sum.splits)

definition sample_address :: string where
  "sample_address = ''0x000102030405060708090A0B0C0D0E0F10111213''"

theorem address_conversions_inverse_witness:
  "bindR (toriumEvmAddressToBech32 sample_viem (JStr sample_address)) (toriumBech32AddressToEvm sample_viem) =
     Inr ''0x000102030405060708090a0b0c0d0e0f10111213'' \<and>
   bindR (toriumBech32AddressToEvm sample_viem sample_account)
     (\<lambda>a. toriumEvmAddressToBech32 sample_viem (JStr a)) = Inr sample_account"
proof -
  have sh: "address_shape sample_address" by code_simp
  then have "isAddress sample_viem sample_address" by (simp add: sample_viem_def)
  moreover have "isToriumAccountAddress (JStr sample_account)"
    by (simp add: isToriumAccountAddress_def sample_account_decodes)
  moreover have "toLowerCase sample_address = ''0x000102030405060708090a0b0c0d0e0f10111213''" by code_simp
  with sh have "getAddress sample_viem sample_address = Inr ''0x000102030405060708090a0b0c0d0e0f10111213''"
    by (simp add: sample_viem_def)
  ultimately show ?thesis
    using address_conversions_inverse [OF sample_viem_addresses, of sample_address sample_account] by simp
qed

theorem amount_roundtrip_witness:
  "\<exists>s. formatToriumAmount sample_viem (JBigInt 1500000000000000000) = Inr s \<and>
     parseToriumAmount sample_viem (JStr s) = Inr 1500000000000000000"
  by (rule amount_roundtrip [OF sample_viem_units]) simp_all

section \<open>Normalisation\<close>

lemma is_hash_lower: "is_hash s \<Longrightarrow> is_hash (toLowerCase s)"
  unfolding is_hash_def drop_toLowerCase take_toLowerCase
  using list_all_is_hex [of "drop 2 s"] toLowerCase_0x by auto

lemma stars_even: "w \<in> stars {v. length v = 2 \<and> list_all is_hex v} \<longleftrightarrow> even (length w) \<and> list_all is_hex w"
proof
  show "w \<in> stars {v. length v = 2 \<and> list_all is_hex v} \<Longrightarrow> even (length w) \<and> list_all is_hex w"
    by (induction rule: stars.induct) auto
next
  show "even (length w) \<and> list_all is_hex w \<Longrightarrow> w \<in> stars {v. length v = 2 \<and> list_all is_hex v}"
  proof (induction w rule: bytes_of_hex.induct)
    case (1 a b s)
    then have "[a, b] @ s \<in> stars {v. length v = 2 \<and> list_all is_hex v}"
      by (intro stars.stars_step) simp_all
    then show ?case by simp
  qed (auto intro: stars.stars_Nil)
qed

definition hex_data :: "string \<Rightarrow> bool" where
  "hex_data s \<longleftrightarrow> take 2 s = ''0x'' \<and> even (length s) \<and> list_all is_hex (drop 2 s)"

lemma hex_data_rx_iff: "rx_test hex_data_rx s \<longleftrightarrow> hex_data s"
proof -
  have "rx_test hex_data_rx s \<longleftrightarrow> (\<exists>w. s = ''0x'' @ w \<and> even (length w) \<and> list_all is_hex w)"
    unfolding hex_data_rx_def
    by (subst rx_test_anchored, simp, simp only: lang_Sq_lit lang.simps(5) lang_times_Cls) (auto simp: stars_even)
  also have "\<dots> \<longleftrightarrow> take 2 s = ''0x'' \<and> even (length (drop 2 s)) \<and> list_all is_hex (drop 2 s)"
    by (rule two_char_prefix)
  also have "\<dots> \<longleftrightarrow> hex_data s"
    unfolding hex_data_def by (cases s; cases "tl s") auto
  finally show ?thesis .
qed

lemma hex_data_lower: "hex_data s \<Longrightarrow> hex_data (toLowerCase s)"
  unfolding hex_data_def drop_toLowerCase take_toLowerCase
  using list_all_is_hex [of "drop 2 s"] toLowerCase_0x by auto

text \<open>
  Normalised hashes, data and block references are fixed points of the normalisation, and the
  predicates accept exactly what the normalisation accepts.
\<close>

theorem normalisation_idempotent:
  "bindR (normalizeToriumHash v) (normalizeToriumHash \<circ> JStr) = normalizeToriumHash v \<and>
   bindR (normalizeToriumHexData v) (normalizeToriumHexData \<circ> JStr) = normalizeToriumHexData v \<and>
   bindR (normalizeToriumBlockReference v) normalizeToriumBlockReference = normalizeToriumBlockReference v \<and>
   (isToriumHash v \<longleftrightarrow> normalizeToriumHash v \<in> range Inr) \<and>
   (isToriumHexData v \<longleftrightarrow> normalizeToriumHexData v \<in> range Inr)"
proof (cases v)
  case (JStr s)
  have tag: "\<not> is_hash s \<or> toLowerCase s \<notin> set toriumBlockTags"
    by (auto simp: is_hash_def toriumBlockTags_def dest: arg_cong [of _ _ length])
  show ?thesis
    using JStr is_hash_lower [of s] hex_data_lower [of s] tag
    by (auto simp: normalizeToriumHash_def normalizeToriumHexData_def normalizeToriumBlockReference_def
        isToriumHash_def isToriumHexData_def hex_data_rx_iff)
qed (auto simp: normalizeToriumHash_def normalizeToriumHexData_def normalizeToriumBlockReference_def
    isToriumHash_def isToriumHexData_def)

end
