(* ===== verification/Torium_Json.thy ===== *)
theory Torium_Json
  imports Utils
begin

text \<open>
  The JSON envelope for big integers of \<^verbatim>\<open>packages/torium-sdk/src/utils.ts\<close>
  (\<open>stringifyToriumJson\<close>, \<open>parseToriumJson\<close>).  A JSON text is represented by the document it
  denotes, a text that is not JSON by \<open>None\<close>; white space, and with it the parameter \<open>space\<close>, does not
  change the document.  The values are the data that \<open>JSON.stringify\<close> walks: no two references to one
  object and no \<open>toJSON\<close> method.
\<close>

section \<open>Values and documents\<close>

datatype data =
    PUndefined
  | PNull
  | PBool bool
  | PNum jsnum
  | PBigInt int
  | PStr string
  | PArr "data list"
  | PObj "(string \<times> data) list"
  | PFun

datatype json =
    DNull
  | DBool bool
  | DNum real
  | DStr string
  | DArr "json list"
  | DObj "(string \<times> json) list"

definition toriumBigIntTag :: string where
  "toriumBigIntTag = ''$torium.bigint''"

section \<open>Serialisation\<close>

text \<open>The replacer of \<open>stringifyToriumJson\<close>.\<close>

definition replaceBigInt :: "data \<Rightarrow> js_exn + data" where
  "replaceBigInt candidate =
     (case candidate of
        PBigInt i \<Rightarrow> Inr (PObj [(toriumBigIntTag, PStr (show_int i))])
      | PObj fs \<Rightarrow>
          if toriumBigIntTag \<in> fst ` set fs
          then Inl (TypeError ''Torium JSON value contains a reserved serialization tag.'')
          else Inr candidate
      | _ \<Rightarrow> Inr candidate)"

text \<open>
  \<open>JSON.stringify\<close> with the replacer: the replacer sees every value before its parts, \<open>undefined\<close> and
  functions leave an object and are \<open>null\<close> in an array, and a number that is not finite is \<open>null\<close>.
  The object that replaces a big integer has one string in it, which the replacer keeps.
\<close>

fun serialize :: "data \<Rightarrow> js_exn + json option"
and serializeElements :: "data list \<Rightarrow> js_exn + json list"
and serializeFields :: "(string \<times> data) list \<Rightarrow> js_exn + (string \<times> json) list" where
  "serialize PUndefined = Inr None"
| "serialize PFun = Inr None"
| "serialize PNull = Inr (Some DNull)"
| "serialize (PBool b) = Inr (Some (DBool b))"
| "serialize (PNum x) = Inr (Some (case x of Fin r \<Rightarrow> DNum r | _ \<Rightarrow> DNull))"
| "serialize (PStr s) = Inr (Some (DStr s))"
| "serialize (PBigInt i) = Inr (Some (DObj [(toriumBigIntTag, DStr (show_int i))]))"
| "serialize (PArr xs) = bindR (serializeElements xs) (\<lambda>ds. Inr (Some (DArr ds)))"
| "serialize (PObj fs) =
     bindR (replaceBigInt (PObj fs)) (\<lambda>_. bindR (serializeFields fs) (\<lambda>ds. Inr (Some (DObj ds))))"
| "serializeElements [] = Inr []"
| "serializeElements (x # xs) =
     bindR (serialize x) (\<lambda>d. bindR (serializeElements xs) (\<lambda>ds.
       Inr ((case d of None \<Rightarrow> DNull | Some j \<Rightarrow> j) # ds)))"
| "serializeFields [] = Inr []"
| "serializeFields ((k, v) # fs) =
     bindR (serialize v) (\<lambda>d. bindR (serializeFields fs) (\<lambda>ds.
       Inr (case d of None \<Rightarrow> ds | Some j \<Rightarrow> (k, j) # ds)))"

definition stringifyToriumJson :: "data \<Rightarrow> js_exn + json" where
  "stringifyToriumJson v =
     bindR (serialize v) (\<lambda>d.
       case d of
         None \<Rightarrow> Inl (TypeError ''Torium JSON root must be a serializable value.'')
       | Some j \<Rightarrow> Inr j)"

section \<open>Parsing\<close>

text \<open>\<open>/^(?:0|-[1-9][0-9]*|[1-9][0-9]*)$/u\<close> and \<open>BigInt(encoded)\<close>\<close>

definition bigint_rx :: rx where
  "bigint_rx =
     (let nz = Sq (Cls (\<lambda>c. is_digit c \<and> c \<noteq> CHR ''0'')) (Star (Cls is_digit))
      in anchored (alts [lit ''0'', Sq (chr CHR ''-'') nz, nz]))"

fun read_int :: "string \<Rightarrow> int" where
  "read_int [] = 0"
| "read_int (c # s) = (if c = CHR ''-'' then - int (read_nat s) else int (read_nat (c # s)))"

text \<open>The reviver of \<open>parseToriumJson\<close>, given a value whose parts have been revived.\<close>

definition reviveBigInt :: "data \<Rightarrow> js_exn + data" where
  "reviveBigInt candidate =
     (case candidate of
        PObj [(k, PStr encoded)] \<Rightarrow>
          if k \<noteq> toriumBigIntTag then Inr candidate
          else if \<not> rx_test bigint_rx encoded
          then Inl (TypeError ''Torium JSON contains an invalid bigint envelope.'')
          else Inr (PBigInt (read_int encoded))
      | _ \<Rightarrow> Inr candidate)"

fun revive :: "json \<Rightarrow> js_exn + data"
and reviveElements :: "json list \<Rightarrow> js_exn + data list"
and reviveFields :: "(string \<times> json) list \<Rightarrow> js_exn + (string \<times> data) list" where
  "revive DNull = reviveBigInt PNull"
| "revive (DBool b) = reviveBigInt (PBool b)"
| "revive (DNum x) = reviveBigInt (PNum (Fin x))"
| "revive (DStr s) = reviveBigInt (PStr s)"
| "revive (DArr ds) = bindR (reviveElements ds) (\<lambda>xs. reviveBigInt (PArr xs))"
| "revive (DObj ds) = bindR (reviveFields ds) (\<lambda>fs. reviveBigInt (PObj fs))"
| "reviveElements [] = Inr []"
| "reviveElements (d # ds) = bindR (revive d) (\<lambda>x. bindR (reviveElements ds) (\<lambda>xs. Inr (x # xs)))"
| "reviveFields [] = Inr []"
| "reviveFields ((k, d) # ds) = bindR (revive d) (\<lambda>x. bindR (reviveFields ds) (\<lambda>fs. Inr ((k, x) # fs)))"

definition parseToriumJson :: "json option \<Rightarrow> js_exn + data" where
  "parseToriumJson text =
     (case text of
        None \<Rightarrow> Inl (SyntaxError ''Torium JSON input is not valid JSON.'')
      | Some d \<Rightarrow> revive d)"

section \<open>Round trip\<close>

text \<open>
  The values that JSON can express and that do not use the reserved key.
\<close>

fun expressible :: "data \<Rightarrow> bool" where
  "expressible PUndefined = False"
| "expressible PFun = False"
| "expressible (PNum x) = num_isFinite x"
| "expressible (PArr xs) = list_all expressible xs"
| "expressible (PObj fs) = (toriumBigIntTag \<notin> fst ` set fs \<and> list_all (\<lambda>(k, v). expressible v) fs)"
| "expressible _ = True"

lemma bigint_rx_show: "rx_test bigint_rx (show_int i)"
proof -
  let ?nz = "Sq (Cls (\<lambda>c. is_digit c \<and> c \<noteq> CHR ''0'')) (Star (Cls is_digit))"
  have nz: "show_nat n \<in> lang ?nz" if "0 < n" for n
  proof (cases "show_nat n")
    case (Cons c w)
    then show ?thesis
      using show_nat_digits [of n] hd_show_nat [OF that] by (simp only: lang_Sq_Cls lang_Star_Cls) auto
  qed simp
  have "show_int i \<in> lang (alts [lit ''0'', Sq (chr CHR ''-'') ?nz, ?nz])"
  proof (cases "i = 0")
    case True
    then show ?thesis by (simp add: show_int_def show_nat.simps digit_char_numerals)
  next
    case False
    with nz [of "nat i"] nz [of "nat (- i)"] show ?thesis
      unfolding chr_def show_int_def
      by (simp only: lang_alts list.set lang_lit lang_Sq_Cls [of "\<lambda>d. d = CHR ''-''"]) auto
  qed
  then show ?thesis unfolding bigint_rx_def Let_def by (subst rx_test_anchored) (simp_all add: chr_def)
qed

lemma read_show_int: "read_int (show_int i) = i"
proof (cases "show_int i")
  case (Cons c s)
  show ?thesis
  proof (cases "i < 0")
    case False
    have "c \<noteq> CHR ''-''"
      using Cons False show_nat_digits [of "nat i"] by (auto simp: show_int_def is_digit_def)
    with Cons have "read_int (show_int i) = int (read_nat (show_int i))" by simp
    with False show ?thesis by (simp add: show_int_def)
  qed (auto simp: show_int_def)
qed (simp add: show_int_def split: if_splits)

lemma revive_envelope: "revive (DObj [(toriumBigIntTag, DStr (show_int i))]) = Inr (PBigInt i)"
  by (simp add: reviveBigInt_def bigint_rx_show read_show_int)

lemma reviveBigInt_untagged: "toriumBigIntTag \<notin> fst ` set fs \<Longrightarrow> reviveBigInt (PObj fs) = Inr (PObj fs)"
  by (auto simp: reviveBigInt_def split: list.splits data.splits prod.splits)

lemma roundtrip_data:
  "expressible v \<Longrightarrow> \<exists>d. serialize v = Inr (Some d) \<and> revive d = Inr v"
  "list_all expressible xs \<Longrightarrow> \<exists>ds. serializeElements xs = Inr ds \<and> reviveElements ds = Inr xs"
  "list_all (\<lambda>(k, v). expressible v) fs \<Longrightarrow> \<exists>ds. serializeFields fs = Inr ds \<and> reviveFields ds = Inr fs"
proof (induction v and xs and fs rule: serialize_serializeElements_serializeFields.induct)
  case (5 x)
  then show ?case by (cases x) (simp_all add: reviveBigInt_def)
next
  case (7 i)
  show ?case using revive_envelope by simp
next
  case (8 xs)
  then obtain ds where "serializeElements xs = Inr ds" "reviveElements ds = Inr xs" by auto
  then show ?case by (auto simp: reviveBigInt_def)
next
  case (9 fs)
  have r: "replaceBigInt (PObj fs) = Inr (PObj fs)" using 9(2) by (simp add: replaceBigInt_def)
  from 9(1) [OF r] 9(2) obtain ds where "serializeFields fs = Inr ds" "reviveFields ds = Inr fs" by auto
  with r 9(2) reviveBigInt_untagged [of fs] show ?case by (auto)
qed (auto simp: reviveBigInt_def)

text \<open>
  C32: Serialising a value and parsing the text gives the value back, big integers of any size and sign
  included, for every value that JSON can express and that does not use the reserved key.
\<close>

theorem json_roundtrip:
  assumes "expressible v"
  shows "\<exists>d. stringifyToriumJson v = Inr d \<and> parseToriumJson (Some d) = Inr v"
  using roundtrip_data(1) [OF assms] by (auto simp: stringifyToriumJson_def parseToriumJson_def)

theorem json_roundtrip_witness:
  "\<exists>d. stringifyToriumJson (PObj [(''amount'', PBigInt (-12)), (''tags'', PArr [PStr ''a'', PNull])]) = Inr d \<and>
     parseToriumJson (Some d) = Inr (PObj [(''amount'', PBigInt (-12)), (''tags'', PArr [PStr ''a'', PNull])])"
  by (rule json_roundtrip) (simp add: toriumBigIntTag_def)

end
