(* ===== verification/Errors.thy ===== *)
theory Errors
  imports Js_Values Hex
begin

text \<open>
  The error model of \<^verbatim>\<open>packages/torium-sdk/src/errors.ts\<close>: the SDK error and its construction, the walk
  along the causes of an upstream error, its classification, and the redaction of causes and texts.

  An upstream error is a JavaScript value.  Objects that can be reached twice are references into the
  \<open>heap\<close> of a \<open>js_env\<close>, which also holds the result of calling a \<open>headers.get\<close> function and the rounding
  of a real number to a double.
\<close>

section \<open>Categories, codes and contexts\<close>

datatype category =
    Configuration | WrongChain | Transport | RateLimit | Timeout | Cancellation | Rpc | Simulation
  | Revert | Nonce | Fee | Funds | Replacement | Compatibility | Contract | Unknown

definition toriumErrorCategories :: "category list" where
  "toriumErrorCategories =
     [Configuration, WrongChain, Transport, RateLimit, Timeout, Cancellation, Rpc, Simulation,
      Revert, Nonce, Fee, Funds, Replacement, Compatibility, Contract, Unknown]"

fun category_text :: "category \<Rightarrow> string" where
  "category_text Configuration = ''configuration''"
| "category_text WrongChain = ''wrong-chain''"
| "category_text Transport = ''transport''"
| "category_text RateLimit = ''rate-limit''"
| "category_text Timeout = ''timeout''"
| "category_text Cancellation = ''cancellation''"
| "category_text Rpc = ''rpc''"
| "category_text Simulation = ''simulation''"
| "category_text Revert = ''revert''"
| "category_text Nonce = ''nonce''"
| "category_text Fee = ''fee''"
| "category_text Funds = ''funds''"
| "category_text Replacement = ''replacement''"
| "category_text Compatibility = ''compatibility''"
| "category_text Contract = ''contract''"
| "category_text Unknown = ''unknown''"

fun categoryCode :: "category \<Rightarrow> string" where
  "categoryCode Configuration = ''TORIUM_CONFIG_INVALID''"
| "categoryCode WrongChain = ''TORIUM_WRONG_CHAIN''"
| "categoryCode Transport = ''TORIUM_TRANSPORT_FAILED''"
| "categoryCode RateLimit = ''TORIUM_RATE_LIMITED''"
| "categoryCode Timeout = ''TORIUM_TIMEOUT''"
| "categoryCode Cancellation = ''TORIUM_CANCELLED''"
| "categoryCode Rpc = ''TORIUM_RPC_FAILED''"
| "categoryCode Simulation = ''TORIUM_SIMULATION_FAILED''"
| "categoryCode Revert = ''TORIUM_REVERTED''"
| "categoryCode Nonce = ''TORIUM_NONCE_INVALID''"
| "categoryCode Fee = ''TORIUM_FEE_INVALID''"
| "categoryCode Funds = ''TORIUM_FUNDS_INSUFFICIENT''"
| "categoryCode Replacement = ''TORIUM_REPLACEMENT_FAILED''"
| "categoryCode Compatibility = ''TORIUM_COMPATIBILITY_FAILED''"
| "categoryCode Contract = ''TORIUM_CONTRACT_FAILED''"
| "categoryCode Unknown = ''TORIUM_UNKNOWN_FAILED''"

fun defaultMessage :: "category \<Rightarrow> string" where
  "defaultMessage Configuration = ''The Torium action configuration is invalid.''"
| "defaultMessage WrongChain = ''The Torium action is connected to the wrong chain.''"
| "defaultMessage Transport = ''The Torium transport request failed.''"
| "defaultMessage RateLimit = ''The Torium RPC request was rate limited.''"
| "defaultMessage Timeout = ''The Torium action exceeded its timeout.''"
| "defaultMessage Cancellation = ''The Torium action was cancelled.''"
| "defaultMessage Rpc = ''The Torium JSON-RPC request failed.''"
| "defaultMessage Simulation = ''The Torium transaction simulation failed.''"
| "defaultMessage Revert = ''The Torium EVM execution reverted.''"
| "defaultMessage Nonce = ''The Torium transaction nonce is invalid.''"
| "defaultMessage Fee = ''The Torium transaction fee is invalid.''"
| "defaultMessage Funds = ''The Torium account has insufficient funds.''"
| "defaultMessage Replacement = ''The Torium transaction replacement failed.''"
| "defaultMessage Compatibility = ''The Torium endpoint or deployment is incompatible.''"
| "defaultMessage Contract = ''The Torium contract action failed.''"
| "defaultMessage Unknown = ''The Torium action failed.''"

definition endpointCategory :: "string \<Rightarrow> category" where
  "endpointCategory errorCode =
     (if errorCode = ''TORIUM_ENDPOINT_CONFIG_INVALID'' then Configuration
      else if errorCode = ''TORIUM_CHAIN_ID_MISMATCH'' \<or> errorCode = ''TORIUM_NETWORK_ID_MISMATCH'' then WrongChain
      else if errorCode = ''TORIUM_RPC_ABORTED'' then Cancellation
      else if errorCode = ''TORIUM_RPC_REQUEST_FAILED'' then Transport
      else if errorCode = ''TORIUM_RPC_RESPONSE_INVALID'' then Rpc
      else Compatibility)"

datatype client_kind = EndpointClient | PublicClient | WalletClient | ContractClient

datatype operation_kind = Read | Write | Broadcast

record error_context =
  cx_operation :: string
  cx_kind :: operation_kind
  cx_clientKind :: "client_kind option"
  cx_method :: "string option"
  cx_chainId :: "int option"
  cx_requestId :: "string option"
  cx_fallbackCategory :: "category option"

section \<open>The SDK error\<close>

text \<open>
  The class hierarchy is one record: \<open>se_name\<close> tells the class, and the fields that a subclass adds (\<open>expected\<close> and
  \<open>actual\<close>, or the contract and its decoded error) are absent in the others.
\<close>

datatype error_cause =
  ErrorCause (ec_name: string) (ec_message: string) (ec_code: "jsval option") (ec_cause: "error_cause option")

record sdk_options =
  so_code :: string
  so_category :: category
  so_message :: "string option"
  so_cause :: jsval
  so_operation :: "string option"
  so_kind :: "operation_kind option"
  so_clientKind :: "client_kind option"
  so_method :: "string option"
  so_chainId :: "int option"
  so_requestId :: "string option"
  so_retryable :: "bool option"
  so_safeToRetry :: "bool option"
  so_rpcCode :: "jsnum option"
  so_httpStatus :: "jsnum option"
  so_retryAfterMs :: "jsnum option"
  so_revertData :: "string option"
  so_revertReason :: "string option"
  so_issues :: "string list option"

record sdk_error =
  se_name :: string
  se_message :: string
  se_code :: string
  se_category :: category
  se_operation :: "string option"
  se_kind :: "operation_kind option"
  se_clientKind :: "client_kind option"
  se_method :: "string option"
  se_chainId :: "int option"
  se_requestId :: "string option"
  se_retryable :: bool
  se_safeToRetry :: bool
  se_rpcCode :: "jsnum option"
  se_httpStatus :: "jsnum option"
  se_retryAfterMs :: "jsnum option"
  se_revertData :: "string option"
  se_revertReason :: "string option"
  se_issues :: "string list option"
  se_cause :: "error_cause option"
  se_expected :: "jsval option"
  se_actual :: "jsval option"
  se_contractName :: "string option"
  se_address :: "string option"
  se_errorName :: "string option"
  se_errorArgs :: "jsval list option"

text \<open>Options with nothing but the code and the category set.\<close>

definition sdkOptions :: "string \<Rightarrow> category \<Rightarrow> sdk_options" where
  "sdkOptions errorCode category =
     \<lparr>so_code = errorCode, so_category = category, so_message = None, so_cause = JUndefined, so_operation = None,
      so_kind = None, so_clientKind = None, so_method = None, so_chainId = None, so_requestId = None,
      so_retryable = None, so_safeToRetry = None, so_rpcCode = None, so_httpStatus = None,
      so_retryAfterMs = None, so_revertData = None, so_revertReason = None, so_issues = None\<rparr>"

text \<open>\<open>a ?? b\<close> on an optional value.\<close>

abbreviation orElse :: "'a option \<Rightarrow> 'a \<Rightarrow> 'a" where
  "orElse m d \<equiv> (case m of None \<Rightarrow> d | Some x \<Rightarrow> x)"

abbreviation orOption :: "'a option \<Rightarrow> 'a option \<Rightarrow> 'a option" where
  "orOption m d \<equiv> (case m of None \<Rightarrow> d | Some x \<Rightarrow> Some x)"

section \<open>Upstream values\<close>

record js_env =
  je_heap :: "nat \<Rightarrow> fields"
  je_get :: "nat \<Rightarrow> string \<Rightarrow> jsval"
  je_double :: "real \<Rightarrow> jsnum"

text \<open>\<open>toRecord\<close>: none of the keys read below is an index or the length of an array.\<close>

fun toRecord :: "js_env \<Rightarrow> jsval \<Rightarrow> fields" where
  "toRecord J (JRef a) = je_heap J a"
| "toRecord J (JObj fs) = fs"
| "toRecord J _ = []"

text \<open>
  Membership of the \<open>Set\<close> of visited values.  Only a reference can be met twice: a primitive value has no
  cause, and an inline object is a part of the one that holds it.
\<close>

fun visitedHas :: "nat list \<Rightarrow> jsval \<Rightarrow> bool" where
  "visitedHas visited (JRef a) = (a \<in> set visited)"
| "visitedHas visited _ = False"

fun visitedAdd :: "nat list \<Rightarrow> jsval \<Rightarrow> nat list" where
  "visitedAdd visited (JRef a) = a # visited"
| "visitedAdd visited _ = visited"

record error_record =
  er_value :: fields
  er_name :: string
  er_message :: string

definition errorRecord :: "js_env \<Rightarrow> jsval \<Rightarrow> error_record" where
  "errorRecord J current =
     (let v = toRecord J current
      in \<lparr>er_value = v,
          er_name = (case fieldOf v ''name'' of JStr s \<Rightarrow> s | _ \<Rightarrow> ''Error''),
          er_message = (case fieldOf v ''message'' of JStr s \<Rightarrow> s | _ \<Rightarrow> [])\<rparr>)"

text \<open>The loop, with the number of records that the limit of eight still allows.\<close>

fun errorChainFrom :: "js_env \<Rightarrow> nat \<Rightarrow> nat list \<Rightarrow> jsval \<Rightarrow> error_record list" where
  "errorChainFrom J 0 visited current = []"
| "errorChainFrom J (Suc n) visited current =
     (if isNullish current \<or> visitedHas visited current then []
      else errorRecord J current #
           errorChainFrom J n (visitedAdd visited current) (fieldOf (toRecord J current) ''cause''))"

definition errorChain :: "js_env \<Rightarrow> jsval \<Rightarrow> error_record list" where
  "errorChain J error = errorChainFrom J 8 [] error"


section \<open>Classification\<close>

definition anyLit :: "string list \<Rightarrow> rx" where
  "anyLit ss = alts (map lit ss)"

definition wrongChainMessage_rx :: rx where
  "wrongChainMessage_rx =
     alts [lit ''wrong chain'',
           Sq (lit ''chain id'') (Sq (rplus (Cls is_dot)) (lit ''does not match'')),
           lit ''chain mismatch'', lit ''does not match the configured chain'', lit ''must use the same chain'']"

definition classify :: "error_record list \<Rightarrow> error_context \<Rightarrow> category" where
  "classify chain context =
     (let names = map (\<lambda>r. toLowerCase (er_name r)) chain;
          messages = map (\<lambda>r. toLowerCase (er_message r)) chain;
          codes = map (\<lambda>r. fieldOf (er_value r) ''code'') chain;
          statuses = map (\<lambda>r. fieldOf (er_value r) ''status'') chain;
          hasName = (\<lambda>r. list_ex (rx_test r) names);
          hasMessage = (\<lambda>r. list_ex (rx_test r) messages)
      in if hasName (anyLit [''abort'', ''userrejectedrequest'']) \<or> JInt 4001 \<in> set codes
            \<or> hasMessage (anyLit [''user rejected'', ''request rejected by user'']) then Cancellation
      else if hasName (lit ''timeout'')
            \<or> hasMessage (Alt (Sq (lit ''time'') (Sq (ropt (chr CHR ''d'')) (lit '' out''))) (lit ''timeout''))
      then Timeout
      else if JInt (-32005) \<in> set codes \<or> JInt 429 \<in> set statuses
            \<or> hasName (anyLit [''limitexceeded'', ''ratelimit''])
            \<or> hasMessage (Alt (Sq (lit ''rate'') (Sq (ropt (Cls is_dot)) (lit ''limit''))) (lit ''too many requests''))
      then RateLimit
      else if hasName (anyLit [''chainmismatch'', ''chainnotfound'', ''switchchain''])
            \<or> hasMessage wrongChainMessage_rx then WrongChain
      else if rx_test (anyLit [''typeerror'', ''rangeerror'']) (case names of [] \<Rightarrow> [] | n # _ \<Rightarrow> n)
      then Configuration
      else if hasName (lit ''replacement'')
            \<or> hasMessage (anyLit [''replacement transaction underpriced'', ''transaction replaced'']) then Replacement
      else if hasName (lit ''nonce'')
            \<or> hasMessage (alts [Sq (lit ''nonce too '') (anyLit [''low'', ''high'']), lit ''nonce mismatch'',
                                 lit ''transaction nonce'']) then Nonce
      else if hasName (anyLit [''fee'', ''tipabovefeecap''])
            \<or> hasMessage (anyLit [''fee cap'', ''priority fee'', ''transaction fee'']) then Fee
      else if hasName (lit ''insufficientfunds'') \<or> hasMessage (lit ''insufficient funds'') then Funds
      else if hasName (anyLit [''contractfunctionreverted'', ''executionreverted'', ''rawcontract''])
            \<or> hasMessage (Alt (lit ''execution reverted'') (Sq (lit ''revert'') (ropt (lit ''ed'')))) then Revert
      else if hasName (anyLit [''httprequest'', ''websocketrequest'', ''socketclosed'', ''network'', ''fetch''])
            \<or> hasMessage (alts [lit ''transport unavailable'', lit ''network error'', lit ''fetch failed'',
                                 lit ''offline'',
                                 Sq (lit ''connection '') (anyLit [''closed'', ''refused'', ''reset''])])
            \<or> list_ex isNumber statuses then Transport
      else if hasName (lit ''rpc'') \<or> list_ex isNumber codes then Rpc
      else if hasName (anyLit [''callexecution'', ''estimategasexecution'', ''simulation'']) then Simulation
      else if hasName (anyLit [''contractfunction'', ''abifunction'', ''contract'']) then Contract
      else orElse (cx_fallbackCategory context) Unknown)"

definition isTransient :: "category \<Rightarrow> jsnum option \<Rightarrow> jsnum option \<Rightarrow> bool" where
  "isTransient category rpcCode httpStatus =
     (if category = Transport then
        httpStatus = None \<or>
        (case httpStatus of None \<Rightarrow> False | Some s \<Rightarrow> s \<in> set (map NInt [408, 429, 500, 502, 503, 504]))
      else if category = RateLimit \<or> category = Timeout then True
      else category = Rpc \<and> orElse rpcCode (Fin 0) \<in> set (map NInt [-32603, -32002, -32005]))"

section \<open>Reading the chain\<close>

fun firstNumber :: "error_record list \<Rightarrow> string \<Rightarrow> jsnum option" where
  "firstNumber [] key = None"
| "firstNumber (r # rs) key =
     (case fieldOf (er_value r) key of
        JNum x \<Rightarrow> if num_isFinite x then Some x else firstNumber rs key
      | _ \<Rightarrow> firstNumber rs key)"

definition is_letter :: "char \<Rightarrow> bool" where
  "is_letter c \<longleftrightarrow> is_lower c \<or> is_upper c"

definition not_space :: rx where
  "not_space = Cls (\<lambda>c. \<not> is_space c)"

definition url_rx :: rx where
  "url_rx =
     Sq Wb (Sq (Cls is_letter)
       (Sq (Star (Cls (\<lambda>c. is_letter c \<or> is_digit c \<or> c \<in> set ''+.-''))) (Sq (lit ''://'') (rplus not_space))))"

definition bearer_rx :: rx where
  "bearer_rx = Sq Wb (Sq (lit_ci ''bearer'') (Sq (rplus (Cls is_space)) (rplus not_space)))"

definition secret_field_rx :: rx where
  "secret_field_rx =
     (let sep = ropt (Cls (\<lambda>c. c \<in> set ''-_ ''));
          word = alts [lit_ci ''authorization'', Sq (lit_ci ''api'') (Sq sep (lit_ci ''key'')), lit_ci ''token'',
                       lit_ci ''secret'', lit_ci ''password'', lit_ci ''mnemonic'',
                       Sq (lit_ci ''private'') (Sq sep (lit_ci ''key''))]
      in Sq Wb (Sq word (Sq (Star (Cls is_space)) (Sq (Cls (\<lambda>c. c \<in> set '':=''))
           (Sq (Star (Cls is_space)) (rplus not_space))))))"

definition long_hex_rx :: rx where
  "long_hex_rx = Sq (lit_ci ''0x'') (Sq (rtimes 64 (Cls is_hex)) (Star (Cls is_hex)))"

definition sanitizeText :: "string \<Rightarrow> string" where
  "sanitizeText s =
     rx_replace long_hex_rx ''[redacted-hex]''
       (rx_replace secret_field_rx ''[redacted-field]''
         (rx_replace bearer_rx ''Bearer [redacted]''
           (rx_replace url_rx ''[redacted-url]'' s)))"

fun firstSafeString :: "error_record list \<Rightarrow> string \<Rightarrow> string option" where
  "firstSafeString [] key = None"
| "firstSafeString (r # rs) key =
     (case fieldOf (er_value r) key of JStr s \<Rightarrow> Some (sanitizeText s) | _ \<Rightarrow> firstSafeString rs key)"

fun revertCandidate :: "jsval \<Rightarrow> string option" where
  "revertCandidate (JStr s) = (if rx_test hex_text_rx s \<and> length s \<le> 131074 then Some s else None)"
| "revertCandidate _ = None"

fun firstSome :: "('a \<Rightarrow> 'b option) \<Rightarrow> 'a list \<Rightarrow> 'b option" where
  "firstSome f [] = None"
| "firstSome f (x # xs) = orOption (f x) (firstSome f xs)"

definition firstRevertData :: "js_env \<Rightarrow> error_record list \<Rightarrow> string option" where
  "firstRevertData J chain =
     firstSome (\<lambda>r. firstSome revertCandidate
       [fieldOf (er_value r) ''raw'', fieldOf (er_value r) ''data'',
        fieldOf (toRecord J (fieldOf (er_value r) ''data'')) ''data'']) chain"

section \<open>The retry hint\<close>

text \<open>
  \<open>Number(s)\<close> of a string: white space around it is ignored, nothing is zero, and a text that is no
  numeral is not-a-number.
\<close>

definition trim_space :: "string \<Rightarrow> string" where
  "trim_space s = rev (dropWhile is_space (rev (dropWhile is_space s)))"

definition decimal_value :: "string \<Rightarrow> string \<Rightarrow> int \<Rightarrow> real" where
  "decimal_value ip fp e =
     (let k = e - int (length fp); m = real (read_nat (ip @ fp))
      in if 0 \<le> k then m * 10 ^ nat k else m / 10 ^ nat (- k))"

fun exponent_of :: "string \<Rightarrow> int option" where
  "exponent_of [] = Some 0"
| "exponent_of (c # s) =
     (if c \<noteq> CHR ''e'' \<and> c \<noteq> CHR ''E'' then None
      else let (neg, ds) = (case s of d # t \<Rightarrow> if d = CHR ''-'' then (True, t)
                                          else if d = CHR ''+'' then (False, t) else (False, s)
                                     | [] \<Rightarrow> (False, []))
           in if ds = [] \<or> \<not> list_all is_digit ds then None
              else Some (if neg then - int (read_nat ds) else int (read_nat ds)))"

definition unsignedNumber :: "js_env \<Rightarrow> bool \<Rightarrow> string \<Rightarrow> jsnum" where
  "unsignedNumber J neg s =
     (if s = ''Infinity'' then (if neg then NegInf else PosInf)
      else let ip = takeWhile is_digit s; rest = dropWhile is_digit s;
               (fp, tail) = (case rest of c # t \<Rightarrow> if c = CHR ''.'' then (takeWhile is_digit t, dropWhile is_digit t)
                                                  else ([], rest)
                                         | [] \<Rightarrow> ([], []))
           in if ip = [] \<and> fp = [] then NaN
              else case exponent_of tail of
                     None \<Rightarrow> NaN
                   | Some e \<Rightarrow> je_double J ((if neg then -1 else 1) * decimal_value ip fp e))"

definition radixNumber :: "js_env \<Rightarrow> nat \<Rightarrow> string \<Rightarrow> jsnum" where
  "radixNumber J base ds =
     (if ds = [] \<or> \<not> list_all (\<lambda>c. is_hex c \<and> hex_val c < base) ds then NaN
      else je_double J (real (foldl (\<lambda>acc c. base * acc + hex_val c) 0 ds)))"

definition stringToNumber :: "js_env \<Rightarrow> string \<Rightarrow> jsnum" where
  "stringToNumber J text =
     (let s = trim_space text; p = toLowerCase (take 2 s)
      in if s = [] then Fin 0
         else if p = ''0x'' then radixNumber J 16 (drop 2 s)
         else if p = ''0o'' then radixNumber J 8 (drop 2 s)
         else if p = ''0b'' then radixNumber J 2 (drop 2 s)
         else if hd s = CHR ''-'' then unsignedNumber J True (tl s)
         else if hd s = CHR ''+'' then unsignedNumber J False (tl s)
         else unsignedNumber J False s)"

text \<open>
  \<open>Number(v)\<close>.  An array is converted through the text of its elements, any other object through
  a text that is no numeral.
\<close>

fun elementNumber :: "js_env \<Rightarrow> jsval \<Rightarrow> jsnum" where
  "elementNumber J JUndefined = Fin 0"
| "elementNumber J JNull = Fin 0"
| "elementNumber J (JNum x) = x"
| "elementNumber J (JBigInt i) = je_double J (of_int i)"
| "elementNumber J (JStr s) = stringToNumber J s"
| "elementNumber J (JArr []) = Fin 0"
| "elementNumber J (JArr [v]) = elementNumber J v"
| "elementNumber J _ = NaN"

fun toNumber :: "js_env \<Rightarrow> jsval \<Rightarrow> jsnum" where
  "toNumber J JUndefined = NaN"
| "toNumber J (JBool b) = Fin (if b then 1 else 0)"
| "toNumber J v = elementNumber J v"

text \<open>\<open>Math.min(Math.floor(x), 30_000)\<close> of a finite number.\<close>

fun capMs :: "jsnum \<Rightarrow> jsnum" where
  "capMs (Fin x) = NInt (min \<lfloor>x\<rfloor> 30000)"
| "capMs PosInf = NInt 30000"
| "capMs x = x"

definition retryAfterOf :: "js_env \<Rightarrow> fields \<Rightarrow> jsnum option" where
  "retryAfterOf J v =
     (case fieldOf v ''retryAfterMs'' of
        JNum (Fin x) \<Rightarrow> if 0 \<le> x then Some (capMs (Fin x)) else None
      | _ \<Rightarrow> None)"

definition retryHeaderOf :: "js_env \<Rightarrow> fields \<Rightarrow> jsnum option" where
  "retryHeaderOf J v =
     (case fieldOf (toRecord J (fieldOf v ''headers'')) ''get'' of
        JFun f \<Rightarrow>
          (case toNumber J (je_get J f ''retry-after'') of
             Fin seconds \<Rightarrow> if 0 \<le> seconds then Some (capMs (je_double J (seconds * 1000))) else None
           | _ \<Rightarrow> None)
      | _ \<Rightarrow> None)"

definition getRetryAfterMs :: "js_env \<Rightarrow> error_record list \<Rightarrow> jsnum option" where
  "getRetryAfterMs J chain =
     firstSome (\<lambda>r. orOption (retryAfterOf J (er_value r)) (retryHeaderOf J (er_value r))) chain"

section \<open>Redaction of causes\<close>

definition safeCauseNames :: "string list" where
  "safeCauseNames =
     [''Error'', ''TypeError'', ''RangeError'', ''DOMException'', ''AbortError'', ''UserRejectedRequestError'',
      ''TimeoutError'', ''WaitForTransactionReceiptTimeoutError'', ''LimitExceededRpcError'',
      ''ChainMismatchError'', ''ChainNotFoundError'', ''SwitchChainError'',
      ''ReplacementTransactionUnderpricedError'', ''NonceTooLowError'', ''NonceTooHighError'',
      ''FeeCapTooLowError'', ''TipAboveFeeCapError'', ''InsufficientFundsError'',
      ''ContractFunctionRevertedError'', ''ExecutionRevertedError'', ''RawContractError'',
      ''CallExecutionError'', ''EstimateGasExecutionError'', ''SimulationError'',
      ''ContractFunctionZeroDataError'', ''AbiFunctionNotFoundError'', ''HttpRequestError'',
      ''WebSocketRequestError'', ''SocketClosedError'', ''NetworkError'', ''FetchError'',
      ''InvalidParamsRpcError'', ''InternalRpcError'', ''RpcRequestError'']"

definition safeCauseCodes :: "string list" where
  "safeCauseCodes =
     [''ABORT_ERR'', ''ECONNREFUSED'', ''ECONNRESET'', ''ENETUNREACH'', ''ETIMEDOUT'', ''EAI_AGAIN'',
      ''ERR_NETWORK'', ''ERR_CANCELED'', ''ERR_ABORTED'']"

fun safeCauseName :: "jsval \<Rightarrow> string" where
  "safeCauseName (JStr s) = (if s \<in> set safeCauseNames then s else ''Error'')"
| "safeCauseName _ = ''Error''"

fun safeCauseCode :: "jsval \<Rightarrow> jsval option" where
  "safeCauseCode (JNum x) = (if num_isFinite x then Some (JNum x) else None)"
| "safeCauseCode (JStr s) = (if s \<in> set safeCauseCodes then Some (JStr s) else None)"
| "safeCauseCode _ = None"

text \<open>\<open>toToriumErrorCause\<close>, with the number of levels that the limit of five still allows.\<close>

fun errorCauseFrom :: "js_env \<Rightarrow> nat \<Rightarrow> nat list \<Rightarrow> jsval \<Rightarrow> error_cause option" where
  "errorCauseFrom J 0 visited error = None"
| "errorCauseFrom J (Suc n) visited error =
     (if isNullish error \<or> visitedHas visited error then None
      else let v = toRecord J error; name = safeCauseName (fieldOf v ''name'')
           in Some (ErrorCause name (''Upstream '' @ name @ '' details were redacted.'')
                (safeCauseCode (fieldOf v ''code''))
                (errorCauseFrom J n (visitedAdd visited error) (fieldOf v ''cause''))))"

definition toToriumErrorCause :: "js_env \<Rightarrow> jsval \<Rightarrow> error_cause option" where
  "toToriumErrorCause J error = errorCauseFrom J 5 [] error"


section \<open>Construction\<close>

definition newToriumSdkError :: "js_env \<Rightarrow> sdk_options \<Rightarrow> sdk_error" where
  "newToriumSdkError J opts =
     \<lparr>se_name = ''ToriumSdkError'', se_message = orElse (so_message opts) (defaultMessage (so_category opts)),
      se_code = so_code opts, se_category = so_category opts, se_operation = so_operation opts, se_kind = so_kind opts,
      se_clientKind = so_clientKind opts, se_method = so_method opts, se_chainId = so_chainId opts,
      se_requestId = so_requestId opts, se_retryable = orElse (so_retryable opts) False,
      se_safeToRetry = orElse (so_safeToRetry opts) False, se_rpcCode = so_rpcCode opts,
      se_httpStatus = so_httpStatus opts, se_retryAfterMs = so_retryAfterMs opts, se_revertData = so_revertData opts,
      se_revertReason = so_revertReason opts, se_issues = so_issues opts, se_cause = toToriumErrorCause J (so_cause opts),
      se_expected = None, se_actual = None, se_contractName = None, se_address = None, se_errorName = None,
      se_errorArgs = None\<rparr>"

record endpoint_options =
  eo_expected :: "jsval option"
  eo_actual :: "jsval option"
  eo_cause :: jsval
  eo_method :: "string option"
  eo_operation :: "string option"
  eo_clientKind :: "client_kind option"
  eo_chainId :: "int option"
  eo_requestId :: "string option"
  eo_category :: "category option"
  eo_retryable :: "bool option"
  eo_rpcCode :: "jsnum option"
  eo_httpStatus :: "jsnum option"
  eo_retryAfterMs :: "jsnum option"

definition endpointOptions :: endpoint_options where
  "endpointOptions =
     \<lparr>eo_expected = None, eo_actual = None, eo_cause = JUndefined, eo_method = None, eo_operation = None,
      eo_clientKind = None, eo_chainId = None, eo_requestId = None, eo_category = None, eo_retryable = None,
      eo_rpcCode = None, eo_httpStatus = None, eo_retryAfterMs = None\<rparr>"

definition newEndpointError :: "js_env \<Rightarrow> string \<Rightarrow> string \<Rightarrow> endpoint_options \<Rightarrow> sdk_error" where
  "newEndpointError J errorCode message opts =
     (let category = orElse (eo_category opts) (endpointCategory errorCode);
          retryable = orElse (eo_retryable opts) (errorCode = ''TORIUM_RPC_REQUEST_FAILED'')
      in (newToriumSdkError J ((sdkOptions errorCode category)
            \<lparr>so_message := Some message, so_cause := eo_cause opts, so_method := eo_method opts,
             so_operation := Some (orElse (eo_operation opts) ''validateToriumEndpoint''), so_kind := Some Read,
             so_clientKind := Some (orElse (eo_clientKind opts) EndpointClient), so_chainId := eo_chainId opts,
             so_requestId := eo_requestId opts, so_retryable := Some retryable, so_safeToRetry := Some retryable,
             so_rpcCode := eo_rpcCode opts, so_httpStatus := eo_httpStatus opts, so_retryAfterMs := eo_retryAfterMs opts\<rparr>))
         \<lparr>se_name := ''ToriumEndpointValidationError'', se_expected := eo_expected opts, se_actual := eo_actual opts\<rparr>)"

text \<open>\<open>toJSON\<close>, with the absent fields left out as \<open>removeUndefined\<close> does.\<close>

fun client_kind_text :: "client_kind \<Rightarrow> string" where
  "client_kind_text EndpointClient = ''endpoint''"
| "client_kind_text PublicClient = ''public''"
| "client_kind_text WalletClient = ''wallet''"
| "client_kind_text ContractClient = ''contract''"

fun operation_kind_text :: "operation_kind \<Rightarrow> string" where
  "operation_kind_text Read = ''read''"
| "operation_kind_text Write = ''write''"
| "operation_kind_text Broadcast = ''broadcast''"

definition optionField :: "string \<Rightarrow> ('a \<Rightarrow> jsval) \<Rightarrow> 'a option \<Rightarrow> fields" where
  "optionField k f m = (case m of None \<Rightarrow> [] | Some x \<Rightarrow> [(k, f x)])"

fun causeValue :: "error_cause \<Rightarrow> jsval" where
  "causeValue (ErrorCause name message c cause) =
     JObj ([(''name'', JStr name), (''message'', JStr message)] @ optionField ''code'' id c @
           (case cause of None \<Rightarrow> [] | Some e \<Rightarrow> [(''cause'', causeValue e)]))"

definition sdkErrorToJSON :: "sdk_error \<Rightarrow> fields" where
  "sdkErrorToJSON e =
     [(''name'', JStr (se_name e)), (''message'', JStr (se_message e)), (''code'', JStr (se_code e)),
      (''category'', JStr (category_text (se_category e)))] @
     optionField ''operation'' JStr (se_operation e) @
     optionField ''kind'' (JStr \<circ> operation_kind_text) (se_kind e) @
     optionField ''clientKind'' (JStr \<circ> client_kind_text) (se_clientKind e) @
     optionField ''method'' JStr (se_method e) @ optionField ''chainId'' JInt (se_chainId e) @
     optionField ''requestId'' JStr (se_requestId e) @
     [(''retryable'', JBool (se_retryable e)), (''safeToRetry'', JBool (se_safeToRetry e))] @
     optionField ''rpcCode'' JNum (se_rpcCode e) @ optionField ''httpStatus'' JNum (se_httpStatus e) @
     optionField ''retryAfterMs'' JNum (se_retryAfterMs e) @ optionField ''revertData'' JStr (se_revertData e) @
     optionField ''revertReason'' JStr (se_revertReason e) @
     optionField ''issues'' (JArr \<circ> map JStr) (se_issues e) @ optionField ''cause'' causeValue (se_cause e) @
     optionField ''expected'' id (se_expected e) @ optionField ''actual'' id (se_actual e)"

section \<open>Thrown values and their normalisation\<close>

text \<open>
  What a \<open>catch\<close> receives: an error of the SDK, which \<open>instanceof\<close> recognises, or any other value.  As an
  object, an error of the SDK has the properties that its JSON shows.
\<close>

datatype thrown = Sdk sdk_error | Val jsval

fun thrownValue :: "thrown \<Rightarrow> jsval" where
  "thrownValue (Sdk e) = JObj (sdkErrorToJSON e)"
| "thrownValue (Val v) = v"

text \<open>An error of the language as an object.\<close>

fun exnValue :: "js_exn \<Rightarrow> jsval" where
  "exnValue (TypeError m) = JObj [(''name'', JStr ''TypeError''), (''message'', JStr m)]"
| "exnValue (RangeError m) = JObj [(''name'', JStr ''RangeError''), (''message'', JStr m)]"
| "exnValue (SyntaxError m) = JObj [(''name'', JStr ''SyntaxError''), (''message'', JStr m)]"
| "exnValue (PlainError m) = JObj [(''name'', JStr ''Error''), (''message'', JStr m)]"

abbreviation throwExn :: "js_exn \<Rightarrow> thrown" where
  "throwExn e \<equiv> Val (exnValue e)"

fun isToriumSdkError :: "thrown \<Rightarrow> bool" where
  "isToriumSdkError (Sdk e) = True"
| "isToriumSdkError (Val v) = False"

text \<open>\<open>/^[a-z0-9_.:-]+$/iu\<close>\<close>

definition label_rx :: rx where
  "label_rx = anchored (rplus (Cls (\<lambda>c. is_lower c \<or> is_upper c \<or> is_digit c \<or> c \<in> set ''_.:-'')))"

definition labelValid :: "string option \<Rightarrow> bool" where
  "labelValid m = (case m of None \<Rightarrow> True | Some s \<Rightarrow> 1 \<le> length s \<and> length s \<le> 96 \<and> rx_test label_rx s)"

definition assertContext :: "error_context \<Rightarrow> js_exn + unit" where
  "assertContext context =
     bindR (throwIf (\<not> labelValid (Some (cx_operation context))) (TypeError ''Torium diagnostic operation is invalid.''))
       (\<lambda>_. bindR (throwIf (\<not> labelValid (cx_method context)) (TypeError ''Torium diagnostic method is invalid.''))
         (\<lambda>_. throwIf (\<not> labelValid (cx_requestId context)) (TypeError ''Torium diagnostic requestId is invalid.'')))"

definition normalizeValue :: "js_env \<Rightarrow> jsval \<Rightarrow> error_context \<Rightarrow> sdk_error" where
  "normalizeValue J error context =
     (let chain = errorChain J error;
          category = classify chain context;
          rpcCode = firstNumber chain ''code'';
          httpStatus = firstNumber chain ''status'';
          retryAfterMs = getRetryAfterMs J chain;
          retryable = isTransient category rpcCode httpStatus
      in newToriumSdkError J ((sdkOptions (categoryCode category) category)
           \<lparr>so_message := Some (defaultMessage category), so_cause := error,
            so_operation := Some (cx_operation context), so_kind := Some (cx_kind context),
            so_clientKind := cx_clientKind context, so_method := cx_method context,
            so_chainId := cx_chainId context, so_requestId := cx_requestId context,
            so_retryable := Some retryable, so_safeToRetry := Some (cx_kind context = Read \<and> retryable),
            so_rpcCode := rpcCode, so_httpStatus := httpStatus, so_retryAfterMs := retryAfterMs,
            so_revertData := firstRevertData J chain, so_revertReason := firstSafeString chain ''reason''\<rparr>))"

definition normalizeToriumError :: "js_env \<Rightarrow> thrown \<Rightarrow> error_context \<Rightarrow> js_exn + sdk_error" where
  "normalizeToriumError J error context =
     bindR (assertContext context) (\<lambda>_.
       case error of Sdk e \<Rightarrow> Inr e | Val v \<Rightarrow> Inr (normalizeValue J v context))"


section \<open>Properties\<close>

lemma newToriumSdkError_simps [simp]:
  "se_message (newToriumSdkError J opts) = orElse (so_message opts) (defaultMessage (so_category opts))"
  "se_code (newToriumSdkError J opts) = so_code opts"
  "se_category (newToriumSdkError J opts) = so_category opts"
  "se_operation (newToriumSdkError J opts) = so_operation opts"
  "se_kind (newToriumSdkError J opts) = so_kind opts"
  "se_retryable (newToriumSdkError J opts) = orElse (so_retryable opts) False"
  "se_safeToRetry (newToriumSdkError J opts) = orElse (so_safeToRetry opts) False"
  "se_retryAfterMs (newToriumSdkError J opts) = so_retryAfterMs opts"
  "se_cause (newToriumSdkError J opts) = toToriumErrorCause J (so_cause opts)"
  "se_name (newToriumSdkError J opts) = ''ToriumSdkError''"
  by (simp_all add: newToriumSdkError_def)

lemma sdkOptions_simps [simp]:
  "so_code (sdkOptions c k) = c" "so_category (sdkOptions c k) = k" "so_message (sdkOptions c k) = None"
  "so_cause (sdkOptions c k) = JUndefined" "so_retryable (sdkOptions c k) = None"
  "so_safeToRetry (sdkOptions c k) = None" "so_retryAfterMs (sdkOptions c k) = None"
  "so_operation (sdkOptions c k) = None" "so_kind (sdkOptions c k) = None"
  by (simp_all add: sdkOptions_def)

lemma normalizeValue_simps [simp]:
  "se_category (normalizeValue J v cx) = classify (errorChain J v) cx"
  "se_code (normalizeValue J v cx) = categoryCode (classify (errorChain J v) cx)"
  "se_message (normalizeValue J v cx) = defaultMessage (classify (errorChain J v) cx)"
  "se_retryable (normalizeValue J v cx) =
     isTransient (classify (errorChain J v) cx) (firstNumber (errorChain J v) ''code'')
       (firstNumber (errorChain J v) ''status'')"
  "se_safeToRetry (normalizeValue J v cx) \<longleftrightarrow> cx_kind cx = Read \<and> se_retryable (normalizeValue J v cx)"
  "se_retryAfterMs (normalizeValue J v cx) = getRetryAfterMs J (errorChain J v)"
  "se_cause (normalizeValue J v cx) = toToriumErrorCause J v"
  "se_operation (normalizeValue J v cx) = Some (cx_operation cx)"
  by (simp_all add: normalizeValue_def Let_def)

lemma normalizeToriumError_Val:
  "normalizeToriumError J (Val v) cx = Inr e \<longleftrightarrow> assertContext cx = Inr () \<and> e = normalizeValue J v cx"
  by (auto simp: normalizeToriumError_def bindR_Inr_iff)

text \<open>A cause of which nothing but white-listed names and codes is left, and its number of levels.\<close>

fun cause_redacted :: "error_cause \<Rightarrow> bool" where
  "cause_redacted (ErrorCause name message c cause) \<longleftrightarrow>
     name \<in> set safeCauseNames \<and> message = ''Upstream '' @ name @ '' details were redacted.'' \<and>
     (case c of None \<Rightarrow> True | Some (JNum x) \<Rightarrow> num_isFinite x | Some (JStr s) \<Rightarrow> s \<in> set safeCauseCodes | _ \<Rightarrow> False) \<and>
     (case cause of None \<Rightarrow> True | Some e \<Rightarrow> cause_redacted e)"

fun cause_levels :: "error_cause \<Rightarrow> nat" where
  "cause_levels (ErrorCause name message c cause) =
     Suc (case cause of None \<Rightarrow> 0 | Some e \<Rightarrow> cause_levels e)"

lemma safeCauseName_safe: "safeCauseName v \<in> set safeCauseNames"
  by (cases v) (simp_all add: safeCauseNames_def)

lemma safeCauseCode_safe:
  "case safeCauseCode v of None \<Rightarrow> True | Some (JNum x) \<Rightarrow> num_isFinite x
     | Some (JStr s) \<Rightarrow> s \<in> set safeCauseCodes | _ \<Rightarrow> False"
  by (cases v) auto

lemma errorCauseFrom_redacted:
  "errorCauseFrom J n visited v = Some c \<Longrightarrow> cause_redacted c \<and> cause_levels c \<le> n"
proof (induction n arbitrary: visited v c)
  case (Suc n)
  let ?r = "toRecord J v"
  let ?rest = "errorCauseFrom J n (visitedAdd visited v) (fieldOf ?r ''cause'')"
  have c: "c = ErrorCause (safeCauseName (fieldOf ?r ''name''))
      (''Upstream '' @ safeCauseName (fieldOf ?r ''name'') @ '' details were redacted.'')
      (safeCauseCode (fieldOf ?r ''code'')) ?rest"
    using Suc.prems by (simp add: Let_def split: if_splits)
  show ?case
    unfolding c using Suc.IH safeCauseName_safe safeCauseCode_safe [of "fieldOf ?r ''code''"]
    by (cases ?rest) auto
qed simp

text \<open>
  C30: Whatever an upstream error holds, and however its causes are linked, in a cycle too, the error
  that the SDK makes of it shows a fixed message and a chain of at most five causes made of white-listed
  names and codes only: no text of the upstream error leaves the SDK through message or cause.
\<close>

theorem normalized_error_redacted:
  assumes "normalizeToriumError J (Val v) context = Inr e"
  shows "se_message e = defaultMessage (se_category e) \<and> se_code e = categoryCode (se_category e) \<and>
    (case se_cause e of None \<Rightarrow> isNullish v | Some c \<Rightarrow> cause_redacted c \<and> cause_levels c \<le> 5)"
proof -
  have e: "e = normalizeValue J v context" using assms by (simp add: normalizeToriumError_Val)
  have "isNullish v" if "toToriumErrorCause J v = None"
    using that by (cases v) (auto simp: toToriumErrorCause_def numeral_eq_Suc Let_def isNullish_def split: if_splits)
  then show ?thesis
    using errorCauseFrom_redacted [of J 5 "[]" v] by (auto simp: e toToriumErrorCause_def split: option.splits)
qed

text \<open>A cyclic upstream error, for the witnesses.\<close>

definition sample_js :: js_env where
  "sample_js =
     \<lparr>je_heap = (\<lambda>a. [(''name'', JStr ''HttpRequestError''), (''message'', JStr ''GET https://user:pw@host''),
                      (''status'', JInt 503), (''cause'', JRef a), (''headers'', JObj [(''get'', JFun 0)])]),
      je_get = (\<lambda>f name. JNull),
      je_double = Fin\<rparr>"

definition sample_context :: error_context where
  "sample_context =
     \<lparr>cx_operation = ''getBlock'', cx_kind = Read, cx_clientKind = Some PublicClient, cx_method = None,
      cx_chainId = None, cx_requestId = None, cx_fallbackCategory = None\<rparr>"

lemma sample_context_ok: "assertContext sample_context = Inr ()"
  by code_simp

lemma sample_normalized:
  "normalizeToriumError sample_js (Val (JRef 7)) sample_context = Inr (normalizeValue sample_js (JRef 7) sample_context)"
  by (simp add: normalizeToriumError_Val sample_context_ok)

theorem normalized_error_redacted_witness:
  "se_message (normalizeValue sample_js (JRef 7) sample_context) =
     defaultMessage (se_category (normalizeValue sample_js (JRef 7) sample_context))"
  using normalized_error_redacted [OF sample_normalized] by simp


lemma isTransient_category:
  "isTransient k c s \<Longrightarrow> k \<in> {Transport, RateLimit, Timeout, Rpc}"
  unfolding isTransient_def by (cases k) simp_all

lemma classify_4001:
  assumes "r \<in> set chain" "fieldOf (er_value r) ''code'' = JInt 4001"
  shows "classify chain cx = Cancellation"
proof -
  have "fieldOf (er_value r) ''code'' \<in> set (map (\<lambda>r. fieldOf (er_value r) ''code'') chain)"
    using assms(1) by simp
  then have "JInt 4001 \<in> set (map (\<lambda>r. fieldOf (er_value r) ''code'') chain)"
    by (simp only: assms(2))
  then show ?thesis unfolding classify_def Let_def by simp
qed

text \<open>
  C31: An upstream error is marked safe to retry only for a read, and only in the transient
  categories; an error that carries the code 4001 of a rejected request anywhere in the part of its
  chain that is examined is a cancellation and is never retried.
\<close>

theorem retry_only_transient_reads:
  assumes "normalizeToriumError J (Val v) context = Inr e"
  shows "(se_safeToRetry e \<longrightarrow> cx_kind context = Read \<and> se_retryable e \<and>
      se_category e \<in> {Transport, RateLimit, Timeout, Rpc}) \<and>
    ((\<exists>r \<in> set (errorChain J v). fieldOf (er_value r) ''code'' = JInt 4001) \<longrightarrow>
      se_category e = Cancellation \<and> \<not> se_retryable e \<and> \<not> se_safeToRetry e)"
proof -
  have e: "e = normalizeValue J v context" using assms by (simp add: normalizeToriumError_Val)
  have t: "se_category e \<in> {Transport, RateLimit, Timeout, Rpc}" if "se_retryable e"
    by (rule isTransient_category) (use that in \<open>simp only: e normalizeValue_simps\<close>)
  have c: "se_category e = Cancellation" if "r \<in> set (errorChain J v)" "fieldOf (er_value r) ''code'' = JInt 4001" for r
    using classify_4001 [OF that] by (simp add: e)
  have "se_safeToRetry e \<longleftrightarrow> cx_kind context = Read \<and> se_retryable e" by (simp add: e)
  with t c show ?thesis by auto
qed

definition rejection_js :: js_env where
  "rejection_js = sample_js\<lparr>je_heap := (\<lambda>a. if a = 0 then [(''name'', JStr ''RpcRequestError''), (''cause'', JRef 1)]
                                          else [(''code'', JInt 4001)])\<rparr>"

lemma rejection_chain: "errorRecord rejection_js (JRef 1) \<in> set (errorChain rejection_js (JRef 0))"
  by (simp add: errorChain_def numeral_eq_Suc rejection_js_def isNullish_def)

theorem retry_only_transient_reads_witness:
  "se_category (normalizeValue rejection_js (JRef 0) sample_context) = Cancellation"
proof -
  have n: "normalizeToriumError rejection_js (Val (JRef 0)) sample_context =
      Inr (normalizeValue rejection_js (JRef 0) sample_context)"
    by (simp add: normalizeToriumError_Val sample_context_ok)
  have "fieldOf (er_value (errorRecord rejection_js (JRef 1))) ''code'' = JInt 4001"
    by (simp add: errorRecord_def rejection_js_def Let_def)
  with retry_only_transient_reads [OF n] rejection_chain show ?thesis by blast
qed

text \<open>Rounding to a double keeps the sign.\<close>

definition double_sign :: "js_env \<Rightarrow> bool" where
  "double_sign J \<longleftrightarrow> (\<forall>x \<ge> 0. je_double J x = PosInf \<or> (\<exists>y \<ge> 0. je_double J x = Fin y))"

lemma capMs_bound: "0 \<le> x \<Longrightarrow> \<exists>n. capMs (Fin x) = NInt n \<and> 0 \<le> n \<and> n \<le> 30000"
  by (rule exI [of _ "min \<lfloor>x\<rfloor> 30000"]) (simp add: zero_le_floor)

lemma firstSome_in: "firstSome f xs = Some y \<Longrightarrow> \<exists>x \<in> set xs. f x = Some y"
  by (induction xs) (auto split: option.splits)

lemma retryHint_bound:
  assumes "double_sign J" "retryAfterOf J v = Some r \<or> retryHeaderOf J v = Some r"
  shows "\<exists>n. r = NInt n \<and> 0 \<le> n \<and> n \<le> 30000"
  using assms(2)
proof
  assume "retryAfterOf J v = Some r"
  then obtain x where "0 \<le> x" "r = capMs (Fin x)"
    by (auto simp: retryAfterOf_def split: jsval.splits jsnum.splits if_splits)
  then show ?thesis using capMs_bound by simp
next
  assume "retryHeaderOf J v = Some r"
  then obtain x where "0 \<le> x" and r: "r = capMs (je_double J (x * 1000))"
    by (auto simp: retryHeaderOf_def split: jsval.splits jsnum.splits if_splits)
  then have "je_double J (x * 1000) = PosInf \<or> (\<exists>y \<ge> 0. je_double J (x * 1000) = Fin y)"
    using assms(1) by (simp add: double_sign_def)
  then show ?thesis using r capMs_bound by (elim disjE exE) (auto intro: exI [of _ 30000])
qed

text \<open>
  The delay that an upstream error asks for is an integral number of milliseconds between zero and
  30 seconds, whatever number, text or header value it comes from.
\<close>

theorem retry_hint_bounded:
  assumes "double_sign J" "normalizeToriumError J (Val v) context = Inr e" "se_retryAfterMs e = Some r"
  shows "\<exists>n. r = NInt n \<and> 0 \<le> n \<and> n \<le> 30000"
proof -
  have "getRetryAfterMs J (errorChain J v) = Some r"
    using assms(2,3) by (auto simp: normalizeToriumError_Val)
  from firstSome_in [OF this [unfolded getRetryAfterMs_def]] obtain rec :: error_record where
    "orOption (retryAfterOf J (er_value rec)) (retryHeaderOf J (er_value rec)) = Some r" by blast
  then have "retryAfterOf J (er_value rec) = Some r \<or> retryHeaderOf J (er_value rec) = Some r"
    by (simp split: option.splits)
  with assms(1) show ?thesis by (rule retryHint_bound)
qed

lemma retryHeader_missing:
  assumes "fieldOf (toRecord J (fieldOf v ''headers'')) ''get'' = JFun f" "je_get J f ''retry-after'' = JNull"
    "je_double J 0 = Fin 0"
  shows "retryHeaderOf J v = Some (Fin 0)"
  using assms by (simp add: retryHeaderOf_def)

lemma sample_retry_hint: "se_retryAfterMs (normalizeValue sample_js (JRef 7) sample_context) = Some (NInt 0)"
proof -
  have "getRetryAfterMs sample_js (errorChain sample_js (JRef 7)) = Some (Fin 0)"
    by (simp add: errorChain_def numeral_eq_Suc getRetryAfterMs_def retryAfterOf_def retryHeader_missing
        errorRecord_def sample_js_def isNullish_def)
  then show ?thesis by simp
qed

theorem retry_hint_bounded_witness:
  "\<exists>n. (NInt 0 :: jsnum) = NInt n \<and> 0 \<le> n \<and> n \<le> 30000 \<and>
     se_retryAfterMs (normalizeValue sample_js (JRef 7) sample_context) = Some (NInt n)"
proof -
  have d: "double_sign sample_js" by (simp add: double_sign_def sample_js_def)
  from retry_hint_bounded [OF d sample_normalized sample_retry_hint] sample_retry_hint show ?thesis by auto
qed

text \<open>
  C35: A response without the header \<open>retry-after\<close> is treated as one that asks for a delay of zero:
  \<open>headers.get\<close> answers \<open>null\<close>, and \<open>Number(null)\<close> is zero.  The SDK then waits zero milliseconds
  instead of the exponential delay that the caller configured.
\<close>

theorem missing_retry_header_is_zero:
  assumes "assertContext context = Inr ()"
    and "fieldOf (toRecord J v) ''retryAfterMs'' = JUndefined" "\<not> isNullish v"
    and "fieldOf (toRecord J (fieldOf (toRecord J v) ''headers'')) ''get'' = JFun f"
    and "je_get J f ''retry-after'' = JNull" "je_double J 0 = Fin 0"
  shows "\<exists>e. normalizeToriumError J (Val v) context = Inr e \<and> se_retryAfterMs e = Some (NInt 0)"
proof -
  have "er_value (errorRecord J v) = toRecord J v" by (simp add: errorRecord_def Let_def)
  moreover have "\<exists>rest. errorChain J v = errorRecord J v # rest"
    using assms(3) by (cases v) (auto simp: errorChain_def numeral_eq_Suc)
  ultimately have "getRetryAfterMs J (errorChain J v) = Some (Fin 0)"
    using assms retryHeader_missing [OF assms(4-6)]
    by (auto simp: getRetryAfterMs_def retryAfterOf_def)
  with assms(1) show ?thesis by (simp add: normalizeToriumError_Val)
qed

theorem missing_retry_header_is_zero_witness:
  "\<exists>e. normalizeToriumError sample_js (Val (JRef 7)) sample_context = Inr e \<and> se_retryAfterMs e = Some (NInt 0)"
  by (rule missing_retry_header_is_zero [OF sample_context_ok, of _ _ 0]) (simp_all add: sample_js_def isNullish_def)

end
