(* ===== verification/Execution.thy ===== *)
theory Execution
  imports Errors
begin

text \<open>
  The execution of actions, \<^verbatim>\<open>packages/torium-sdk/src/internal/execution.ts\<close>: validation of the controls,
  time-out and cancellation, retries of reads, and the diagnostic events.

  An asynchronous function is a step on a \<open>world\<close>: a clock in milliseconds, the trace of the calls
  that left the SDK, and the diagnostic events that a hook received.  What a call answers, and how long
  it takes, is up to the environment \<open>ev_call\<close>.  An \<open>AbortSignal\<close> is the time at which it aborts, if it
  does; a timer or signal due at the moment a promise settles counts as fired.
\<close>

section \<open>Worlds and asynchronous steps\<close>

record diag_event =
  de_phase :: string
  de_clientKind :: client_kind
  de_operation :: string
  de_method :: "string option"
  de_chainId :: "int option"
  de_requestId :: "string option"
  de_attempt :: nat
  de_durationMs :: nat
  de_code :: "string option"
  de_category :: "category option"
  de_retryable :: "bool option"
  de_rpcCode :: "jsnum option"
  de_httpStatus :: "jsnum option"
  de_retryAfterMs :: "jsnum option"

record world =
  w_clock :: nat
  w_trace :: "(string \<times> jsval list) list"
  w_events :: "diag_event list"

record env =
  ev_js :: js_env
  ev_call :: "nat \<Rightarrow> string \<Rightarrow> jsval list \<Rightarrow> nat \<times> (thrown + jsval)"
  ev_random :: "nat \<Rightarrow> real"

type_synonym 'a proc = "world \<Rightarrow> (thrown + 'a) \<times> world"

type_synonym signal = "nat option"

definition returnP :: "'a \<Rightarrow> 'a proc" where
  "returnP x w = (Inr x, w)"

definition throwP :: "thrown \<Rightarrow> 'a proc" where
  "throwP e w = (Inl e, w)"

definition bindP :: "'a proc \<Rightarrow> ('a \<Rightarrow> 'b proc) \<Rightarrow> 'b proc" where
  "bindP m f w = (case m w of (Inl e, w') \<Rightarrow> (Inl e, w') | (Inr x, w') \<Rightarrow> f x w')"

definition tryP :: "'a proc \<Rightarrow> (thrown \<Rightarrow> 'a proc) \<Rightarrow> 'a proc" where
  "tryP m h w = (case m w of (Inl e, w') \<Rightarrow> h e w' | (Inr x, w') \<Rightarrow> (Inr x, w'))"

definition liftP :: "thrown + 'a \<Rightarrow> 'a proc" where
  "liftP r w = (r, w)"

definition liftExn :: "js_exn + 'a \<Rightarrow> 'a proc" where
  "liftExn r = liftP (mapErr (\<lambda>e. Val (exnValue e)) r)"

text \<open>A call that leaves the SDK: a request to an endpoint, or a function of the caller.\<close>

definition callExt :: "env \<Rightarrow> string \<Rightarrow> jsval list \<Rightarrow> jsval proc" where
  "callExt E name args w =
     (case ev_call E (length (w_trace w)) name args of
        (d, r) \<Rightarrow> (r, w\<lparr>w_clock := w_clock w + d, w_trace := w_trace w @ [(name, args)]\<rparr>))"

definition abortedAt :: "signal \<Rightarrow> nat \<Rightarrow> bool" where
  "abortedAt sig t = (case sig of None \<Rightarrow> False | Some a \<Rightarrow> a \<le> t)"

section \<open>Validated controls\<close>

record retry_options =
  ro_maxAttempts :: "jsnum option"
  ro_baseDelayMs :: "jsnum option"
  ro_maximumDelayMs :: "jsnum option"
  ro_jitterRatio :: "jsnum option"

record action_options =
  ao_signal :: "signal option"
  ao_timeoutMs :: "jsnum option"
  ao_requestId :: "string option"
  ao_diagnostics :: bool
  ao_retry :: "retry_options option"

record validated_retry =
  vr_maxAttempts :: nat
  vr_baseDelayMs :: int
  vr_maximumDelayMs :: int
  vr_jitterRatio :: real

definition maximumReadAttempts :: int where "maximumReadAttempts = 3"

definition maximumTimeoutMs :: int where "maximumTimeoutMs = 300000"

definition maximumBackoffMs :: int where "maximumBackoffMs = 30000"

definition validateTimeout :: "jsnum option \<Rightarrow> js_exn + nat option" where
  "validateTimeout v =
     (case v of
        None \<Rightarrow> Inr None
      | Some x \<Rightarrow>
          if \<not> num_isSafeInteger x \<or> num_lt x (Fin 1) \<or> num_lt (NInt maximumTimeoutMs) x
          then Inl (TypeError ''Torium action timeout must be an integer from 1 through 300000.'')
          else Inr (Some (nat (num_int x))))"

definition delayInvalid :: "jsnum \<Rightarrow> bool" where
  "delayInvalid x \<longleftrightarrow> \<not> num_isSafeInteger x \<or> num_lt x (Fin 0) \<or> num_lt (NInt maximumBackoffMs) x"

text \<open>The double that the literal \<open>0.2\<close> denotes.\<close>

definition defaultJitter :: real where
  "defaultJitter = 3602879701896397 / 18014398509481984"

definition validateRetry :: "retry_options option \<Rightarrow> js_exn + validated_retry" where
  "validateRetry v =
     (let field = (\<lambda>f d. orElse (Option.bind v f) d);
          maxAttempts = field ro_maxAttempts (Fin 1);
          baseDelayMs = field ro_baseDelayMs (Fin 150);
          maximumDelayMs = field ro_maximumDelayMs (Fin 2000);
          jitterRatio = field ro_jitterRatio (Fin defaultJitter)
      in if \<not> num_isInteger maxAttempts \<or> num_lt maxAttempts (Fin 1) \<or> num_lt (NInt maximumReadAttempts) maxAttempts
         then Inl (TypeError ''Torium read retry attempts must be from 1 through 3.'')
         else if delayInvalid baseDelayMs
         then Inl (TypeError ''Torium read retry base delay must be from 0 through 30000.'')
         else if delayInvalid maximumDelayMs
         then Inl (TypeError ''Torium read retry maximum delay must be from 0 through 30000.'')
         else if num_lt maximumDelayMs baseDelayMs
         then Inl (TypeError ''Torium read retry maximum delay is below its base delay.'')
         else case jitterRatio of
                Fin j \<Rightarrow>
                  if j < 0 \<or> j > 1 then Inl (TypeError ''Torium read retry jitter ratio must be from 0 through 1.'')
                  else Inr \<lparr>vr_maxAttempts = nat (num_int maxAttempts), vr_baseDelayMs = num_int baseDelayMs,
                            vr_maximumDelayMs = num_int maximumDelayMs, vr_jitterRatio = j\<rparr>
              | _ \<Rightarrow> Inl (TypeError ''Torium read retry jitter ratio must be from 0 through 1.''))"

text \<open>Multiplication and addition of doubles; no operand is infinite here.\<close>

fun num_mul :: "js_env \<Rightarrow> jsnum \<Rightarrow> jsnum \<Rightarrow> jsnum" where
  "num_mul J (Fin x) (Fin y) = je_double J (x * y)"
| "num_mul J _ _ = NaN"

fun num_add :: "js_env \<Rightarrow> jsnum \<Rightarrow> jsnum \<Rightarrow> jsnum" where
  "num_add J (Fin x) (Fin y) = je_double J (x + y)"
| "num_add J _ _ = NaN"

fun num_round :: "jsnum \<Rightarrow> jsnum" where
  "num_round (Fin x) = NInt \<lfloor>x + 1 / 2\<rfloor>"
| "num_round x = x"

text \<open>\<open>Math.max\<close> and \<open>Math.min\<close> with an integral first argument.\<close>

fun num_max :: "int \<Rightarrow> jsnum \<Rightarrow> jsnum" where
  "num_max n (Fin x) = Fin (max (of_int n) x)"
| "num_max n PosInf = PosInf"
| "num_max n NegInf = NInt n"
| "num_max n NaN = NaN"

fun num_min :: "int \<Rightarrow> jsnum \<Rightarrow> jsnum" where
  "num_min n (Fin x) = Fin (min (of_int n) x)"
| "num_min n PosInf = NInt n"
| "num_min n NegInf = NegInf"
| "num_min n NaN = NaN"

definition retryDelay :: "js_env \<Rightarrow> validated_retry \<Rightarrow> nat \<Rightarrow> jsnum option \<Rightarrow> real \<Rightarrow> jsnum" where
  "retryDelay J retry failure retryAfterMs random =
     (let exponential = min (vr_maximumDelayMs retry) (vr_baseDelayMs retry * 2 ^ (failure - 1));
          jitter = num_mul J (num_mul J (NInt exponential) (Fin (vr_jitterRatio retry)))
                     (num_add J (num_mul J (Fin random) (Fin 2)) (Fin (-1)))
      in num_min maximumBackoffMs (num_max 0
           (orElse retryAfterMs (num_round (num_add J (NInt exponential) jitter)))))"

section \<open>Errors of the execution\<close>

definition configurationError :: "js_env \<Rightarrow> jsval \<Rightarrow> error_context \<Rightarrow> sdk_error" where
  "configurationError J cause cx =
     newToriumSdkError J ((sdkOptions ''TORIUM_CONFIG_INVALID'' Configuration)
       \<lparr>so_message := Some ''The Torium action controls are invalid.'', so_cause := cause,
        so_operation := Some (cx_operation cx), so_kind := Some (cx_kind cx), so_clientKind := cx_clientKind cx,
        so_method := cx_method cx, so_chainId := cx_chainId cx, so_requestId := cx_requestId cx,
        so_retryable := Some False, so_safeToRetry := Some False\<rparr>)"

definition labelError :: "js_env \<Rightarrow> string \<Rightarrow> error_context \<Rightarrow> sdk_error" where
  "labelError J label cx =
     newToriumSdkError J ((sdkOptions ''TORIUM_CONFIG_INVALID'' Configuration)
       \<lparr>so_message := Some (''The Torium action '' @ label @ '' is invalid.''),
        so_operation := Some (cx_operation cx), so_kind := Some (cx_kind cx), so_clientKind := cx_clientKind cx,
        so_method := (if label = ''method'' then None else cx_method cx), so_chainId := cx_chainId cx,
        so_retryable := Some False, so_safeToRetry := Some False\<rparr>)"

definition validateExecutionContext :: "js_env \<Rightarrow> error_context \<Rightarrow> sdk_error + unit" where
  "validateExecutionContext J cx =
     bindR (throwIf (\<not> labelValid (Some (cx_operation cx))) (labelError J ''operation'' cx)) (\<lambda>_.
     bindR (throwIf (\<not> labelValid (cx_method cx)) (labelError J ''method'' cx)) (\<lambda>_.
     throwIf (\<not> labelValid (cx_requestId cx)) (labelError J ''request ID'' cx)))"

text \<open>The cause of an SDK error is itself a cause, which \<open>toToriumErrorCause\<close> copies.\<close>

definition enforceOperationSafety :: "js_env \<Rightarrow> sdk_error \<Rightarrow> error_context \<Rightarrow> sdk_error" where
  "enforceOperationSafety J error cx =
     (if cx_kind cx = Read \<or> \<not> se_safeToRetry error then error
      else newToriumSdkError J
        \<lparr>so_code = se_code error, so_category = se_category error, so_message = Some (se_message error),
         so_cause = (case se_cause error of None \<Rightarrow> JUndefined | Some c \<Rightarrow> causeValue c),
         so_operation = Some (cx_operation cx), so_kind = Some (cx_kind cx),
         so_clientKind = orOption (cx_clientKind cx) (se_clientKind error),
         so_method = orOption (cx_method cx) (se_method error),
         so_chainId = orOption (cx_chainId cx) (se_chainId error),
         so_requestId = orOption (cx_requestId cx) (se_requestId error),
         so_retryable = Some (se_retryable error), so_safeToRetry = Some False,
         so_rpcCode = se_rpcCode error, so_httpStatus = se_httpStatus error,
         so_retryAfterMs = se_retryAfterMs error, so_revertData = se_revertData error,
         so_revertReason = se_revertReason error, so_issues = se_issues error\<rparr>)"

text \<open>\<open>controlError\<close>; without a context the fields are absent.\<close>

definition controlError :: "js_env \<Rightarrow> category \<Rightarrow> error_context option \<Rightarrow> sdk_error" where
  "controlError J category cx =
     newToriumSdkError J
       ((sdkOptions (if category = Timeout then ''TORIUM_TIMEOUT'' else ''TORIUM_CANCELLED'') category)
       \<lparr>so_message := Some (if category = Timeout then ''The Torium action exceeded its timeout.''
                           else ''The Torium action was cancelled.''),
        so_operation := map_option cx_operation cx, so_kind := map_option cx_kind cx,
        so_clientKind := Option.bind cx cx_clientKind, so_method := Option.bind cx cx_method,
        so_chainId := Option.bind cx cx_chainId, so_requestId := Option.bind cx cx_requestId,
        so_retryable := Some (category = Timeout), so_safeToRetry := Some False\<rparr>)"

section \<open>Signals\<close>

text \<open>
  The signal of an operation: \<open>os_abortAt\<close> is \<open>operation.signal\<close>, \<open>os_timeoutAt\<close> the moment at which
  \<open>timedOut\<close> is set, and \<open>os_direct\<close> tells that the signal of the caller is used as it is.
\<close>

record operation_signal =
  os_abortAt :: signal
  os_timeoutAt :: signal
  os_direct :: bool

fun earliest :: "signal \<Rightarrow> signal \<Rightarrow> signal" where
  "earliest None b = b"
| "earliest a None = a"
| "earliest (Some a) (Some b) = Some (min a b)"

definition createOperationSignal :: "signal option \<Rightarrow> nat option \<Rightarrow> nat \<Rightarrow> operation_signal" where
  "createOperationSignal sig timeoutMs startedAt =
     (case (timeoutMs, sig) of
        (None, Some s) \<Rightarrow> \<lparr>os_abortAt = s, os_timeoutAt = None, os_direct = True\<rparr>
      | _ \<Rightarrow>
          let timeoutAt = map_option (\<lambda>d. startedAt + d) timeoutMs
          in \<lparr>os_abortAt = earliest (orElse sig None) timeoutAt, os_timeoutAt = timeoutAt, os_direct = False\<rparr>)"

definition throwIfAborted :: "js_env \<Rightarrow> operation_signal \<Rightarrow> unit proc" where
  "throwIfAborted J op w =
     (if \<not> abortedAt (os_abortAt op) (w_clock w) then (Inr (), w)
      else (Inl (Sdk (controlError J (if abortedAt (os_timeoutAt op) (w_clock w) then Timeout else Cancellation) None)), w))"

definition normalizeOperation ::
  "js_env \<Rightarrow> operation_signal \<Rightarrow> nat \<Rightarrow> thrown \<Rightarrow> error_context \<Rightarrow> js_exn + sdk_error" where
  "normalizeOperation J op t error cx =
     (if os_direct op then
        (case error of
           Sdk e \<Rightarrow>
             if se_code e = ''TORIUM_RPC_ABORTED'' then Inr e
             else if abortedAt (os_abortAt op) t then Inr (controlError J Cancellation (Some cx))
             else Inr e
         | Val v \<Rightarrow>
             if abortedAt (os_abortAt op) t then Inr (controlError J Cancellation (Some cx))
             else normalizeToriumError J error cx)
      else if abortedAt (os_timeoutAt op) t then Inr (controlError J Timeout (Some cx))
      else case error of
             Sdk e \<Rightarrow> Inr e
           | Val v \<Rightarrow>
               if abortedAt (os_abortAt op) t then Inr (controlError J Cancellation (Some cx))
               else normalizeToriumError J error cx)"

text \<open>
  The race of a promise and a signal.  When the signal wins, the promise goes on in the background:
  what it still sends is part of the trace, while the caller goes on at the time of the signal.
\<close>

definition raceAbort :: "js_env \<Rightarrow> 'a proc \<Rightarrow> signal \<Rightarrow> 'a proc" where
  "raceAbort J pending sig w =
     (case pending w of
        (r, w') \<Rightarrow>
          (case sig of
             None \<Rightarrow> (r, w')
           | Some a \<Rightarrow>
               if a \<le> w_clock w'
               then (Inl (Sdk (controlError J Cancellation None)), w'\<lparr>w_clock := max (w_clock w) a\<rparr>)
               else (r, w')))"

definition waitForRetry :: "js_env \<Rightarrow> nat \<Rightarrow> signal \<Rightarrow> unit proc" where
  "waitForRetry J delayMs sig w =
     (case sig of
        Some a \<Rightarrow>
          if a \<le> w_clock w + delayMs
          then (Inl (Sdk (controlError J Cancellation None)), w\<lparr>w_clock := max (w_clock w) a\<rparr>)
          else (Inr (), w\<lparr>w_clock := w_clock w + delayMs\<rparr>)
      | None \<Rightarrow> (Inr (), w\<lparr>w_clock := w_clock w + delayMs\<rparr>))"

section \<open>Events\<close>

definition eventOf ::
  "error_context \<Rightarrow> string \<Rightarrow> nat \<Rightarrow> nat \<Rightarrow> nat \<Rightarrow> sdk_error option \<Rightarrow> diag_event" where
  "eventOf cx phase attempt startedAt now error =
     \<lparr>de_phase = phase, de_clientKind = orElse (cx_clientKind cx) PublicClient, de_operation = cx_operation cx,
      de_method = cx_method cx, de_chainId = cx_chainId cx, de_requestId = cx_requestId cx,
      de_attempt = attempt, de_durationMs = now - startedAt,
      de_code = map_option se_code error, de_category = map_option se_category error,
      de_retryable = map_option se_retryable error, de_rpcCode = Option.bind error se_rpcCode,
      de_httpStatus = Option.bind error se_httpStatus, de_retryAfterMs = Option.bind error se_retryAfterMs\<rparr>"

text \<open>A hook sees the event; whether it throws or rejects does not matter.\<close>

definition emit :: "bool \<Rightarrow> diag_event \<Rightarrow> world \<Rightarrow> world" where
  "emit diagnostics e w = (if diagnostics then w\<lparr>w_events := w_events w @ [e]\<rparr> else w)"

section \<open>Running an action\<close>

type_synonym 'a action = "nat \<Rightarrow> signal \<Rightarrow> 'a proc"

record run =
  rn_context :: error_context
  rn_diagnostics :: bool
  rn_allowRetry :: bool
  rn_retry :: validated_retry
  rn_signal :: operation_signal
  rn_raced :: bool
  rn_startedAt :: nat

definition emitPhase :: "run \<Rightarrow> string \<Rightarrow> nat \<Rightarrow> sdk_error option \<Rightarrow> world \<Rightarrow> world" where
  "emitPhase R phase attempt error w =
     emit (rn_diagnostics R) (eventOf (rn_context R) phase attempt (rn_startedAt R) (w_clock w) error) w"

text \<open>The body of the inner \<open>try\<close>, up to the event of success.\<close>

definition attemptOnce :: "js_env \<Rightarrow> run \<Rightarrow> 'a action \<Rightarrow> nat \<Rightarrow> 'a proc" where
  "attemptOnce J R action attempt =
     bindP (throwIfAborted J (rn_signal R)) (\<lambda>_.
       if rn_raced R then raceAbort J (action attempt (os_abortAt (rn_signal R))) (os_abortAt (rn_signal R))
       else action attempt (os_abortAt (rn_signal R)))"

definition safeError :: "js_env \<Rightarrow> run \<Rightarrow> nat \<Rightarrow> thrown \<Rightarrow> js_exn + sdk_error" where
  "safeError J R t error =
     bindR (normalizeOperation J (rn_signal R) t error (rn_context R)) (\<lambda>n.
       Inr (enforceOperationSafety J n (rn_context R)))"

fun delayOf :: "jsnum \<Rightarrow> nat" where
  "delayOf (Fin x) = nat \<lfloor>x\<rfloor>"
| "delayOf _ = 0"

text \<open>One turn of the loop: the loop is done, or it goes on with the next attempt.\<close>

datatype 'a turn = Done "(thrown + 'a) \<times> world" | Again world

definition failWith :: "run \<Rightarrow> nat \<Rightarrow> js_exn + sdk_error \<Rightarrow> world \<Rightarrow> (thrown + 'a) \<times> world" where
  "failWith R attempt r w =
     (case r of
        Inl exn \<Rightarrow> (Inl (throwExn exn), w)
      | Inr n \<Rightarrow> (Inl (Sdk n), emitPhase R ''failure'' attempt (Some n) w))"

definition mayRetry :: "run \<Rightarrow> nat \<Rightarrow> sdk_error \<Rightarrow> world \<Rightarrow> bool" where
  "mayRetry R attempt n w \<longleftrightarrow>
     \<not> (\<not> rn_allowRetry R \<or> \<not> se_safeToRetry n \<or> vr_maxAttempts (rn_retry R) \<le> attempt
        \<or> abortedAt (os_abortAt (rn_signal R)) (w_clock w))"

definition runTurn :: "env \<Rightarrow> run \<Rightarrow> 'a action \<Rightarrow> nat \<Rightarrow> world \<Rightarrow> 'a turn" where
  "runTurn E R action attempt w =
     (case attemptOnce (ev_js E) R action attempt w of
        (Inr x, w1) \<Rightarrow> Done (Inr x, emitPhase R ''success'' attempt None w1)
      | (Inl error, w1) \<Rightarrow>
          (case safeError (ev_js E) R (w_clock w1) error of
             Inl exn \<Rightarrow> Done (Inl (throwExn exn), w1)
           | Inr n \<Rightarrow>
               if \<not> mayRetry R attempt n w1 then Done (failWith R attempt (Inr n) w1)
               else
                 (case waitForRetry (ev_js E)
                         (delayOf (retryDelay (ev_js E) (rn_retry R) attempt (se_retryAfterMs n) (ev_random E attempt)))
                         (os_abortAt (rn_signal R)) (emitPhase R ''retry'' (Suc attempt) (Some n) w1) of
                    (Inr _, w2) \<Rightarrow> Again w2
                  | (Inl error2, w2) \<Rightarrow>
                      Done (failWith R (Suc attempt) (safeError (ev_js E) R (w_clock w2) error2) w2))))"

lemma runTurn_Again:
  assumes "runTurn E R action attempt w = Again w2"
  obtains error w1 n d where
    "attemptOnce (ev_js E) R action attempt w = (Inl error, w1)"
    "safeError (ev_js E) R (w_clock w1) error = Inr n" "mayRetry R attempt n w1"
    "waitForRetry (ev_js E) d (os_abortAt (rn_signal R)) (emitPhase R ''retry'' (Suc attempt) (Some n) w1) = (Inr (), w2)"
  using assms unfolding runTurn_def by (auto split: prod.splits sum.splits if_splits)

function runLoop :: "env \<Rightarrow> run \<Rightarrow> 'a action \<Rightarrow> nat \<Rightarrow> 'a proc" where
  "runLoop E R action attempt w =
     (case runTurn E R action attempt w of
        Done r \<Rightarrow> r
      | Again w2 \<Rightarrow> runLoop E R action (Suc attempt) w2)"
  by pat_completeness auto
termination
proof (relation "measure (\<lambda>(E, R, action, attempt, w). vr_maxAttempts (rn_retry R) - attempt)")
  fix E R and action :: "'a action" and attempt w w2
  assume "runTurn E R action attempt w = Again w2"
  then have "attempt < vr_maxAttempts (rn_retry R)"
    by (rule runTurn_Again) (auto simp: mayRetry_def)
  then show "((E, R, action, Suc attempt, w2), E, R, action, attempt, w) \<in>
      measure (\<lambda>(E, R, action, attempt, w). vr_maxAttempts (rn_retry R) - attempt)" by simp
qed simp

declare runLoop.simps [simp del]

definition runAction ::
  "env \<Rightarrow> 'a action \<Rightarrow> error_context \<Rightarrow> action_options \<Rightarrow> bool \<Rightarrow> 'a proc" where
  "runAction E action cx opts allowRetry w =
     (let J = ev_js E;
          operationContext = cx\<lparr>cx_requestId := orOption (ao_requestId opts) (cx_requestId cx)\<rparr>
      in case validateExecutionContext J operationContext of
           Inl e \<Rightarrow> (Inl (Sdk e), w)
         | Inr _ \<Rightarrow>
             (case bindR (validateTimeout (ao_timeoutMs opts)) (\<lambda>timeoutMs.
                     bindR (validateRetry (if allowRetry then ao_retry opts else None)) (\<lambda>retry. Inr (timeoutMs, retry))) of
                Inl exn \<Rightarrow> (Inl (Sdk (configurationError J (exnValue exn) operationContext)), w)
              | Inr (timeoutMs, retry) \<Rightarrow>
                  let R = \<lparr>rn_context = operationContext, rn_diagnostics = ao_diagnostics opts,
                           rn_allowRetry = allowRetry, rn_retry = retry,
                           rn_signal = createOperationSignal (ao_signal opts) timeoutMs (w_clock w),
                           rn_raced = (timeoutMs \<noteq> None \<or> ao_signal opts \<noteq> None),
                           rn_startedAt = w_clock w\<rparr>
                  in runLoop E R action 1 (emitPhase R ''start'' 1 None w)))"

definition runToriumReadAction ::
  "env \<Rightarrow> 'a action \<Rightarrow> error_context \<Rightarrow> action_options \<Rightarrow> 'a proc" where
  "runToriumReadAction E action cx opts = runAction E action (cx\<lparr>cx_kind := Read\<rparr>) opts True"

definition runToriumWriteActionOnce ::
  "env \<Rightarrow> 'a action \<Rightarrow> error_context \<Rightarrow> action_options \<Rightarrow> 'a proc" where
  "runToriumWriteActionOnce E action cx opts = runAction E action cx opts False"


section \<open>Validated controls\<close>

definition retry_ok :: "validated_retry \<Rightarrow> bool" where
  "retry_ok r \<longleftrightarrow>
     1 \<le> vr_maxAttempts r \<and> vr_maxAttempts r \<le> 3 \<and> 0 \<le> vr_baseDelayMs r \<and>
     vr_baseDelayMs r \<le> vr_maximumDelayMs r \<and> vr_maximumDelayMs r \<le> 30000 \<and>
     0 \<le> vr_jitterRatio r \<and> vr_jitterRatio r \<le> 1"

lemma delay_valid:
  assumes "\<not> delayInvalid x"
  obtains n where "x = NInt n" "0 \<le> n" "n \<le> 30000"
  using assms by (auto simp: delayInvalid_def maximumBackoffMs_def elim!: num_isSafeIntegerE)

lemma validateRetry_ok:
  assumes "validateRetry v = Inr r"
  shows "retry_ok r"
proof -
  obtain m b x j where c: "num_isInteger m" "\<not> num_lt m (Fin 1)" "\<not> num_lt (NInt maximumReadAttempts) m"
      "\<not> delayInvalid b" "\<not> delayInvalid x" "\<not> num_lt x b" "\<not> j < 0" "\<not> j > 1" and
    r: "r = \<lparr>vr_maxAttempts = nat (num_int m), vr_baseDelayMs = num_int b, vr_maximumDelayMs = num_int x, vr_jitterRatio = j\<rparr>"
    using assms unfolding validateRetry_def Let_def
    by (auto split: if_splits jsnum.splits)
  from c(1) obtain k where k: "m = NInt k" by (rule num_isIntegerE)
  from c(4) obtain b' where b': "b = NInt b'" "0 \<le> b'" "b' \<le> 30000" by (rule delay_valid)
  from c(5) obtain x' where x': "x = NInt x'" "0 \<le> x'" "x' \<le> 30000" by (rule delay_valid)
  show ?thesis
    using c(2,3,6-8) k b' x' unfolding r retry_ok_def
    by (simp add: maximumReadAttempts_def nat_le_iff Suc_le_eq)
qed

lemma validateRetry_None:
  assumes "validateRetry None = Inr r"
  shows "vr_maxAttempts r = 1"
  using assms by (auto simp: validateRetry_def Let_def split: if_splits)

lemma validateTimeout_bound:
  assumes "validateTimeout v = Inr (Some t)"
  shows "1 \<le> t \<and> t \<le> 300000"
proof -
  obtain x where x: "num_isSafeInteger x" "\<not> num_lt x (Fin 1)" "\<not> num_lt (NInt maximumTimeoutMs) x" "t = nat (num_int x)"
    using assms by (auto simp: validateTimeout_def split: option.splits if_splits)
  from x(1) obtain n where "x = NInt n" by (rule num_isSafeIntegerE)
  with x show ?thesis by (simp add: maximumTimeoutMs_def nat_le_iff Suc_le_eq)
qed

text \<open>Rounding to a double of a real number of moderate size is finite.\<close>

definition double_finite :: "js_env \<Rightarrow> bool" where
  "double_finite J \<longleftrightarrow> (\<forall>x. \<exists>y. je_double J x = Fin y)"

lemma clamp_delay: "\<exists>y. num_min maximumBackoffMs (num_max 0 (Fin x)) = Fin y \<and> 0 \<le> y \<and> y \<le> 30000"
  by (simp add: maximumBackoffMs_def)

text \<open>
  The delay before a retry is a number between zero and 30 seconds: for every validated
  configuration, every random number, and every hint of the endpoint.
\<close>

theorem retryDelay_bounded:
  assumes "double_finite J" "hint \<in> {None} \<union> Some ` range Fin"
  shows "\<exists>y. retryDelay J retry failure hint random = Fin y \<and> 0 \<le> y \<and> y \<le> 30000"
proof -
  have m: "\<exists>z. num_mul J (Fin x) (Fin y) = Fin z" and a: "\<exists>z. num_add J (Fin x) (Fin y) = Fin z" for x y
    using assms(1) by (simp_all add: double_finite_def)
  obtain e where e: "e = min (vr_maximumDelayMs retry) (vr_baseDelayMs retry * 2 ^ (failure - 1))" by blast
  obtain z1 where z1: "num_mul J (NInt e) (Fin (vr_jitterRatio retry)) = Fin z1" using m by blast
  obtain z2 where z2: "num_mul J (Fin random) (Fin 2) = Fin z2" using m by blast
  obtain z3 where z3: "num_add J (Fin z2) (Fin (-1)) = Fin z3" using a by blast
  obtain z4 where z4: "num_mul J (Fin z1) (Fin z3) = Fin z4" using m by blast
  obtain z5 where z5: "num_add J (NInt e) (Fin z4) = Fin z5" using a by blast
  have "\<exists>x. orElse hint (num_round (Fin z5)) = Fin x" using assms(2) by auto
  then obtain x where x: "orElse hint (num_round (Fin z5)) = Fin x" by blast
  have "retryDelay J retry failure hint random = num_min maximumBackoffMs (num_max 0 (Fin x))"
    unfolding retryDelay_def Let_def e [symmetric] z1 z2 z3 z4 z5 x ..
  with clamp_delay show ?thesis by simp
qed

theorem retryDelay_bounded_witness:
  "\<exists>y. retryDelay sample_js \<lparr>vr_maxAttempts = 3, vr_baseDelayMs = 20000, vr_maximumDelayMs = 30000, vr_jitterRatio = 1\<rparr>
       2 None (3/4) = Fin y \<and> 0 \<le> y \<and> y \<le> 30000"
  by (rule retryDelay_bounded) (simp_all add: double_finite_def sample_js_def)

section \<open>Every failure is an error of the SDK\<close>

lemma context_valid: "validateExecutionContext J cx = Inr () \<longleftrightarrow> assertContext cx = Inr ()"
  by (auto simp: validateExecutionContext_def assertContext_def bindR_Inr_iff)

lemma safeError_total:
  assumes "assertContext (rn_context R) = Inr ()"
  shows "\<exists>n. safeError J R t error = Inr n \<and> (cx_kind (rn_context R) \<noteq> Read \<longrightarrow> \<not> se_safeToRetry n)"
proof -
  have "\<exists>n. normalizeOperation J (rn_signal R) t error (rn_context R) = Inr n"
    using assms by (cases error) (auto simp: normalizeOperation_def normalizeToriumError_def)
  then obtain n where "normalizeOperation J (rn_signal R) t error (rn_context R) = Inr n" by blast
  then show ?thesis by (auto simp: safeError_def enforceOperationSafety_def)
qed

lemma runTurn_Done:
  assumes "runTurn E R action attempt w = Done r"
  obtains
    (success) x w1 where "attemptOnce (ev_js E) R action attempt w = (Inr x, w1)"
      "r = (Inr x, emitPhase R ''success'' attempt None w1)"
  | (invalid) error w1 exn where "attemptOnce (ev_js E) R action attempt w = (Inl error, w1)"
      "safeError (ev_js E) R (w_clock w1) error = Inl exn" "r = (Inl (throwExn exn), w1)"
  | (failure) error w1 n where "attemptOnce (ev_js E) R action attempt w = (Inl error, w1)"
      "safeError (ev_js E) R (w_clock w1) error = Inr n" "\<not> mayRetry R attempt n w1"
      "r = failWith R attempt (Inr n) w1"
  | (interrupted) error w1 n d error2 w2 where "attemptOnce (ev_js E) R action attempt w = (Inl error, w1)"
      "safeError (ev_js E) R (w_clock w1) error = Inr n" "mayRetry R attempt n w1"
      "waitForRetry (ev_js E) d (os_abortAt (rn_signal R)) (emitPhase R ''retry'' (Suc attempt) (Some n) w1) = (Inl error2, w2)"
      "r = failWith R (Suc attempt) (safeError (ev_js E) R (w_clock w2) error2) w2"
proof -
  obtain a w1 where a: "attemptOnce (ev_js E) R action attempt w = (a, w1)" by fastforce
  show ?thesis
  proof (cases a)
    case (Inr x)
    with a assms show ?thesis by (intro success) (auto simp: runTurn_def)
  next
    case (Inl error)
    show ?thesis
    proof (cases "safeError (ev_js E) R (w_clock w1) error")
      case exn: (Inl exn)
      with a Inl assms show ?thesis by (intro invalid) (auto simp: runTurn_def)
    next
      case n: (Inr n)
      let ?d = "delayOf (retryDelay (ev_js E) (rn_retry R) attempt (se_retryAfterMs n) (ev_random E attempt))"
      obtain b w2 where b: "waitForRetry (ev_js E) ?d (os_abortAt (rn_signal R))
          (emitPhase R ''retry'' (Suc attempt) (Some n) w1) = (b, w2)" by fastforce
      show ?thesis
      proof (cases "mayRetry R attempt n w1")
        case False
        with a Inl n assms show ?thesis by (intro failure) (auto simp: runTurn_def)
      next
        case True
        with a Inl n b assms obtain error2 where "b = Inl error2" by (cases b) (simp_all add: runTurn_def)
        with True a Inl n b assms show ?thesis by (intro interrupted) (auto simp: runTurn_def)
      qed
    qed
  qed
qed

lemma runLoop_throws:
  assumes "assertContext (rn_context R) = Inr ()" "fst (runLoop E R action attempt w) = Inl err"
  shows "\<exists>e. err = Sdk e \<and> (cx_kind (rn_context R) \<noteq> Read \<longrightarrow> \<not> se_safeToRetry e)"
  using assms
proof (induction E R action attempt w rule: runLoop.induct)
  case (1 E R action attempt w)
  show ?case
  proof (cases "runTurn E R action attempt w")
    case (Again w2)
    with 1 show ?thesis by (simp add: runLoop.simps [of E R action attempt w])
  next
    case (Done r)
    then have "fst r = Inl err" using 1(3) by (simp add: runLoop.simps [of E R action attempt w])
    with Done show ?thesis
    proof (cases rule: runTurn_Done)
      case (invalid error w1 exn)
      with safeError_total [OF 1(2), of "ev_js E" "w_clock w1" error] show ?thesis by auto
    next
      case (failure error w1 n)
      with safeError_total [OF 1(2), of "ev_js E" "w_clock w1" error] \<open>fst r = Inl err\<close> show ?thesis
        by (auto simp: failWith_def)
    next
      case (interrupted error w1 n d error2 w2)
      with safeError_total [OF 1(2), of "ev_js E" "w_clock w2" error2] \<open>fst r = Inl err\<close> show ?thesis
        by (auto simp: failWith_def)
    qed simp
  qed
qed


lemma runAction_cases:
  obtains
    (rejected) e where "runAction E action cx opts allowRetry w = (Inl (Sdk e), w)" "\<not> se_safeToRetry e"
  | (runs) R timeoutMs where
      "runAction E action cx opts allowRetry w = runLoop E R action 1 (emitPhase R ''start'' 1 None w)"
      "assertContext (rn_context R) = Inr ()" "cx_kind (rn_context R) = cx_kind cx"
      "retry_ok (rn_retry R)" "\<not> allowRetry \<longrightarrow> vr_maxAttempts (rn_retry R) = 1"
      "validateTimeout (ao_timeoutMs opts) = Inr timeoutMs"
      "rn_allowRetry R = allowRetry" "rn_diagnostics R = ao_diagnostics opts" "rn_startedAt R = w_clock w"
      "rn_signal R = createOperationSignal (ao_signal opts) timeoutMs (w_clock w)"
      "rn_raced R \<longleftrightarrow> timeoutMs \<noteq> None \<or> ao_signal opts \<noteq> None"
proof -
  let ?J = "ev_js E"
  let ?cx = "cx\<lparr>cx_requestId := orOption (ao_requestId opts) (cx_requestId cx)\<rparr>"
  show ?thesis
  proof (cases "validateExecutionContext ?J ?cx")
    case (Inl e)
    then have "\<not> se_safeToRetry e"
      by (auto simp: validateExecutionContext_def labelError_def bindR_Inl_iff)
    with Inl show ?thesis by (intro rejected) (auto simp: runAction_def Let_def)
  next
    case (Inr u)
    then have ctx: "assertContext ?cx = Inr ()" using context_valid by simp
    show ?thesis
    proof (cases "validateTimeout (ao_timeoutMs opts)")
      case t: (Inl exn)
      show ?thesis
        by (intro rejected) (auto simp: runAction_def Let_def Inr t configurationError_def)
    next
      case t: (Inr timeoutMs)
      show ?thesis
      proof (cases "validateRetry (if allowRetry then ao_retry opts else None)")
        case r: (Inl exn)
        show ?thesis
          by (intro rejected) (auto simp: runAction_def Let_def Inr t r configurationError_def)
      next
        case r: (Inr retry)
        have "vr_maxAttempts retry = 1" if "\<not> allowRetry"
          using that r validateRetry_None by simp
        moreover let ?R = "\<lparr>rn_context = ?cx, rn_diagnostics = ao_diagnostics opts, rn_allowRetry = allowRetry,
          rn_retry = retry, rn_signal = createOperationSignal (ao_signal opts) timeoutMs (w_clock w),
          rn_raced = (timeoutMs \<noteq> None \<or> ao_signal opts \<noteq> None), rn_startedAt = w_clock w\<rparr>"
        have "runAction E action cx opts allowRetry w = runLoop E ?R action 1 (emitPhase ?R ''start'' 1 None w)"
          by (simp add: runAction_def Let_def Inr t r)
        ultimately show ?thesis
          using validateRetry_ok [OF r] t ctx by (intro runs [of ?R timeoutMs]) simp_all
      qed
    qed
  qed
qed

lemma runAction_throws:
  assumes "fst (runAction E action cx opts allowRetry w) = Inl err"
  shows "\<exists>e. err = Sdk e \<and> (cx_kind cx \<noteq> Read \<longrightarrow> \<not> se_safeToRetry e)"
proof (cases rule: runAction_cases [of E action cx opts allowRetry w])
  case (rejected e)
  with assms show ?thesis by auto
next
  case (runs R timeoutMs)
  with runLoop_throws [of R E action 1 "emitPhase R ''start'' 1 None w" err] assms show ?thesis by simp
qed

text \<open>
  C18: Whatever the action throws, what the caller of the SDK gets is an error of the SDK, and for a
  write or a broadcast it is never marked as safe to retry.
\<close>

theorem failures_are_sdk_errors:
  assumes "fst (runAction E action cx opts allowRetry w) = Inl err"
  shows "\<exists>e. err = Sdk e \<and> (cx_kind cx \<noteq> Read \<longrightarrow> \<not> se_safeToRetry e)"
  using assms by (rule runAction_throws)

definition sample_world :: world where
  "sample_world = \<lparr>w_clock = 0, w_trace = [], w_events = []\<rparr>"

definition sample_env :: env where
  "sample_env = \<lparr>ev_js = sample_js, ev_call = (\<lambda>n name args. (5, Inl (Val (JRef 7)))), ev_random = (\<lambda>n. 1 / 2)\<rparr>"

definition sample_options :: action_options where
  "sample_options =
     \<lparr>ao_signal = None, ao_timeoutMs = None, ao_requestId = None, ao_diagnostics = True, ao_retry = None\<rparr>"

definition sample_write :: error_context where
  "sample_write = sample_context\<lparr>cx_kind := Broadcast\<rparr>"

text \<open>A result comes from an attempt: nothing but the action produces one.\<close>

lemma runLoop_success:
  "fst (runLoop E R action attempt w) = Inr x \<Longrightarrow>
   \<exists>a w1. attempt \<le> a \<and> fst (action a (os_abortAt (rn_signal R)) w1) = Inr x"
proof (induction E R action attempt w rule: runLoop.induct)
  case (1 E R action attempt w)
  show ?case
  proof (cases "runTurn E R action attempt w")
    case (Again w2)
    with 1(2) have "fst (runLoop E R action (Suc attempt) w2) = Inr x"
      by (simp add: runLoop.simps [of E R action attempt w])
    from 1(1) [OF Again this] show ?thesis by (meson Suc_leD)
  next
    case (Done r)
    then have "fst r = Inr x" using 1(2) by (simp add: runLoop.simps [of E R action attempt w])
    with Done obtain w1 where "attemptOnce (ev_js E) R action attempt w = (Inr x, w1)"
      by (cases rule: runTurn_Done) (auto simp: failWith_def split: sum.splits)
    then have "fst (action attempt (os_abortAt (rn_signal R)) w) = Inr x"
      by (auto simp: attemptOnce_def bindP_def throwIfAborted_def raceAbort_def
          split: if_splits prod.splits option.splits sum.splits)
    then show ?thesis by blast
  qed
qed

lemma runAction_success:
  assumes "fst (runAction E action cx opts allowRetry w) = Inr x"
  shows "\<exists>a s w1. 1 \<le> a \<and> fst (action a s w1) = Inr x"
proof (cases rule: runAction_cases [of E action cx opts allowRetry w])
  case (runs R timeoutMs)
  with assms runLoop_success [of E R action 1] show ?thesis by fastforce
qed (use assms in simp)

abbreviation sample_failure :: "(thrown + jsval) \<times> world" where
  "sample_failure \<equiv> runAction sample_env (\<lambda>a s. callExt sample_env ''send'' []) sample_write sample_options False sample_world"

theorem failures_are_sdk_errors_witness: "\<exists>e. fst sample_failure = Inl (Sdk e) \<and> \<not> se_safeToRetry e"
proof -
  have "fst sample_failure \<noteq> Inr x" for x
    using runAction_success [of sample_env "\<lambda>a s. callExt sample_env ''send'' []"]
    by (fastforce simp: callExt_def sample_env_def)
  then obtain err where err: "fst sample_failure = Inl err" by (cases "fst sample_failure") auto
  have "cx_kind sample_write \<noteq> Read" by (simp add: sample_write_def)
  with failures_are_sdk_errors [OF err] err show ?thesis by auto
qed

section \<open>Calls that an action sends\<close>

definition sent :: "string \<Rightarrow> world \<Rightarrow> nat" where
  "sent name w = length (filter (\<lambda>c. fst c = name) (w_trace w))"

text \<open>A step that sends at most \<open>k\<close> calls of a name, whatever the answers are.\<close>

definition sends :: "string \<Rightarrow> nat \<Rightarrow> 'a proc \<Rightarrow> bool" where
  "sends name k m \<longleftrightarrow> (\<forall>w. sent name (snd (m w)) \<le> sent name w + k)"

lemma sendsD: "sends name k m \<Longrightarrow> m w = (r, w') \<Longrightarrow> sent name w' \<le> sent name w + k"
  unfolding sends_def by (metis snd_conv)

lemma sent_simps [simp]:
  "sent name (w\<lparr>w_clock := t\<rparr>) = sent name w" "sent name (w\<lparr>w_events := es\<rparr>) = sent name w"
  "sent name (emit d e w) = sent name w" "sent name (emitPhase R p a m w) = sent name w"
  by (simp_all add: sent_def emit_def emitPhase_def)

named_theorems sends_rules

lemma sends_basic [sends_rules]:
  "sends name 0 (returnP x)" "sends name 0 (throwP e)" "sends name 0 (liftP r)" "sends name 0 (liftExn r')"
  by (simp_all add: sends_def returnP_def throwP_def liftP_def liftExn_def)

lemma sends_bindP [sends_rules]:
  assumes "sends name j m" "\<And>x. sends name k (f x)"
  shows "sends name (j + k) (bindP m f)"
proof -
  have "sent name (snd (bindP m f w)) \<le> sent name w + (j + k)" for w
  proof -
    obtain r w1 where m: "m w = (r, w1)" by fastforce
    with assms(1) have w1: "sent name w1 \<le> sent name w + j" by (rule sendsD)
    have "sent name (snd (f x w1)) \<le> sent name w + (j + k)" for x
      using assms(2) [of x, unfolded sends_def, THEN spec, of w1] w1 by linarith
    with w1 show ?thesis by (cases r) (simp_all add: bindP_def m)
  qed
  then show ?thesis by (simp add: sends_def)
qed

lemma sends_tryP [sends_rules]:
  assumes "sends name j m" "\<And>x. sends name k (h x)"
  shows "sends name (j + k) (tryP m h)"
proof -
  have "sent name (snd (tryP m h w)) \<le> sent name w + (j + k)" for w
  proof -
    obtain r w1 where m: "m w = (r, w1)" by fastforce
    with assms(1) have w1: "sent name w1 \<le> sent name w + j" by (rule sendsD)
    have "sent name (snd (h x w1)) \<le> sent name w + (j + k)" for x
      using assms(2) [of x, unfolded sends_def, THEN spec, of w1] w1 by linarith
    with w1 show ?thesis by (cases r) (simp_all add: tryP_def m)
  qed
  then show ?thesis by (simp add: sends_def)
qed

lemma sends_callExt [sends_rules]: "sends name (if name = name' then 1 else 0) (callExt E name' args)"
  by (simp add: sends_def callExt_def sent_def split: prod.splits)

lemma sends_raceAbort [sends_rules]: "sends name k m \<Longrightarrow> sends name k (raceAbort J m sig)"
  by (auto simp: sends_def raceAbort_def split: prod.splits option.splits) (metis snd_conv)+

lemma sends_mono: "sends name j m \<Longrightarrow> j \<le> k \<Longrightarrow> sends name k m"
  unfolding sends_def by (meson add_left_mono le_trans)

lemma attemptOnce_sends:
  assumes "\<And>a s. sends name k (action a s)"
  shows "sends name k (attemptOnce J R action attempt)"
proof -
  have "sends name 0 (throwIfAborted J (rn_signal R))" by (simp add: sends_def throwIfAborted_def)
  then have "sends name (0 + k) (attemptOnce J R action attempt)"
    unfolding attemptOnce_def using assms
    by (intro sends_bindP) (simp_all add: sends_raceAbort)
  then show ?thesis by simp
qed

lemma waitForRetry_sent:
  "waitForRetry J d sig w = (r, w') \<Longrightarrow> sent name w' = sent name w"
  by (auto simp: waitForRetry_def split: option.splits if_splits)

lemma failWith_sent [simp]: "sent name (snd (failWith R attempt r w)) = sent name w"
  by (simp add: failWith_def split: sum.splits)

lemma runLoop_sends:
  assumes "\<And>a s. sends name k (action a s)"
  shows "sent name (snd (runLoop E R action attempt w)) \<le> sent name w + k + (vr_maxAttempts (rn_retry R) - attempt) * k"
  using assms
proof (induction E R action attempt w rule: runLoop.induct)
  case (1 E R action attempt w)
  have att: "sent name w1 \<le> sent name w + k" if "attemptOnce (ev_js E) R action attempt w = (r, w1)" for r w1
    using sendsD [OF attemptOnce_sends [OF 1(2)] that] .
  show ?case
  proof (cases "runTurn E R action attempt w")
    case (Again w2)
    then obtain error w1 n d where t: "attemptOnce (ev_js E) R action attempt w = (Inl error, w1)"
        "mayRetry R attempt n w1"
        "waitForRetry (ev_js E) d (os_abortAt (rn_signal R)) (emitPhase R ''retry'' (Suc attempt) (Some n) w1) = (Inr (), w2)"
      by (rule runTurn_Again)
    have "sent name w2 \<le> sent name w + k" using att [OF t(1)] waitForRetry_sent [OF t(3)] by simp
    moreover have "sent name (snd (runLoop E R action (Suc attempt) w2))
        \<le> sent name w2 + k + (vr_maxAttempts (rn_retry R) - Suc attempt) * k"
      using 1(1) [OF Again 1(2)] .
    moreover have "vr_maxAttempts (rn_retry R) - attempt = Suc (vr_maxAttempts (rn_retry R) - Suc attempt)"
      using t(2) by (auto simp: mayRetry_def)
    ultimately show ?thesis using Again by (simp add: runLoop.simps [of E R action attempt w])
  next
    case (Done r)
    then have "sent name (snd r) \<le> sent name w + k"
    proof (cases rule: runTurn_Done)
      case (interrupted error w1 n d error2 w2)
      then show ?thesis using att waitForRetry_sent [OF interrupted(4), of name] by simp
    qed (auto dest: att)
    with Done show ?thesis by (simp add: runLoop.simps [of E R action attempt w])
  qed
qed

lemma sends_runAction [sends_rules]:
  assumes "\<And>a s. sends name k (action a s)"
  shows "sends name ((if allowRetry then 3 else 1) * k) (runAction E action cx opts allowRetry)"
proof -
  have "sent name (snd (runAction E action cx opts allowRetry w)) \<le> sent name w + (if allowRetry then 3 else 1) * k" for w
  proof (cases rule: runAction_cases [of E action cx opts allowRetry w])
    case (runs R timeoutMs)
    let ?m = "vr_maxAttempts (rn_retry R)"
    have "sent name (snd (runAction E action cx opts allowRetry w)) \<le> sent name w + k + (?m - 1) * k"
      using runLoop_sends [where name = name and k = k and action = action, OF assms, of E R 1
          "emitPhase R ''start'' 1 None w"] runs(1) by simp
    moreover have "k + (?m - 1) * k \<le> (if allowRetry then 3 else 1) * k"
    proof (cases allowRetry)
      case True
      have "?m - 1 \<le> 2" using runs(4) by (auto simp: retry_ok_def)
      then have "(?m - 1) * k \<le> 2 * k" by (rule mult_right_mono) simp
      with True show ?thesis by simp
    qed (use runs(5) in simp)
    ultimately show ?thesis by simp
  qed simp
  then show ?thesis by (simp add: sends_def)
qed


text \<open>
  C19: A read is attempted at most three times and a write or broadcast at most once: if one run of
  the action sends at most \<open>k\<close> calls of some name, a read sends at most \<open>3 * k\<close> and a write at most \<open>k\<close>.
\<close>

theorem attempts_bounded:
  assumes "\<And>a s. sends name k (action a s)"
  shows "sends name (3 * k) (runToriumReadAction E action cx opts) \<and>
    sends name k (runToriumWriteActionOnce E action cx opts)"
  using sends_runAction [where name = name and k = k and action = action, OF assms, of True E "cx\<lparr>cx_kind := Read\<rparr>" opts]
    sends_runAction [where name = name and k = k and action = action, OF assms, of False E cx opts]
  by (simp add: runToriumReadAction_def [abs_def] runToriumWriteActionOnce_def [abs_def])

theorem attempts_bounded_witness:
  "sent ''send'' (snd (runToriumWriteActionOnce sample_env (\<lambda>a s. callExt sample_env ''send'' []) sample_write
     sample_options sample_world)) \<le> 1"
proof -
  let ?A = "\<lambda>(a :: nat) (s :: signal). callExt sample_env ''send'' []"
  have "sends ''send'' 1 (?A a s)" for a s
    using sends_callExt [of "''send''" "''send''" sample_env "[]"] by simp
  then have "sends ''send'' 1 (runToriumWriteActionOnce sample_env ?A sample_write sample_options)"
    using attempts_bounded [of "''send''" 1 ?A sample_env sample_write sample_options] by blast
  moreover have "sent ''send'' sample_world = 0" by (simp add: sent_def sample_world_def)
  ultimately show ?thesis unfolding sends_def by (metis add_0)
qed


section \<open>Time\<close>

lemma attemptOnce_deadline:
  assumes "rn_raced R" "os_abortAt (rn_signal R) = Some a" "a \<le> T" "w_clock w \<le> T"
    and "attemptOnce J R action attempt w = (r, w')"
  shows "w_clock w' \<le> T"
  using assms
  by (auto simp: attemptOnce_def bindP_def throwIfAborted_def raceAbort_def split: if_splits prod.splits)

lemma waitForRetry_deadline:
  assumes "a \<le> T" "w_clock w \<le> T" "waitForRetry J d (Some a) w = (r, w')"
  shows "w_clock w' \<le> T"
  using assms by (auto simp: waitForRetry_def split: if_splits)

lemma emit_clock [simp]: "w_clock (emit d e w) = w_clock w" "w_clock (emitPhase R p n m w) = w_clock w"
  by (simp_all add: emit_def emitPhase_def)

lemma failWith_clock [simp]: "w_clock (snd (failWith R n r w)) = w_clock w"
  by (simp add: failWith_def split: sum.splits)

lemma runLoop_deadline:
  assumes "rn_raced R" "os_abortAt (rn_signal R) = Some a" "a \<le> T" "w_clock w \<le> T"
  shows "w_clock (snd (runLoop E R action attempt w)) \<le> T"
  using assms
proof (induction E R action attempt w rule: runLoop.induct)
  case (1 E R action attempt w)
  note att = attemptOnce_deadline [OF 1(2-5)]
  show ?case
  proof (cases "runTurn E R action attempt w")
    case (Again w2)
    then obtain error w1 n d where t: "attemptOnce (ev_js E) R action attempt w = (Inl error, w1)"
        "waitForRetry (ev_js E) d (os_abortAt (rn_signal R)) (emitPhase R ''retry'' (Suc attempt) (Some n) w1) = (Inr (), w2)"
      by (rule runTurn_Again)
    have "w_clock w2 \<le> T"
      using waitForRetry_deadline [OF 1(4) _ t(2) [unfolded 1(3)]] att [OF t(1)] by simp
    with 1 Again show ?thesis by (simp add: runLoop.simps [of E R action attempt w])
  next
    case (Done r)
    then have "w_clock (snd r) \<le> T"
    proof (cases rule: runTurn_Done)
      case (interrupted error w1 n d error2 w2)
      then show ?thesis
        using waitForRetry_deadline [OF 1(4) _ interrupted(4) [unfolded 1(3)]] att [OF interrupted(1)] by simp
    qed (auto dest: att)
    with Done show ?thesis by (simp add: runLoop.simps [of E R action attempt w])
  qed
qed

lemma earliest_le: "\<exists>a. earliest s (Some b) = Some a \<and> a \<le> b"
  by (cases s) auto

text \<open>
  C20: An action with a time-out is over when the time-out has passed: whatever the action does, and
  however many attempts and pauses there are, the caller gets a result or an error by then.
\<close>

theorem timeout_is_kept:
  assumes "validateTimeout (ao_timeoutMs opts) = Inr (Some d)"
  shows "w_clock (snd (runAction E action cx opts allowRetry w)) \<le> w_clock w + d"
proof (cases rule: runAction_cases [of E action cx opts allowRetry w])
  case (runs R timeoutMs)
  have t: "timeoutMs = Some d" using runs(6) assms by simp
  obtain a where a: "os_abortAt (rn_signal R) = Some a" "a \<le> w_clock w + d"
    using earliest_le [of "orElse (ao_signal opts) None" "w_clock w + d"] runs(10) t
    by (auto simp: createOperationSignal_def Let_def)
  have "rn_raced R" using runs(11) t by simp
  from runLoop_deadline [OF this a(1) a(2), of "emitPhase R ''start'' 1 None w" E action 1] runs(1)
  show ?thesis by simp
qed simp

theorem timeout_is_kept_witness:
  "w_clock (snd (runAction sample_env (\<lambda>a s. callExt sample_env ''send'' []) sample_write
     (sample_options\<lparr>ao_timeoutMs := Some (Fin 3)\<rparr>) False sample_world)) \<le> w_clock sample_world + 3"
proof -
  have "validateTimeout (ao_timeoutMs (sample_options\<lparr>ao_timeoutMs := Some (Fin 3)\<rparr>)) = Inr (Some 3)"
    by (simp add: validateTimeout_def max_safe_integer_def maximumTimeoutMs_def)
  then show ?thesis by (rule timeout_is_kept)
qed

text \<open>
  If the signal of the caller has aborted before the action starts, the action is not run: nothing
  is sent, and the caller gets an error of the SDK.
\<close>

theorem aborted_before_start:
  assumes "ao_signal opts = Some (Some a)" "a \<le> w_clock w"
  shows "w_trace (snd (runAction E action cx opts allowRetry w)) = w_trace w \<and>
    (\<exists>e. fst (runAction E action cx opts allowRetry w) = Inl (Sdk e))"
proof (cases rule: runAction_cases [of E action cx opts allowRetry w])
  case (runs R timeoutMs)
  let ?w = "emitPhase R ''start'' 1 None w"
  have ab: "abortedAt (os_abortAt (rn_signal R)) (w_clock w)"
    using runs(10) assms by (cases timeoutMs) (auto simp: createOperationSignal_def abortedAt_def Let_def)
  obtain err where at: "attemptOnce (ev_js E) R action 1 ?w = (Inl err, ?w)"
    using ab by (simp add: attemptOnce_def bindP_def throwIfAborted_def)
  obtain n where n: "safeError (ev_js E) R (w_clock w) err = Inr n" using safeError_total [OF runs(2)] by blast
  have "runTurn E R action 1 ?w = Done (failWith R 1 (Inr n) ?w)"
    using ab unfolding runTurn_def at by (simp add: n mayRetry_def)
  then have "runAction E action cx opts allowRetry w = failWith R 1 (Inr n) ?w"
    unfolding runs(1) runLoop.simps [of E R action 1] by simp
  then show ?thesis by (simp add: failWith_def emitPhase_def emit_def)
qed simp

theorem aborted_before_start_witness:
  "w_trace (snd (runAction sample_env (\<lambda>a s. callExt sample_env ''send'' []) sample_write
     (sample_options\<lparr>ao_signal := Some (Some 0)\<rparr>) False sample_world)) = []"
  using aborted_before_start [of "sample_options\<lparr>ao_signal := Some (Some 0)\<rparr>" 0 sample_world sample_env
      "\<lambda>a s. callExt sample_env ''send'' []" sample_write False]
  by (simp add: sample_world_def)

section \<open>The event log\<close>

fun ends_run :: "nat \<Rightarrow> bool \<Rightarrow> diag_event list \<Rightarrow> bool" where
  "ends_run n ok [] = False"
| "ends_run n ok [e] \<longleftrightarrow> de_phase e = (if ok then ''success'' else ''failure'') \<and> de_attempt e = n"
| "ends_run n ok (e # es) \<longleftrightarrow> de_phase e = ''retry'' \<and> de_attempt e = Suc n \<and> ends_run (Suc n) ok es"

fun event_log :: "bool \<Rightarrow> diag_event list \<Rightarrow> bool" where
  "event_log ok [] = False"
| "event_log ok (e # es) \<longleftrightarrow> de_phase e = ''start'' \<and> de_attempt e = 1 \<and> ends_run 1 ok es"

definition quiet :: "'a proc \<Rightarrow> bool" where
  "quiet m \<longleftrightarrow> (\<forall>w. w_events (snd (m w)) = w_events w)"

lemma quietD: "quiet m \<Longrightarrow> m w = (r, w') \<Longrightarrow> w_events w' = w_events w"
  unfolding quiet_def by (metis snd_conv)

lemma attemptOnce_quiet:
  assumes "quiet (action attempt (os_abortAt (rn_signal R)))" "attemptOnce J R action attempt w = (r, w')"
  shows "w_events w' = w_events w"
  using assms(2) quietD [OF assms(1)]
  by (fastforce simp: attemptOnce_def bindP_def throwIfAborted_def raceAbort_def
      split: if_splits prod.splits option.splits)

lemma waitForRetry_quiet: "waitForRetry J d sig w = (r, w') \<Longrightarrow> w_events w' = w_events w"
  by (auto simp: waitForRetry_def split: option.splits if_splits)

lemma emitPhase_events:
  "rn_diagnostics R \<Longrightarrow> \<exists>e. w_events (emitPhase R p n m w) = w_events w @ [e] \<and> de_phase e = p \<and> de_attempt e = n"
  by (simp add: emitPhase_def emit_def eventOf_def)

lemma ends_run_Cons:
  "de_phase e = ''retry'' \<Longrightarrow> de_attempt e = Suc n \<Longrightarrow> ends_run (Suc n) ok es \<Longrightarrow> ends_run n ok (e # es)"
  by (cases es) auto

lemma runLoop_events:
  assumes "\<And>a s. quiet (action a s)" "rn_diagnostics R" "assertContext (rn_context R) = Inr ()"
  shows "\<exists>es. w_events (snd (runLoop E R action attempt w)) = w_events w @ es \<and>
    ends_run attempt (fst (runLoop E R action attempt w) \<in> range Inr) es"
  using assms
proof (induction E R action attempt w rule: runLoop.induct)
  case (1 E R action attempt w)
  note att = attemptOnce_quiet [OF 1(2)]
  show ?case
  proof (cases "runTurn E R action attempt w")
    case (Again w2)
    then obtain error w1 n d where t: "attemptOnce (ev_js E) R action attempt w = (Inl error, w1)"
        "waitForRetry (ev_js E) d (os_abortAt (rn_signal R)) (emitPhase R ''retry'' (Suc attempt) (Some n) w1) = (Inr (), w2)"
      by (rule runTurn_Again)
    obtain e where e: "w_events w2 = w_events w @ [e]" "de_phase e = ''retry''" "de_attempt e = Suc attempt"
      using emitPhase_events [OF 1(3), of "''retry''" "Suc attempt" "Some n" w1] waitForRetry_quiet [OF t(2)] att [OF t(1)]
      by auto
    from 1(1) [OF Again 1(2-4)] obtain es where
      "w_events (snd (runLoop E R action (Suc attempt) w2)) = w_events w2 @ es"
      "ends_run (Suc attempt) (fst (runLoop E R action (Suc attempt) w2) \<in> range Inr) es" by blast
    then show ?thesis
      using Again e by (intro exI [of _ "e # es"]) (simp add: runLoop.simps [of E R action attempt w] ends_run_Cons)
  next
    case (Done r)
    have "\<exists>es. w_events (snd r) = w_events w @ es \<and> ends_run attempt (fst r \<in> range Inr) es"
      using Done
    proof (cases rule: runTurn_Done)
      case (success x w1)
      then show ?thesis
        using emitPhase_events [OF 1(3), of "''success''" attempt None w1] att [OF success(1)] by auto
    next
      case (invalid error w1 exn)
      with safeError_total [OF 1(4), of "ev_js E" "w_clock w1" error] show ?thesis by simp
    next
      case (failure error w1 n)
      then show ?thesis
        using emitPhase_events [OF 1(3), of "''failure''" attempt "Some n" w1] att [OF failure(1)]
        by (auto simp: failWith_def)
    next
      case (interrupted error w1 n d error2 w2)
      obtain n2 where n2: "safeError (ev_js E) R (w_clock w2) error2 = Inr n2" using safeError_total [OF 1(4)] by blast
      obtain e where e: "w_events w2 = w_events w @ [e]" "de_phase e = ''retry''" "de_attempt e = Suc attempt"
        using emitPhase_events [OF 1(3), of "''retry''" "Suc attempt" "Some n" w1]
          waitForRetry_quiet [OF interrupted(4)] att [OF interrupted(1)] by auto
      obtain f where f: "w_events (snd r) = w_events w2 @ [f]" "de_phase f = ''failure''" "de_attempt f = Suc attempt"
        using emitPhase_events [OF 1(3), of "''failure''" "Suc attempt" "Some n2" w2] interrupted(5) n2
        by (auto simp: failWith_def)
      have "fst r \<notin> range Inr" using interrupted(5) n2 by (auto simp: failWith_def)
      then show ?thesis using e f by (intro exI [of _ "[e, f]"]) simp
    qed
    with Done show ?thesis by (simp add: runLoop.simps [of E R action attempt w])
  qed
qed



lemma callExt_quiet: "quiet (callExt E name args)"
  by (simp add: quiet_def callExt_def split: prod.splits)



section \<open>Cancellation during an attempt\<close>

lemma attemptOnce_interrupted:
  assumes "rn_raced R" "os_abortAt (rn_signal R) = Some a" "w_clock w < a"
    "a \<le> w_clock (snd (action attempt (Some a) w))"
  obtains w1 where "attemptOnce J R action attempt w = (Inl (Sdk (controlError J Cancellation None)), w1)" "w_clock w1 = a"
  using assms
  by (cases "action attempt (Some a) w")
    (auto simp: attemptOnce_def bindP_def throwIfAborted_def abortedAt_def raceAbort_def)

lemma control_error_kept:
  assumes "\<not> os_direct (rn_signal R)" "\<not> abortedAt (os_timeoutAt (rn_signal R)) t"
  shows "safeError J R t (Sdk (controlError J Cancellation None)) = Inr (controlError J Cancellation None)"
  using assms by (simp add: safeError_def normalizeOperation_def enforceOperationSafety_def controlError_def)

text \<open>
  C39: With a time-out set, a cancellation by the caller during an attempt reaches the caller without the
  operation it cancelled, although every other error of the action carries it.
\<close>

theorem timed_cancellation_loses_context:
  assumes "rn_raced R" "\<not> os_direct (rn_signal R)" "os_abortAt (rn_signal R) = Some a"
    "\<not> abortedAt (os_timeoutAt (rn_signal R)) a" "w_clock w < a" "a \<le> w_clock (snd (action attempt (Some a) w))"
  shows "\<exists>e w1. runTurn E R action attempt w = Done (Inl (Sdk e), w1) \<and> se_category e = Cancellation \<and> se_operation e = None"
proof -
  let ?e = "controlError (ev_js E) Cancellation None"
  obtain w1 where w1: "attemptOnce (ev_js E) R action attempt w = (Inl (Sdk ?e), w1)" "w_clock w1 = a"
    using attemptOnce_interrupted [where action = action, OF assms(1,3,5,6)] by blast
  have e: "safeError (ev_js E) R (w_clock w1) (Sdk ?e) = Inr ?e"
    using control_error_kept [OF assms(2)] assms(4) w1(2) by simp
  have "\<not> mayRetry R attempt ?e w1" by (simp add: mayRetry_def controlError_def)
  with w1 e show ?thesis by (simp add: runTurn_def failWith_def) (simp add: controlError_def)
qed

definition timed_run :: run where
  "timed_run =
     \<lparr>rn_context = sample_context, rn_diagnostics = False, rn_allowRetry = True,
      rn_retry = \<lparr>vr_maxAttempts = 3, vr_baseDelayMs = 150, vr_maximumDelayMs = 2000, vr_jitterRatio = 0\<rparr>,
      rn_signal = createOperationSignal (Some (Some 3)) (Some 1000) 0, rn_raced = True, rn_startedAt = 0\<rparr>"

theorem timed_cancellation_loses_context_witness:
  "\<exists>e w1. runTurn sample_env timed_run (\<lambda>a s. callExt sample_env ''eth_call'' []) 1 sample_world = Done (Inl (Sdk e), w1) \<and>
     se_category e = Cancellation \<and> se_operation e = None"
  by (rule timed_cancellation_loses_context [of timed_run 3])
    (simp_all add: timed_run_def createOperationSignal_def abortedAt_def sample_world_def callExt_def sample_env_def)

end
