(* ===== verification/Endpoint.thy ===== *)
theory Endpoint
  imports Execution Chain_Defs
begin

text \<open>
  Endpoints, the second half of \<^verbatim>\<open>packages/torium-sdk/src/chains.ts\<close>: the override of the RPC URLs of a chain
  and the validation of an endpoint (identity, readiness, fingerprint, compatibility).

  A request of the caller's client is the external call named by its method.  The parser of URLs is a
  parameter: the platform's \<open>URL\<close> class, of which the code reads the protocol and the credentials.
\<close>

section \<open>RPC URLs\<close>

record url =
  url_protocol :: string
  url_username :: string
  url_password :: string

type_synonym url_parser = "string \<Rightarrow> url option"

record rpc_overrides =
  ro_http :: "string list"
  ro_webSocket :: "string list option"

abbreviation configInvalid :: "js_env \<Rightarrow> string \<Rightarrow> sdk_error" where
  "configInvalid J message \<equiv> newEndpointError J ''TORIUM_ENDPOINT_CONFIG_INVALID'' message endpointOptions"

definition validateUrl :: "js_env \<Rightarrow> url_parser \<Rightarrow> string list \<Rightarrow> string \<Rightarrow> sdk_error + unit" where
  "validateUrl J parse protocols value =
     (case parse value of
        None \<Rightarrow> Inl (configInvalid J ''An RPC URL is malformed.'')
      | Some u \<Rightarrow>
          if url_protocol u \<notin> set protocols
          then Inl (configInvalid J ''An RPC URL uses an unsupported protocol.'')
          else if url_username u \<noteq> [] \<or> url_password u \<noteq> []
          then Inl (configInvalid J ''RPC URLs must not embed credentials.'')
          else Inr ())"

definition validateUrls :: "js_env \<Rightarrow> url_parser \<Rightarrow> string list \<Rightarrow> string list \<Rightarrow> sdk_error + unit" where
  "validateUrls J parse values protocols =
     (if values = [] then Inl (configInvalid J ''At least one caller-owned RPC URL is required.'')
      else foldR (\<lambda>_ value. validateUrl J parse protocols value) () values)"

definition withToriumRpcUrls ::
  "js_env \<Rightarrow> url_parser \<Rightarrow> torium_chain \<Rightarrow> rpc_overrides \<Rightarrow> sdk_error + torium_chain" where
  "withToriumRpcUrls J parse chain overrides =
     bindR (validateUrls J parse (ro_http overrides) [''http:'', ''https:'']) (\<lambda>_.
     bindR (case ro_webSocket overrides of None \<Rightarrow> Inr ()
            | Some ws \<Rightarrow> validateUrls J parse ws [''ws:'', ''wss:'']) (\<lambda>_.
     Inr (chain\<lparr>rpcHttp := ro_http overrides, rpcWebSocket := ro_webSocket overrides\<rparr>)))"

section \<open>Responses\<close>

definition invalidRpcResponse :: "js_env \<Rightarrow> string \<Rightarrow> sdk_error" where
  "invalidRpcResponse J method =
     newEndpointError J ''TORIUM_RPC_RESPONSE_INVALID''
       (''The endpoint returned an invalid '' @ method @ '' response.'') endpointOptions"

text \<open>\<open>BigInt\<close> of a string that matched \<open>/^0x[0-9a-f]+$/iu\<close>, and of one of decimal digits.\<close>

definition hexInt :: "string \<Rightarrow> int" where
  "hexInt s = int (read_hex (drop 2 s))"

definition digits_rx :: rx where
  "digits_rx = anchored (rplus (Cls is_digit))"

fun parseHexBigInt :: "js_env \<Rightarrow> jsval \<Rightarrow> string \<Rightarrow> sdk_error + int" where
  "parseHexBigInt J (JStr s) method =
     (if rx_test hex_number_rx s then Inr (hexInt s) else Inl (invalidRpcResponse J method))"
| "parseHexBigInt J _ method = Inl (invalidRpcResponse J method)"

definition parseHexNumber :: "js_env \<Rightarrow> jsval \<Rightarrow> string \<Rightarrow> sdk_error + int" where
  "parseHexNumber J value method =
     bindR (parseHexBigInt J value method) (\<lambda>parsed.
       if parsed > max_safe_integer then Inl (invalidRpcResponse J method) else Inr parsed)"

fun parseDecimalNumber :: "js_env \<Rightarrow> jsval \<Rightarrow> string \<Rightarrow> sdk_error + int" where
  "parseDecimalNumber J (JStr s) method =
     (if \<not> rx_test digits_rx s then Inl (invalidRpcResponse J method)
      else if int (read_nat s) > max_safe_integer then Inl (invalidRpcResponse J method)
      else Inr (int (read_nat s)))"
| "parseDecimalNumber J _ method = Inl (invalidRpcResponse J method)"

definition parseBlockHash :: "js_env \<Rightarrow> jsval \<Rightarrow> sdk_error + string" where
  "parseBlockHash J value =
     (case fieldOf (toRecord J value) ''hash'' of
        JStr s \<Rightarrow> if rx_test hash_ci_rx s then Inr s else Inl (invalidRpcResponse J ''eth_getBlockByNumber'')
      | _ \<Rightarrow> Inl (invalidRpcResponse J ''eth_getBlockByNumber''))"

section \<open>Requests\<close>

definition liftSdk :: "sdk_error + 'a \<Rightarrow> 'a proc" where
  "liftSdk r = liftP (mapErr Sdk r)"

definition throwSdkIf :: "bool \<Rightarrow> sdk_error \<Rightarrow> unit proc" where
  "throwSdkIf b e = liftSdk (throwIf b e)"

text \<open>What becomes of an error of a request: the signal is read when the error arrives.\<close>

definition requestFailed ::
  "js_env \<Rightarrow> string \<Rightarrow> client_kind \<Rightarrow> string \<Rightarrow> string \<Rightarrow> signal option \<Rightarrow> thrown \<Rightarrow> 'a proc" where
  "requestFailed J operation clientKind purpose method sig error w =
     (if (case sig of None \<Rightarrow> False | Some s \<Rightarrow> abortedAt s (w_clock w))
      then throwP (Sdk (newEndpointError J ''TORIUM_RPC_ABORTED''
             (''The '' @ method @ '' '' @ purpose @ '' request was cancelled.'')
             (endpointOptions\<lparr>eo_cause := thrownValue error, eo_method := Some method\<rparr>))) w
      else case normalizeToriumError J error
             \<lparr>cx_operation = operation, cx_kind = Read, cx_clientKind = Some clientKind, cx_method = Some method,
              cx_chainId = None, cx_requestId = None, cx_fallbackCategory = Some Transport\<rparr> of
             Inl exn \<Rightarrow> throwP (throwExn exn) w
           | Inr n \<Rightarrow>
               throwP (Sdk (newEndpointError J ''TORIUM_RPC_REQUEST_FAILED''
                 (''The endpoint failed the '' @ method @ '' '' @ purpose @ '' request.'')
                 (endpointOptions\<lparr>eo_cause := thrownValue error, eo_method := Some method,
                   eo_category := Some (se_category n), eo_retryable := Some (se_retryable n),
                   eo_rpcCode := se_rpcCode n, eo_httpStatus := se_httpStatus n,
                   eo_retryAfterMs := se_retryAfterMs n\<rparr>))) w)"

definition requestRpc :: "env \<Rightarrow> string \<Rightarrow> jsval list \<Rightarrow> signal option \<Rightarrow> jsval proc" where
  "requestRpc E method params sig =
     tryP (callExt E method params)
       (requestFailed (ev_js E) ''validateToriumEndpoint'' EndpointClient ''readiness'' method sig)"

section \<open>Validation\<close>

datatype endpoint_status = Ready | Booting | Syncing

datatype fingerprint_status = FingerprintVerified | UnavailableLocal

datatype compatibility_status = CompatibilityVerified | NotRequested

record endpoint_validation =
  ev_chain :: torium_chain
  ev_requireReady :: "bool option"
  ev_fingerprint :: "string option"
  ev_minimumBlockNumber :: "int option"
  ev_requireCompatibility :: "bool option"
  ev_compatibilityChecks :: "string list"
  ev_signal :: "signal option"

record endpoint_result =
  vr_status :: endpoint_status
  vr_environment :: string
  vr_manifestVersion :: string
  vr_expectedChainId :: int
  vr_observedChainId :: int
  vr_expectedNetworkId :: int
  vr_observedNetworkId :: int
  vr_blockNumber :: int
  vr_syncing :: bool
  vr_fingerprintStatus :: fingerprint_status
  vr_compatibilityStatus :: compatibility_status
  vr_compatibilityChecks :: nat

text \<open>The checks before the first request; the id of the requester's own chain, where it has one.\<close>

definition checkConfiguration :: "js_env \<Rightarrow> int option \<Rightarrow> endpoint_validation \<Rightarrow> sdk_error + unit" where
  "checkConfiguration J requesterChain opts =
     bindR (throwIf (case ev_fingerprint opts of None \<Rightarrow> False | Some f \<Rightarrow> \<not> rx_test hash_ci_rx f)
       (configInvalid J ''The expected network fingerprint must be a 32-byte hex block hash.'')) (\<lambda>_.
     bindR (throwIf (case ev_minimumBlockNumber opts of None \<Rightarrow> False | Some m \<Rightarrow> m < 0)
       (configInvalid J ''The minimum block number must not be negative.'')) (\<lambda>_.
     bindR (throwIf (orElse (ev_requireCompatibility opts) False \<and> ev_compatibilityChecks opts = [])
       (configInvalid J ''At least one compatibility check is required when compatibility enforcement is enabled.'')) (\<lambda>_.
     throwIf (case requesterChain of None \<Rightarrow> False | Some i \<Rightarrow> i \<noteq> chain_id (ev_chain opts))
       (newEndpointError J ''TORIUM_CHAIN_ID_MISMATCH''
         ''The configured viem client chain does not match the selected Torium environment.''
         (endpointOptions\<lparr>eo_expected := Some (JInt (chain_id (ev_chain opts))),
                          eo_actual := map_option JInt requesterChain\<rparr>)))))"

definition checkChainId :: "env \<Rightarrow> endpoint_validation \<Rightarrow> int proc" where
  "checkChainId E opts =
     bindP (requestRpc E ''eth_chainId'' [] (ev_signal opts)) (\<lambda>v.
     bindP (liftSdk (parseHexNumber (ev_js E) v ''eth_chainId'')) (\<lambda>observed.
     bindP (throwSdkIf (observed \<noteq> chain_id (ev_chain opts))
       (newEndpointError (ev_js E) ''TORIUM_CHAIN_ID_MISMATCH'' ''The endpoint returned a different EIP-155 chain ID.''
         (endpointOptions\<lparr>eo_expected := Some (JInt (chain_id (ev_chain opts))), eo_actual := Some (JInt observed)\<rparr>))) (\<lambda>_.
     returnP observed)))"

definition checkNetworkId :: "env \<Rightarrow> endpoint_validation \<Rightarrow> int proc" where
  "checkNetworkId E opts =
     bindP (requestRpc E ''net_version'' [] (ev_signal opts)) (\<lambda>v.
     bindP (liftSdk (parseDecimalNumber (ev_js E) v ''net_version'')) (\<lambda>observed.
     bindP (throwSdkIf (observed \<noteq> networkId (torium (ev_chain opts)))
       (newEndpointError (ev_js E) ''TORIUM_NETWORK_ID_MISMATCH'' ''The endpoint returned a different EVM network ID.''
         (endpointOptions\<lparr>eo_expected := Some (JInt (networkId (torium (ev_chain opts)))),
                          eo_actual := Some (JInt observed)\<rparr>))) (\<lambda>_.
     returnP observed)))"

definition checkSyncing :: "env \<Rightarrow> endpoint_validation \<Rightarrow> bool proc" where
  "checkSyncing E opts =
     bindP (requestRpc E ''eth_syncing'' [] (ev_signal opts)) (\<lambda>v.
     bindP (throwSdkIf (v \<noteq> JBool False \<and> \<not> isObjectLike v) (invalidRpcResponse (ev_js E) ''eth_syncing'')) (\<lambda>_.
     returnP (v \<noteq> JBool False)))"

definition statusOf :: "bool \<Rightarrow> int \<Rightarrow> endpoint_status" where
  "statusOf syncing blockNumber = (if syncing then Syncing else if blockNumber = 0 then Booting else Ready)"

definition checkReadiness :: "js_env \<Rightarrow> endpoint_validation \<Rightarrow> endpoint_status \<Rightarrow> int \<Rightarrow> sdk_error + unit" where
  "checkReadiness J opts status blockNumber =
     bindR (throwIf (orElse (ev_requireReady opts) True \<and> status = Syncing)
       (newEndpointError J ''TORIUM_RPC_SYNCING'' ''The Torium endpoint is still syncing.'' endpointOptions)) (\<lambda>_.
     bindR (throwIf (orElse (ev_requireReady opts) True \<and> status = Booting)
       (newEndpointError J ''TORIUM_RPC_NOT_READY'' ''The Torium endpoint has not produced a block yet.'' endpointOptions)) (\<lambda>_.
     throwIf (case ev_minimumBlockNumber opts of None \<Rightarrow> False | Some m \<Rightarrow> blockNumber < m)
       (newEndpointError J ''TORIUM_RPC_STALE'' ''The Torium endpoint is behind the caller's minimum block height.''
         (endpointOptions\<lparr>eo_expected := map_option (JStr \<circ> show_int) (ev_minimumBlockNumber opts),
                          eo_actual := Some (JStr (show_int blockNumber))\<rparr>))))"

definition checkFingerprint :: "env \<Rightarrow> endpoint_validation \<Rightarrow> fingerprint_status proc" where
  "checkFingerprint E opts =
     (case ev_fingerprint opts of
        None \<Rightarrow>
          bindP (throwSdkIf (environment (torium (ev_chain opts)) \<noteq> ''localnet'')
            (newEndpointError (ev_js E) ''TORIUM_NETWORK_FINGERPRINT_REQUIRED''
              ''A canonical network fingerprint is required for non-local Torium environments.'' endpointOptions)) (\<lambda>_.
          returnP UnavailableLocal)
      | Some expected \<Rightarrow>
          bindP (requestRpc E ''eth_getBlockByNumber'' [JStr ''0x0'', JBool False] (ev_signal opts)) (\<lambda>genesis.
          bindP (liftSdk (parseBlockHash (ev_js E) genesis)) (\<lambda>observed.
          bindP (throwSdkIf (toLowerCase observed \<noteq> toLowerCase expected)
            (newEndpointError (ev_js E) ''TORIUM_NETWORK_FINGERPRINT_MISMATCH''
              ''The endpoint genesis fingerprint does not match the selected Torium network.''
              (endpointOptions\<lparr>eo_expected := Some (JStr expected), eo_actual := Some (JStr observed)\<rparr>))) (\<lambda>_.
          returnP FingerprintVerified))))"

text \<open>The loop over the checks of the caller; a check is the external call \<open>compatibilityCheck\<close>.\<close>

fun checkCompatibility :: "env \<Rightarrow> string list \<Rightarrow> unit proc" where
  "checkCompatibility E [] = returnP ()"
| "checkCompatibility E (kind # kinds) =
     bindP (tryP (callExt E ''compatibilityCheck'' [JStr kind]) (\<lambda>error.
       throwP (Sdk (newEndpointError (ev_js E) ''TORIUM_ENDPOINT_INCOMPATIBLE''
         ''A Torium endpoint compatibility check failed.'' (endpointOptions\<lparr>eo_cause := thrownValue error\<rparr>))))) (\<lambda>compatible.
     bindP (throwSdkIf (compatible \<noteq> JBool True)
       (newEndpointError (ev_js E) ''TORIUM_ENDPOINT_INCOMPATIBLE''
         ''The endpoint failed a required Torium compatibility check.'' endpointOptions)) (\<lambda>_.
     checkCompatibility E kinds))"

definition validateToriumEndpoint :: "env \<Rightarrow> int option \<Rightarrow> endpoint_validation \<Rightarrow> endpoint_result proc" where
  "validateToriumEndpoint E requesterChain opts =
     bindP (liftSdk (checkConfiguration (ev_js E) requesterChain opts)) (\<lambda>_.
     bindP (checkChainId E opts) (\<lambda>observedChainId.
     bindP (checkNetworkId E opts) (\<lambda>observedNetworkId.
     bindP (checkSyncing E opts) (\<lambda>syncing.
     bindP (requestRpc E ''eth_blockNumber'' [] (ev_signal opts)) (\<lambda>v.
     bindP (liftSdk (parseHexBigInt (ev_js E) v ''eth_blockNumber'')) (\<lambda>blockNumber.
     bindP (liftSdk (checkReadiness (ev_js E) opts (statusOf syncing blockNumber) blockNumber)) (\<lambda>_.
     bindP (checkFingerprint E opts) (\<lambda>fingerprintStatus.
     bindP (checkCompatibility E (ev_compatibilityChecks opts)) (\<lambda>_.
     returnP \<lparr>vr_status = statusOf syncing blockNumber,
       vr_environment = environment (torium (ev_chain opts)),
       vr_manifestVersion = manifestVersion (torium (ev_chain opts)),
       vr_expectedChainId = chain_id (ev_chain opts), vr_observedChainId = observedChainId,
       vr_expectedNetworkId = networkId (torium (ev_chain opts)), vr_observedNetworkId = observedNetworkId,
       vr_blockNumber = blockNumber, vr_syncing = syncing, vr_fingerprintStatus = fingerprintStatus,
       vr_compatibilityStatus = (if ev_compatibilityChecks opts = [] then NotRequested else CompatibilityVerified),
       vr_compatibilityChecks = length (ev_compatibilityChecks opts)\<rparr>)))))))))"

section \<open>Steps that return and steps that throw\<close>

named_theorems returns_simps

lemma bindP_returns [returns_simps]:
  "bindP m f w = (Inr y, w') \<longleftrightarrow> (\<exists>x w1. m w = (Inr x, w1) \<and> f x w1 = (Inr y, w'))"
  by (auto simp: bindP_def split: prod.splits sum.splits)

lemma lift_returns [returns_simps]:
  "liftSdk r w = (Inr y, w') \<longleftrightarrow> r = Inr y \<and> w' = w"
  "throwSdkIf b e w = (Inr u, w') \<longleftrightarrow> \<not> b \<and> w' = w"
  "returnP x w = (Inr y, w') \<longleftrightarrow> x = y \<and> w' = w"
  "throwP t w = (Inr y, w') \<longleftrightarrow> False"
  by (auto simp: liftSdk_def liftP_def throwSdkIf_def returnP_def throwP_def)

lemma requestFailed_throws: "fst (requestFailed J opn ck p method sig error w) \<noteq> Inr y"
  by (simp add: requestFailed_def throwP_def split: sum.splits)

lemma requestRpc_returns [returns_simps]:
  "requestRpc E method params sig w = (Inr v, w') \<longleftrightarrow> callExt E method params w = (Inr v, w')"
proof -
  have "requestFailed J opn ck p method sig error w1 \<noteq> (Inr v, w')" for J opn ck p error w1
    by (metis fst_conv requestFailed_throws)
  then show ?thesis by (auto simp: requestRpc_def tryP_def split: prod.splits sum.splits)
qed

lemma callExt_trace:
  assumes "callExt E name args w = (r, w')"
  shows "w_trace w' = w_trace w @ [(name, args)] \<and> (\<exists>d. ev_call E (length (w_trace w)) name args = (d, r))"
  using assms by (auto simp: callExt_def split: prod.splits)

text \<open>Every error that a step throws satisfies a predicate.\<close>

definition throwsOnly :: "(thrown \<Rightarrow> bool) \<Rightarrow> 'a proc \<Rightarrow> bool" where
  "throwsOnly P m \<longleftrightarrow> (\<forall>w e. fst (m w) = Inl e \<longrightarrow> P e)"

lemma throwsOnlyD: "throwsOnly P m \<Longrightarrow> m w = (Inl e, w') \<Longrightarrow> P e"
  unfolding throwsOnly_def by (metis fst_conv)

named_theorems throws_rules

lemma throwsOnly_bindP [throws_rules]:
  assumes "throwsOnly P m" "\<And>x. throwsOnly P (f x)"
  shows "throwsOnly P (bindP m f)"
  using assms unfolding throwsOnly_def bindP_def by (auto split: prod.splits sum.splits) (metis fst_conv)+

lemma throwsOnly_tryP [throws_rules]:
  assumes "\<And>x. throwsOnly P (h x)"
  shows "throwsOnly P (tryP m h)"
  using assms unfolding throwsOnly_def tryP_def by (auto split: prod.splits sum.splits)

lemma throwsOnly_basic [throws_rules]:
  "throwsOnly P (returnP x)" "P e \<Longrightarrow> throwsOnly P (throwP e)"
  "(\<And>e. r = Inl e \<Longrightarrow> P (Sdk e)) \<Longrightarrow> throwsOnly P (liftSdk r)"
  "P (Sdk s) \<Longrightarrow> throwsOnly P (throwSdkIf b s)"
  by (auto simp: throwsOnly_def returnP_def throwP_def liftSdk_def liftP_def throwSdkIf_def mapErr_def split: sum.splits)

section \<open>A validated endpoint\<close>

lemma checkReadiness_returns:
  assumes "checkReadiness J opts (statusOf syncing n) n = Inr u"
  shows "(orElse (ev_requireReady opts) True \<longrightarrow> \<not> syncing \<and> n \<noteq> 0) \<and>
    (\<forall>m. ev_minimumBlockNumber opts = Some m \<longrightarrow> m \<le> n)"
  using assms
  by (auto simp: checkReadiness_def statusOf_def bindR_Inr_iff split: option.splits if_splits)

lemma checkFingerprint_returns:
  assumes "checkFingerprint E opts w = (Inr f, w')"
  shows "(case ev_fingerprint opts of
      None \<Rightarrow> environment (torium (ev_chain opts)) = ''localnet'' \<and> f = UnavailableLocal \<and> w_trace w' = w_trace w
    | Some expected \<Rightarrow> f = FingerprintVerified \<and>
        w_trace w' = w_trace w @ [(''eth_getBlockByNumber'', [JStr ''0x0'', JBool False])] \<and>
        (\<exists>d block observed. ev_call E (length (w_trace w)) ''eth_getBlockByNumber'' [JStr ''0x0'', JBool False] = (d, Inr block) \<and>
          parseBlockHash (ev_js E) block = Inr observed \<and> toLowerCase observed = toLowerCase expected))"
  using assms
  by (auto simp: checkFingerprint_def returns_simps split: option.splits dest!: callExt_trace)

lemma checkCompatibility_returns:
  assumes "checkCompatibility E kinds w = (Inr u, w')"
  shows "w_trace w' = w_trace w @ map (\<lambda>k. (''compatibilityCheck'', [JStr k])) kinds"
  using assms
proof (induction kinds arbitrary: w)
  case (Cons k kinds)
  then obtain w1 where "callExt E ''compatibilityCheck'' [JStr k] w = (Inr (JBool True), w1)"
      "checkCompatibility E kinds w1 = (Inr u, w')"
    by (auto simp: returns_simps tryP_def throwP_def split: prod.splits sum.splits)
  with Cons.IH [of w1] callExt_trace [of E _ _ w] show ?case by fastforce
qed (simp add: returns_simps)

lemma parseBlockHash_returns: "parseBlockHash J v = Inr s \<Longrightarrow> fieldOf (toRecord J v) ''hash'' = JStr s"
  by (cases "fieldOf (toRecord J v) ''hash''") (auto simp: parseBlockHash_def split: if_splits)

definition validation_calls :: "endpoint_validation \<Rightarrow> (string \<times> jsval list) list" where
  "validation_calls opts =
     [(''eth_chainId'', []), (''net_version'', []), (''eth_syncing'', []), (''eth_blockNumber'', [])] @
     (if ev_fingerprint opts = None then [] else [(''eth_getBlockByNumber'', [JStr ''0x0'', JBool False])]) @
     map (\<lambda>k. (''compatibilityCheck'', [JStr k])) (ev_compatibilityChecks opts)"


lemma digits_rx_iff: "rx_test digits_rx s \<longleftrightarrow> s \<noteq> [] \<and> list_all is_digit s"
  unfolding digits_rx_def by (subst rx_test_anchored, simp, simp only: lang_rplus_Cls) blast

definition live_env :: env where
  "live_env = sample_env\<lparr>ev_call := (\<lambda>n name args. (5, Inr
     (if name = ''eth_chainId'' then JStr ''0x544f52'' else if name = ''net_version'' then JStr ''5525330''
      else if name = ''eth_syncing'' then JBool False else if name = ''eth_blockNumber'' then JStr ''0x7''
      else JObj [(''hash'', JStr (''0x'' @ replicate 64 CHR ''a''))])))\<rparr>"

definition live_validation :: endpoint_validation where
  "live_validation =
     \<lparr>ev_chain = toriumMainnet, ev_requireReady = None, ev_fingerprint = Some (''0x'' @ replicate 64 CHR ''A''),
      ev_minimumBlockNumber = Some 5, ev_requireCompatibility = None, ev_compatibilityChecks = [],
      ev_signal = None\<rparr>"

lemma live_call:
  "callExt live_env name args w = (Inr
     (if name = ''eth_chainId'' then JStr ''0x544f52'' else if name = ''net_version'' then JStr ''5525330''
      else if name = ''eth_syncing'' then JBool False else if name = ''eth_blockNumber'' then JStr ''0x7''
      else JObj [(''hash'', JStr (''0x'' @ replicate 64 CHR ''a''))]),
     w\<lparr>w_clock := w_clock w + 5, w_trace := w_trace w @ [(name, args)]\<rparr>)"
  by (simp add: callExt_def live_env_def)

lemma live_request: "requestRpc live_env name args sig w = callExt live_env name args w"
  by (simp add: requestRpc_def tryP_def live_call)

lemma live_chars:
  "lower_char CHR ''A'' = CHR ''a''" "lower_char CHR ''a'' = CHR ''a''" "lower_char CHR ''0'' = CHR ''0''"
  "lower_char CHR ''x'' = CHR ''x''"
  by code_simp+

lemma live_texts:
  "rx_test hash_ci_rx (''0x'' @ replicate 64 CHR ''A'')" "rx_test hash_ci_rx (''0x'' @ replicate 64 CHR ''a'')"
  "toLowerCase (replicate 64 CHR ''A'') = replicate 64 CHR ''a''" "toLowerCase (replicate 64 CHR ''a'') = replicate 64 CHR ''a''"
  "rx_test hex_number_rx ''0x544f52''" "rx_test hex_number_rx ''0x7''" "rx_test digits_rx ''5525330''"
  "hexInt ''0x544f52'' = 5525330" "hexInt ''0x7'' = 7" "int (read_nat ''5525330'') = 5525330"
  by (simp_all add: hash_ci_rx_iff hex_number_rx_iff digits_rx_iff hex_prefixed_def list_all_iff char_class_defs
      toLowerCase_def live_chars hexInt_def read_hex_def read_nat_def hex_val_def digit_val_def)

lemma live_validates:
  "\<exists>r w'. validateToriumEndpoint live_env None live_validation sample_world = (Inr r, w') \<and> vr_blockNumber r = 7"
  by (simp add: validateToriumEndpoint_def checkConfiguration_def checkChainId_def checkNetworkId_def checkSyncing_def
      checkReadiness_def checkFingerprint_def live_validation_def live_request live_call bindP_def liftSdk_def liftP_def
      throwSdkIf_def returnP_def parseHexNumber_def parseBlockHash_def live_texts [simplified] statusOf_def
      max_safe_integer_def toriumMainnet_def mainnetMetadata_def)


section \<open>Errors of the validation\<close>

definition isEndpointError :: "thrown \<Rightarrow> bool" where
  "isEndpointError t \<longleftrightarrow>
     (\<exists>e. t = Sdk e \<and> se_name e = ''ToriumEndpointValidationError'' \<and> se_kind e = Some Read \<and>
       (se_safeToRetry e \<longrightarrow> se_code e = ''TORIUM_RPC_REQUEST_FAILED''))"

lemma isEndpointError_new:
  "eo_retryable opts = None \<or> errorCode = ''TORIUM_RPC_REQUEST_FAILED'' \<Longrightarrow>
   isEndpointError (Sdk (newEndpointError J errorCode message opts))"
  by (auto simp: isEndpointError_def newEndpointError_def Let_def)

lemma endpointOptions_retryable [simp]: "eo_retryable endpointOptions = None"
  by (simp add: endpointOptions_def)

lemma requestFailed_errors:
  assumes "labelValid (Some operation)" "labelValid (Some method)"
  shows "throwsOnly isEndpointError (requestFailed J operation ck purpose method sig error)"
proof -
  have "\<exists>n. normalizeToriumError J error
      \<lparr>cx_operation = operation, cx_kind = Read, cx_clientKind = Some ck, cx_method = Some method, cx_chainId = None,
       cx_requestId = None, cx_fallbackCategory = Some Transport\<rparr> = Inr n"
    using assms by (cases error) (auto simp: normalizeToriumError_def assertContext_def labelValid_def)
  then show ?thesis
    by (auto simp: throwsOnly_def requestFailed_def throwP_def intro!: isEndpointError_new)
qed

definition label_char :: "char \<Rightarrow> bool" where
  "label_char c \<longleftrightarrow> is_lower c \<or> is_upper c \<or> is_digit c \<or> c \<in> set ''_.:-''"

lemma labelValid_Some:
  "labelValid (Some s) \<longleftrightarrow> s \<noteq> [] \<and> length s \<le> 96 \<and> list_all label_char s"
proof -
  have "rx_test label_rx s \<longleftrightarrow> s \<noteq> [] \<and> list_all label_char s"
    unfolding label_rx_def label_char_def [abs_def] by (subst rx_test_anchored, simp, simp only: lang_rplus_Cls) blast
  then show ?thesis by (auto simp: labelValid_def Suc_le_eq)
qed

lemma method_labels:
  "labelValid (Some ''validateToriumEndpoint'')" "labelValid (Some ''eth_chainId'')" "labelValid (Some ''net_version'')"
  "labelValid (Some ''eth_syncing'')" "labelValid (Some ''eth_blockNumber'')" "labelValid (Some ''eth_getBlockByNumber'')"
  unfolding labelValid_Some by code_simp+

lemma requestRpc_errors:
  "labelValid (Some method) \<Longrightarrow> throwsOnly isEndpointError (requestRpc E method params sig)"
  unfolding requestRpc_def by (intro throwsOnly_tryP requestFailed_errors method_labels)

lemma parse_errors:
  "parseHexBigInt J v m = Inl e \<Longrightarrow> isEndpointError (Sdk e)"
  "parseHexNumber J v m = Inl e \<Longrightarrow> isEndpointError (Sdk e)"
  "parseDecimalNumber J v m = Inl e \<Longrightarrow> isEndpointError (Sdk e)"
  "parseBlockHash J v = Inl e \<Longrightarrow> isEndpointError (Sdk e)"
proof -
  have i: "isEndpointError (Sdk (invalidRpcResponse J m))" for m
    by (simp add: invalidRpcResponse_def isEndpointError_new)
  show h: "isEndpointError (Sdk e)" if "parseHexBigInt J v m = Inl e" for e
    using that i by (cases v) (auto split: if_splits)
  show "isEndpointError (Sdk e)" if "parseHexNumber J v m = Inl e"
    using that i h by (auto simp: parseHexNumber_def bindR_Inl_iff split: if_splits)
  show "isEndpointError (Sdk e)" if "parseDecimalNumber J v m = Inl e"
    using that i by (cases v) (auto split: if_splits)
  show "isEndpointError (Sdk e)" if "parseBlockHash J v = Inl e"
    using that i by (auto simp: parseBlockHash_def split: jsval.splits if_splits)
qed

lemma check_errors:
  "checkConfiguration J rc opts = Inl e \<Longrightarrow> isEndpointError (Sdk e)"
  "checkReadiness J opts s n = Inl e \<Longrightarrow> isEndpointError (Sdk e)"
  unfolding checkConfiguration_def checkReadiness_def bindR_Inl_iff throwIf_Inl
  by (elim disjE exE conjE, simp_all only:, simp_all add: isEndpointError_new)+

lemma checkCompatibility_errors: "throwsOnly isEndpointError (checkCompatibility E kinds)"
  by (induction kinds) (auto intro!: throws_rules isEndpointError_new)

text \<open>
  Whatever an endpoint answers, the validation fails only with an error of its own class, of kind
  read, and only a failed request is ever marked as safe to retry.
\<close>

theorem endpoint_validation_errors:
  "throwsOnly isEndpointError (validateToriumEndpoint E requesterChain opts)"
proof -
  have "throwsOnly isEndpointError (checkChainId E opts)" "throwsOnly isEndpointError (checkNetworkId E opts)"
    "throwsOnly isEndpointError (checkSyncing E opts)"
    unfolding checkChainId_def checkNetworkId_def checkSyncing_def invalidRpcResponse_def
    by (auto intro!: throws_rules requestRpc_errors method_labels isEndpointError_new dest: parse_errors)
  moreover have "throwsOnly isEndpointError (checkFingerprint E opts)"
    unfolding checkFingerprint_def
    by (auto intro!: throws_rules requestRpc_errors method_labels isEndpointError_new dest: parse_errors split: option.split)
  ultimately show ?thesis
    unfolding validateToriumEndpoint_def
    by (intro throws_rules requestRpc_errors method_labels checkCompatibility_errors)
      (auto dest: parse_errors check_errors)
qed

section \<open>Overridden URLs\<close>

definition url_accepted :: "url_parser \<Rightarrow> string list \<Rightarrow> string \<Rightarrow> bool" where
  "url_accepted parse protocols value \<longleftrightarrow>
     (\<exists>u. parse value = Some u \<and> url_protocol u \<in> set protocols \<and> url_username u = [] \<and> url_password u = [])"

lemma validateUrl_iff: "validateUrl J parse protocols value = Inr () \<longleftrightarrow> url_accepted parse protocols value"
  by (auto simp: validateUrl_def url_accepted_def split: option.splits)

lemma validateUrls_iff:
  "validateUrls J parse values protocols = Inr () \<longleftrightarrow> values \<noteq> [] \<and> (\<forall>v \<in> set values. url_accepted parse protocols v)"
proof -
  have "foldR (\<lambda>_ value. validateUrl J parse protocols value) () vs = Inr () \<longleftrightarrow>
      (\<forall>v \<in> set vs. url_accepted parse protocols v)" for vs
    by (induction vs) (auto simp: bindR_Inr_iff validateUrl_iff)
  then show ?thesis by (simp add: validateUrls_def)
qed

text \<open>
  An override of the RPC URLs is accepted exactly when there is a URL and every URL has an allowed
  protocol and carries no user name or password; it changes nothing of the chain but its URLs.
\<close>

theorem withToriumRpcUrls_iff:
  "withToriumRpcUrls J parse chain overrides = Inr c \<longleftrightarrow>
     ro_http overrides \<noteq> [] \<and> ro_webSocket overrides \<noteq> Some [] \<and>
     list_all (url_accepted parse [''http:'', ''https:'']) (ro_http overrides) \<and>
     list_all (url_accepted parse [''ws:'', ''wss:'']) (orElse (ro_webSocket overrides) []) \<and>
     c = chain\<lparr>rpcHttp := ro_http overrides, rpcWebSocket := ro_webSocket overrides\<rparr>"
  by (auto simp: withToriumRpcUrls_def bindR_Inr_iff validateUrls_iff list_all_iff split: option.splits)

end
