(* ===== verification/Clients.thy ===== *)
theory Clients
  imports Endpoint
begin

text \<open>
  The public client, \<^verbatim>\<open>packages/torium-sdk/src/clients.ts\<close>: the read capabilities, the network-status
  action, the split of a block range into log queries and the bound of the fee history.
\<close>

section \<open>Capabilities\<close>

text \<open>The capabilities that the code reads; the rest of the object is documentation for callers.\<close>

record tag_capability =
  tc_block :: string
  tc_state :: string
  tc_distinctStateViewProven :: "bool option"
  tc_meaning :: "string option"

definition blockTagCapabilities :: "(string \<times> tag_capability) list" where
  "blockTagCapabilities =
     [(''latest'', \<lparr>tc_block = ''supported'', tc_state = ''supported'', tc_distinctStateViewProven = None, tc_meaning = None\<rparr>),
      (''pending'', \<lparr>tc_block = ''partial'', tc_state = ''partial'', tc_distinctStateViewProven = Some False, tc_meaning = None\<rparr>),
      (''safe'', \<lparr>tc_block = ''partial'', tc_state = ''unsupported'', tc_distinctStateViewProven = None, tc_meaning = None\<rparr>),
      (''finalized'', \<lparr>tc_block = ''partial'', tc_state = ''partial'', tc_distinctStateViewProven = None,
                       tc_meaning = Some ''latest-committed-cometbft-state''\<rparr>)]"

record finality_capability =
  fc_defaultConfirmationBlocks :: int
  fc_label :: string
  fc_finalizedTagMeaning :: string
  fc_beaconChainSemantics :: bool
  fc_probabilisticConfirmation :: bool
  fc_boundedInclusionClaim :: bool
  fc_replacementGenesisIsDiscontinuity :: bool

definition finalityCapability :: finality_capability where
  "finalityCapability =
     \<lparr>fc_defaultConfirmationBlocks = 1, fc_label = ''CometBFT committed'',
      fc_finalizedTagMeaning = ''latest-committed-cometbft-state'', fc_beaconChainSemantics = False,
      fc_probabilisticConfirmation = False, fc_boundedInclusionClaim = False,
      fc_replacementGenesisIsDiscontinuity = True\<rparr>"

record read_limits =
  rl_feeHistoryBlocks :: int
  rl_logBlockRange :: int
  rl_logResults :: int
  rl_ethCallGas :: int
  rl_ethCallTimeoutMilliseconds :: int

definition readLimits :: read_limits where
  "readLimits =
     \<lparr>rl_feeHistoryBlocks = 100, rl_logBlockRange = 10000, rl_logResults = 10000, rl_ethCallGas = 25000000,
      rl_ethCallTimeoutMilliseconds = 5000\<rparr>"

record state_query_capability =
  sq_state :: string
  sq_usableByStableHelper :: bool
  sq_meaning :: "string option"

text \<open>None: reading \<open>state\<close> of \<open>undefined\<close> throws, for a tag that the type excludes.\<close>

definition getToriumStateQueryCapability :: "string \<Rightarrow> state_query_capability option" where
  "getToriumStateQueryCapability blockTag =
     map_option (\<lambda>capability.
       \<lparr>sq_state = tc_state capability, sq_usableByStableHelper = (blockTag = ''latest'' \<or> blockTag = ''finalized''),
        sq_meaning = tc_meaning capability\<rparr>)
       (map_of blockTagCapabilities blockTag)"

section \<open>Ranges\<close>

record block_range =
  br_fromBlock :: int
  br_toBlock :: int

function logRangesFrom :: "int \<Rightarrow> int \<Rightarrow> block_range list" where
  "logRangesFrom start toBlock =
     (if start \<le> toBlock
      then (let end = start + rl_logBlockRange readLimits - 1
            in \<lparr>br_fromBlock = start, br_toBlock = (if end < toBlock then end else toBlock)\<rparr>) #
           logRangesFrom (start + rl_logBlockRange readLimits) toBlock
      else [])"
  by pat_completeness auto
termination
  by (relation "measure (\<lambda>(start, toBlock). nat (toBlock + 1 - start))") (auto simp: readLimits_def)

declare logRangesFrom.simps [simp del]

definition createToriumLogRanges :: "block_range \<Rightarrow> js_exn + block_range list" where
  "createToriumLogRanges parameters =
     (if br_fromBlock parameters < 0 \<or> br_toBlock parameters < 0
      then Inl (RangeError ''Torium log ranges must not use negative blocks.'')
      else if br_toBlock parameters < br_fromBlock parameters
      then Inl (RangeError ''Torium log range end must not precede its start.'')
      else Inr (logRangesFrom (br_fromBlock parameters) (br_toBlock parameters)))"

definition assertToriumFeeHistoryBlockCount :: "jsnum \<Rightarrow> js_exn + unit" where
  "assertToriumFeeHistoryBlockCount blockCount =
     throwIf (\<not> num_isInteger blockCount \<or> num_lt blockCount (Fin 1)
              \<or> num_lt (NInt (rl_feeHistoryBlocks readLimits)) blockCount)
       (RangeError (''Torium fee history block count must be an integer from 1 to '' @
          show_int (rl_feeHistoryBlocks readLimits) @ ''.''))"

section \<open>Network status\<close>

definition invalidStatusResponse :: "js_env \<Rightarrow> string \<Rightarrow> sdk_error" where
  "invalidStatusResponse J method =
     newEndpointError J ''TORIUM_RPC_RESPONSE_INVALID''
       (''The endpoint returned an invalid '' @ method @ '' network-status response.'') endpointOptions"

fun parseString :: "js_env \<Rightarrow> jsval \<Rightarrow> string \<Rightarrow> sdk_error + string" where
  "parseString J (JStr s) method = (if s = [] then Inl (invalidStatusResponse J method) else Inr s)"
| "parseString J _ method = Inl (invalidStatusResponse J method)"

fun parseBoolean :: "js_env \<Rightarrow> jsval \<Rightarrow> string \<Rightarrow> sdk_error + bool" where
  "parseBoolean J (JBool b) method = Inr b"
| "parseBoolean J _ method = Inl (invalidStatusResponse J method)"

text \<open>\<open>parseHexBigInt\<close> of this file, which also takes a number.\<close>

fun parseStatusBigInt :: "js_env \<Rightarrow> jsval \<Rightarrow> string \<Rightarrow> sdk_error + int" where
  "parseStatusBigInt J (JStr s) method =
     (if rx_test hex_number_rx s then Inr (hexInt s) else Inl (invalidStatusResponse J method))"
| "parseStatusBigInt J (JNum x) method =
     (if num_isSafeInteger x \<and> num_le (Fin 0) x then Inr (num_int x) else Inl (invalidStatusResponse J method))"
| "parseStatusBigInt J _ method = Inl (invalidStatusResponse J method)"

definition requestStatusRpc :: "env \<Rightarrow> string \<Rightarrow> signal option \<Rightarrow> jsval proc" where
  "requestStatusRpc E method sig =
     tryP (callExt E method [])
       (requestFailed (ev_js E) ''getToriumNetworkStatus'' PublicClient ''network-status'' method sig)"

record network_status =
  ns_endpoint :: endpoint_result
  ns_clientVersion :: string
  ns_listening :: bool
  ns_peerCount :: int
  ns_finality :: finality_capability

record status_options =
  st_action :: action_options
  st_requireReady :: "bool option"
  st_minimumBlockNumber :: "int option"
  st_fingerprint :: "string option"

definition networkStatusAction :: "env \<Rightarrow> torium_chain \<Rightarrow> status_options \<Rightarrow> network_status action" where
  "networkStatusAction E chain opts attempt sig =
     bindP (validateToriumEndpoint E (Some (chain_id chain))
       \<lparr>ev_chain = chain, ev_requireReady = st_requireReady opts, ev_fingerprint = st_fingerprint opts,
        ev_minimumBlockNumber = st_minimumBlockNumber opts, ev_requireCompatibility = None,
        ev_compatibilityChecks = [], ev_signal = Some sig\<rparr>) (\<lambda>endpoint.
     bindP (requestStatusRpc E ''web3_clientVersion'' (Some sig)) (\<lambda>v1.
     bindP (liftSdk (parseString (ev_js E) v1 ''web3_clientVersion'')) (\<lambda>clientVersion.
     bindP (requestStatusRpc E ''net_listening'' (Some sig)) (\<lambda>v2.
     bindP (liftSdk (parseBoolean (ev_js E) v2 ''net_listening'')) (\<lambda>listening.
     bindP (requestStatusRpc E ''net_peerCount'' (Some sig)) (\<lambda>v3.
     bindP (liftSdk (parseStatusBigInt (ev_js E) v3 ''net_peerCount'')) (\<lambda>peerCount.
     returnP \<lparr>ns_endpoint = endpoint, ns_clientVersion = clientVersion, ns_listening = listening,
              ns_peerCount = peerCount, ns_finality = finalityCapability\<rparr>)))))))"

definition statusContext :: "torium_chain \<Rightarrow> error_context" where
  "statusContext chain =
     \<lparr>cx_operation = ''getToriumNetworkStatus'', cx_kind = Read, cx_clientKind = Some PublicClient,
      cx_method = Some ''torium_networkStatus'', cx_chainId = Some (chain_id chain), cx_requestId = None,
      cx_fallbackCategory = None\<rparr>"

definition statusAborted :: "js_env \<Rightarrow> torium_chain \<Rightarrow> status_options \<Rightarrow> sdk_error \<Rightarrow> sdk_error" where
  "statusAborted J chain opts error =
     newEndpointError J ''TORIUM_RPC_ABORTED'' ''The Torium network-status action was cancelled.''
       (endpointOptions\<lparr>eo_cause := thrownValue (Sdk error), eo_operation := Some ''getToriumNetworkStatus'',
         eo_clientKind := Some PublicClient, eo_method := Some ''torium_networkStatus'',
         eo_chainId := Some (chain_id chain), eo_requestId := ao_requestId (st_action opts)\<rparr>)"

definition getToriumNetworkStatus :: "env \<Rightarrow> torium_chain \<Rightarrow> status_options \<Rightarrow> network_status proc" where
  "getToriumNetworkStatus E chain opts =
     tryP (runToriumReadAction E (networkStatusAction E chain opts) (statusContext chain) (st_action opts)) (\<lambda>error.
       case error of
         Sdk e \<Rightarrow>
           if se_category e = Cancellation \<and> se_name e \<noteq> ''ToriumEndpointValidationError''
           then throwP (Sdk (statusAborted (ev_js E) chain opts e)) else throwP error
       | Val v \<Rightarrow> throwP error)"


section \<open>The ranges cover the blocks\<close>

abbreviation blocks :: "block_range \<Rightarrow> int list" where
  "blocks r \<equiv> [br_fromBlock r..br_toBlock r]"

lemma upto_append: "a \<le> b \<Longrightarrow> b \<le> c + 1 \<Longrightarrow> [a..b - 1] @ [b..c] = [a..(c::int)]"
proof (cases "b \<le> c")
  case False
  moreover assume "b \<le> c + 1"
  ultimately have "b = c + 1" by simp
  then show ?thesis by simp
qed (simp add: upto_split1 [of a b c])

lemma logRangesFrom_covers: "concat (map blocks (logRangesFrom start toBlock)) = [start..toBlock]"
proof (induction start toBlock rule: logRangesFrom.induct)
  case (1 start toBlock)
  show ?case
  proof (cases "start + 10000 \<le> toBlock + 1")
    case True
    have "start + 9999 < toBlock \<or> start + 9999 = toBlock" using True by linarith
    with 1 True upto_append [of start "start + 10000" toBlock] show ?thesis
      by (auto simp: logRangesFrom.simps [of start toBlock] readLimits_def)
  next
    case False
    with 1 show ?thesis
      by (auto simp: logRangesFrom.simps [of start toBlock] readLimits_def)
  qed
qed

lemma logRangesFrom_spans:
  "list_all (\<lambda>r. br_fromBlock r \<le> br_toBlock r \<and> br_toBlock r - br_fromBlock r < 10000) (logRangesFrom start toBlock)"
proof (induction start toBlock rule: logRangesFrom.induct)
  case (1 start toBlock)
  then show ?case by (auto simp: logRangesFrom.simps [of start toBlock] readLimits_def Let_def)
qed

lemma logRangesFrom_length:
  "start \<le> toBlock \<Longrightarrow> int (length (logRangesFrom start toBlock)) = (toBlock - start) div 10000 + 1"
proof (induction start toBlock rule: logRangesFrom.induct)
  case (1 start toBlock)
  show ?case
  proof (cases "start + 10000 \<le> toBlock")
    case True
    have "(toBlock - start) div 10000 = (toBlock - (start + 10000)) div 10000 + 1"
      using div_add_self2 [of 10000 "toBlock - (start + 10000)"] by simp
    with 1 True show ?thesis by (simp add: logRangesFrom.simps [of start toBlock] readLimits_def)
  next
    case False
    have "(toBlock - start) div 10000 = 0" using False 1(2) by simp
    with False 1(2) show ?thesis
      by (simp add: logRangesFrom.simps [of start toBlock] logRangesFrom.simps [of "start + 10000" toBlock] readLimits_def)
  qed
qed

text \<open>
  C16: The log ranges of a valid block range are queried in order, without gap and without overlap: put
  together they are the blocks of the range; none spans more than 10000 blocks, and there are as few as
  possible.
\<close>

theorem log_ranges_partition:
  assumes "0 \<le> br_fromBlock p" "br_fromBlock p \<le> br_toBlock p"
  shows "\<exists>rs. createToriumLogRanges p = Inr rs \<and> concat (map blocks rs) = blocks p \<and>
    list_all (\<lambda>r. br_fromBlock r \<le> br_toBlock r \<and> br_toBlock r - br_fromBlock r < 10000) rs \<and>
    int (length rs) = (br_toBlock p - br_fromBlock p) div 10000 + 1"
  using assms logRangesFrom_covers logRangesFrom_spans logRangesFrom_length
  by (auto simp: createToriumLogRanges_def)

theorem log_ranges_partition_witness:
  "\<exists>rs. createToriumLogRanges \<lparr>br_fromBlock = 5, br_toBlock = 25004\<rparr> = Inr rs \<and> length rs = 3"
proof -
  let ?p = "\<lparr>br_fromBlock = 5, br_toBlock = 25004\<rparr>"
  have "0 \<le> br_fromBlock ?p" "br_fromBlock ?p \<le> br_toBlock ?p" by simp_all
  then obtain rs where rs: "createToriumLogRanges ?p = Inr rs"
      "int (length rs) = (br_toBlock ?p - br_fromBlock ?p) div 10000 + 1"
    using log_ranges_partition [of ?p] by blast
  have "int (length rs) = 3" using rs(2) by simp
  with rs(1) show ?thesis by (intro exI [of _ rs]) simp
qed

text \<open>
  The fee history asks for an integral number of blocks from 1 to 100 and for nothing else.
\<close>

theorem fee_history_count_iff:
  "assertToriumFeeHistoryBlockCount x = Inr () \<longleftrightarrow> x \<in> NInt ` {1..100}"
proof
  assume "assertToriumFeeHistoryBlockCount x = Inr ()"
  then have i: "num_isInteger x" and b: "\<not> num_lt x (Fin 1)" "\<not> num_lt (Fin 100) x"
    by (auto simp: assertToriumFeeHistoryBlockCount_def readLimits_def)
  from i obtain n where n: "x = NInt n" by (rule num_isIntegerE)
  with b have "n \<in> {1..100}" by simp
  with n show "x \<in> NInt ` {1..100}" by blast
next
  assume "x \<in> NInt ` {1..100}"
  then show "assertToriumFeeHistoryBlockCount x = Inr ()"
    by (auto simp: assertToriumFeeHistoryBlockCount_def readLimits_def)
qed

section \<open>Network status\<close>

lemma requestStatusRpc_returns [returns_simps]:
  "requestStatusRpc E method sig w = (Inr v, w') \<longleftrightarrow> callExt E method [] w = (Inr v, w')"
proof -
  have "requestFailed J opn ck p method sig error w1 \<noteq> (Inr v, w')" for J opn ck p error w1
    by (metis fst_conv requestFailed_throws)
  then show ?thesis by (auto simp: requestStatusRpc_def tryP_def split: prod.splits sum.splits)
qed

definition isStatusError :: "thrown \<Rightarrow> bool" where
  "isStatusError t \<longleftrightarrow>
     (\<exists>e. t = Sdk e \<and> (se_category e = Cancellation \<longrightarrow> se_name e = ''ToriumEndpointValidationError''))"

text \<open>
  A cancellation of the network-status action, by whatever way it comes, reaches the caller as an
  endpoint-validation error; every other error is an error of the SDK too.
\<close>

theorem network_status_errors:
  "throwsOnly isStatusError (getToriumNetworkStatus E chain opts)"
proof -
  have "isStatusError t"
    if t: "fst (getToriumNetworkStatus E chain opts w) = Inl t" for w t
  proof -
    let ?m = "runAction E (networkStatusAction E chain opts) ((statusContext chain)\<lparr>cx_kind := Read\<rparr>) (st_action opts) True"
    obtain err where err: "fst (?m w) = Inl err"
      using t by (auto simp: getToriumNetworkStatus_def runToriumReadAction_def tryP_def split: prod.splits sum.splits)
    from runAction_throws [OF err] obtain e where e: "err = Sdk e" by blast
    show ?thesis
      using t err e
      by (auto simp: isStatusError_def getToriumNetworkStatus_def runToriumReadAction_def tryP_def throwP_def statusAborted_def
          newEndpointError_def Let_def split: prod.splits sum.splits if_splits)
  qed
  then show ?thesis by (simp add: throwsOnly_def)
qed

end
