(* ===== verification/Wallet.thy ===== *)
theory Wallet
  imports Clients Utils "HOL-Library.AList" "HOL-Library.List_Lexorder" "HOL-Library.Char_ord"
begin

text \<open>
  Transactions, \<^verbatim>\<open>packages/torium-sdk/src/wallet.ts\<close>: the normal form of a request, the preflight, the
  submission that asks for authorisation and sends once, and the wait for a receipt.

  A request is a JavaScript object, the list of its fields; the clients of the caller are external
  calls named by their methods.  \<open>serializeTransaction\<close> of viem is a parameter.  A rejected wait is a time-out
  of viem when the error has the name of that class, and an aborted signal throws its default reason.
\<close>

section \<open>Objects\<close>

definition ownFields :: "js_env \<Rightarrow> jsval \<Rightarrow> fields" where
  "ownFields J v = (case v of JArr xs \<Rightarrow> zip (map show_nat [0..<length xs]) xs | _ \<Rightarrow> toRecord J v)"

text \<open>\<open>{...fs, k: v}\<close>\<close>

definition putField :: "string \<Rightarrow> jsval \<Rightarrow> fields \<Rightarrow> fields" where
  "putField k v fs = AList.update k v fs"

definition removeUndefined :: "fields \<Rightarrow> fields" where
  "removeUndefined fs = filter (\<lambda>(k, v). v \<noteq> JUndefined) fs"

text \<open>Reading a property of a value that need not be an object.\<close>

definition getProp :: "js_env \<Rightarrow> jsval \<Rightarrow> string \<Rightarrow> js_exn + jsval" where
  "getProp J v k =
     (if isNullish v then Inl (TypeError ''Cannot read properties of undefined'') else Inr (fieldOf (toRecord J v) k))"

section \<open>Canonical chains\<close>

record client_chain =
  cc_id :: int
  cc_torium :: jsval
  cc_nativeCurrency :: jsval

text \<open>The definitions are plain data: no value occurs in them twice.\<close>

function sameCanonicalValue :: "jsval \<Rightarrow> jsval \<Rightarrow> bool" where
  "sameCanonicalValue left right =
     (if left = right then True
      else case (left, right) of
        (JObj fs, JObj gs) \<Rightarrow>
          (let leftKeys = sort (map fst fs); rightKeys = sort (map fst gs)
           in length leftKeys = length rightKeys \<and> leftKeys = rightKeys \<and>
              list_all (\<lambda>k. sameCanonicalValue (fieldOf fs k) (fieldOf gs k)) leftKeys)
      | (JArr xs, JArr ys) \<Rightarrow>
          length xs = length ys \<and> list_all (\<lambda>i. sameCanonicalValue (xs ! i) (ys ! i)) [0..<length xs]
      | _ \<Rightarrow> False)"
  by pat_completeness auto

lemma size_fieldOf: "k \<in> fst ` set fs \<Longrightarrow> size (fieldOf fs k) < size (JObj fs)"
proof (induction fs)
  case (Cons f fs)
  obtain k' v where f: "f = (k', v)" by fastforce
  show ?case
  proof (cases "k = k'")
    case False
    with Cons f have "size (fieldOf fs k) < size (JObj fs)" by auto
    with False f show ?thesis by simp
  qed (simp add: f)
qed simp

lemma size_nth: "i < length xs \<Longrightarrow> size (xs ! i) < size (JArr xs)"
  using size_list_estimation' [OF nth_mem, of i xs "size (xs ! i)" size] by simp

lemma size_fieldOf_pair: "(k, v) \<in> set fs \<Longrightarrow> size (fieldOf fs k) < Suc (size_list (size_prod (\<lambda>x. 0) size) fs)"
  using size_fieldOf [of k fs] by force

termination sameCanonicalValue
  by (relation "measure (\<lambda>(left, right). size left)") (auto dest: size_fieldOf_pair size_nth)

declare sameCanonicalValue.simps [simp del]

definition profileValue :: "rpc_profile \<Rightarrow> jsval" where
  "profileValue p =
     JObj [(''profileVersion'', JStr (profileVersion p)), (''maxBatchRequests'', JInt (maxBatchRequests p)),
       (''subscriptions'', JArr (map JStr (subscriptions p))),
       (''serverReplaysMissedMessages'', JBool (serverReplaysMissedMessages p)),
       (''clientReconnectRequired'', JBool (clientReconnectRequired p)),
       (''httpBackfillRequired'', JBool (httpBackfillRequired p))]"

definition metadataValue :: "chain_metadata \<Rightarrow> jsval" where
  "metadataValue t =
     JObj ([(''manifestVersion'', JStr (manifestVersion t)), (''environment'', JStr (environment t)),
       (''public'', JBool (public_network t)), (''cosmosChainId'', JStr (cosmosChainId t)),
       (''chainIdHex'', JStr (chainIdHex t)), (''networkId'', JInt (networkId t)), (''caip2'', JStr (caip2 t)),
       (''baseDenom'', JStr (baseDenom t)), (''endpointStatus'', JStr (endpointStatus t)),
       (''blockExplorerStatus'', JStr (blockExplorerStatus t)),
       (''contractRegistryStatus'', JStr (contractRegistryStatus t))] @
       optionField ''rpcProfile'' profileValue (rpcProfile t))"

definition currencyValue :: "native_currency \<Rightarrow> jsval" where
  "currencyValue c =
     JObj [(''decimals'', JInt (nc_decimals c)), (''name'', JStr (nc_name c)), (''symbol'', JStr (nc_symbol c))]"

definition assertToriumChain :: "client_chain \<Rightarrow> js_exn + unit" where
  "assertToriumChain chain =
     bindR (bindR (assertToriumChainId (JInt (cc_id chain))) getToriumChainById) (\<lambda>canonical.
       throwIf (\<not> isObjectLike (cc_torium chain)
           \<or> \<not> sameCanonicalValue (cc_torium chain) (metadataValue (torium canonical))
           \<or> \<not> sameCanonicalValue (cc_nativeCurrency chain) (currencyValue (nativeCurrency canonical)))
         (TypeError ''Torium wallet client requires a canonical Torium chain definition.''))"

section \<open>Requests\<close>

definition toriumMaxTransactionGas :: int where "toriumMaxTransactionGas = 25000000"

definition toriumMaxEncodedTransactionBytes :: int where "toriumMaxEncodedTransactionBytes = 131072"

definition toriumMinimumBaseFeePerGas :: int where "toriumMinimumBaseFeePerGas = 1000000000"

definition toriumMinimumPriorityFeePerGas :: int where "toriumMinimumPriorityFeePerGas = 1"

definition toriumTransactionRequestKeys :: "string list" where
  "toriumTransactionRequestKeys =
     [''account'', ''to'', ''data'', ''value'', ''gas'', ''nonce'', ''maxFeePerGas'', ''maxPriorityFeePerGas'',
      ''type'', ''accessList'']"

definition assertTransactionGas :: "jsval \<Rightarrow> js_exn + int" where
  "assertTransactionGas v =
     bindR (assertToriumUint256 v) (\<lambda>g.
       if g > toriumMaxTransactionGas
       then Inl (RangeError ''Torium transaction gas exceeds the local block gas limit.'') else Inr g)"

definition assertTransactionNonce :: "jsval \<Rightarrow> js_exn + int" where
  "assertTransactionNonce v =
     (case v of
        JNum x \<Rightarrow>
          if \<not> num_isSafeInteger x \<or> num_lt x (Fin 0)
          then Inl (RangeError ''Torium transaction nonce must be a non-negative safe integer.'')
          else Inr (num_int x)
      | _ \<Rightarrow> Inl (RangeError ''Torium transaction nonce must be a non-negative safe integer.''))"

definition getAccountAddress :: "js_env \<Rightarrow> viem \<Rightarrow> jsval \<Rightarrow> js_exn + string" where
  "getAccountAddress J V account =
     (if isString account then normalizeToriumEvmAddress V account
      else bindR (getProp J account ''address'') (normalizeToriumEvmAddress V))"

definition normalizeAccessEntry :: "js_env \<Rightarrow> viem \<Rightarrow> jsval \<Rightarrow> js_exn + jsval" where
  "normalizeAccessEntry J V entry =
     (case fieldOf (toRecord J entry) ''storageKeys'' of
        JArr keys \<Rightarrow>
          bindR (normalizeToriumEvmAddress V (fieldOf (toRecord J entry) ''address'')) (\<lambda>address.
          bindR (mapR normalizeToriumHash keys) (\<lambda>hashes.
          Inr (JObj [(''address'', JStr address), (''storageKeys'', JArr (map JStr hashes))])))
      | _ \<Rightarrow> Inl (TypeError ''Torium transaction access-list entry is invalid.''))"

definition normalizeAccessList :: "js_env \<Rightarrow> viem \<Rightarrow> jsval \<Rightarrow> js_exn + jsval" where
  "normalizeAccessList J V accessList =
     (case accessList of
        JUndefined \<Rightarrow> Inr JUndefined
      | JArr entries \<Rightarrow> bindR (mapR (normalizeAccessEntry J V) entries) (\<lambda>es. Inr (JArr es))
      | _ \<Rightarrow> Inl (TypeError ''Torium transaction access list must be an array.''))"

definition whenDefined :: "(jsval \<Rightarrow> 'e + 'a) \<Rightarrow> jsval \<Rightarrow> 'e + 'a option" where
  "whenDefined f v = (if v = JUndefined then Inr None else bindR (f v) (\<lambda>x. Inr (Some x)))"

text \<open>The recipient: absent, explicitly null, or an address.\<close>

definition normalizeTo :: "viem \<Rightarrow> jsval \<Rightarrow> js_exn + jsval" where
  "normalizeTo V v = (if isNullish v then Inr v else bindR (normalizeToriumEvmAddress V v) (\<lambda>a. Inr (JStr a)))"

definition checkFees :: "int option \<Rightarrow> int option \<Rightarrow> js_exn + unit" where
  "checkFees maxFee maxPriority =
     bindR (throwIf (case maxPriority of None \<Rightarrow> False | Some p \<Rightarrow> p < toriumMinimumPriorityFeePerGas)
       (RangeError ''Torium maximum priority fee is below the protocol minimum.'')) (\<lambda>_.
     bindR (throwIf (case maxFee of None \<Rightarrow> False
         | Some f \<Rightarrow> f < toriumMinimumBaseFeePerGas + orElse maxPriority toriumMinimumPriorityFeePerGas)
       (RangeError ''Torium maximum fee cannot cover the protocol base fee and priority fee.'')) (\<lambda>_.
     throwIf (case (maxFee, maxPriority) of (Some f, Some p) \<Rightarrow> p > f | _ \<Rightarrow> False)
       (RangeError ''Torium maximum priority fee must not exceed the maximum fee.'')))"

definition normalizeToriumTransactionRequest :: "js_env \<Rightarrow> viem \<Rightarrow> jsval \<Rightarrow> js_exn + fields" where
  "normalizeToriumTransactionRequest J V request =
     (let fs = ownFields J request; get = fieldOf fs in
      bindR (throwIf (\<not> isObjectLike request) (TypeError ''Torium transaction request must be an object.'')) (\<lambda>_.
      bindR (throwIf (list_ex (\<lambda>k. k \<notin> set toriumTransactionRequestKeys) (map fst fs))
        (TypeError ''Torium stable transaction helper received an unsupported standard EVM field.'')) (\<lambda>_.
      bindR (throwIf (isNullish (get ''account'')) (TypeError ''Torium transaction requires an explicit account.'')) (\<lambda>_.
      bindR (throwIf (get ''type'' \<noteq> JUndefined \<and> get ''type'' \<noteq> JStr ''eip1559'')
        (TypeError ''Torium stable transaction helper accepts EIP-1559 requests only.'')) (\<lambda>_.
      bindR (getAccountAddress J V (get ''account'')) (\<lambda>accountAddress.
      bindR (normalizeTo V (get ''to'')) (\<lambda>to.
      bindR (whenDefined normalizeToriumHexData (get ''data'')) (\<lambda>data.
      bindR (throwIf (isNullish to \<and> (data = None \<or> data = Some ''0x''))
        (TypeError ''Torium contract deployment requires non-empty standard EVM bytecode.'')) (\<lambda>_.
      bindR (throwIf (case data of None \<Rightarrow> False | Some d \<Rightarrow> int (length d) - 2 \<ge> 2 * toriumMaxEncodedTransactionBytes)
        (RangeError ''Torium transaction data cannot fit within the encoded transaction limit.'')) (\<lambda>_.
      bindR (whenDefined assertToriumUint256 (get ''value'')) (\<lambda>_.
      bindR (whenDefined assertTransactionGas (get ''gas'')) (\<lambda>_.
      bindR (whenDefined assertTransactionNonce (get ''nonce'')) (\<lambda>_.
      bindR (whenDefined assertToriumUint256 (get ''maxFeePerGas'')) (\<lambda>maxFee.
      bindR (whenDefined assertToriumUint256 (get ''maxPriorityFeePerGas'')) (\<lambda>maxPriority.
      bindR (checkFees maxFee maxPriority) (\<lambda>_.
      bindR (normalizeAccessList J V (get ''accessList'')) (\<lambda>accessList.
      Inr (removeUndefined
        (putField ''accessList'' accessList
        (putField ''data'' (case data of None \<Rightarrow> JUndefined | Some d \<Rightarrow> JStr d)
        (putField ''to'' to
        (putField ''account'' (if isString (get ''account'') then JStr accountAddress else get ''account'')
        (putField ''type'' (JStr ''eip1559'') fs)))))))))))))))))))))))"

section \<open>Preflight\<close>

record envelope =
  en_chainId :: int
  en_nonce :: int
  en_maxFeePerGas :: int
  en_maxPriorityFeePerGas :: int
  en_gas :: int
  en_to :: jsval
  en_value :: int
  en_data :: string
  en_accessList :: jsval

record wallet_viem =
  wv_viem :: viem
  wv_serialize :: "envelope \<Rightarrow> string \<Rightarrow> js_exn + string"

definition maximumLengthSignatureComponent :: string where
  "maximumLengthSignatureComponent = ''0x'' @ replicate 64 CHR ''f''"

definition getMaximumSignedTransactionBytes :: "wallet_viem \<Rightarrow> envelope \<Rightarrow> js_exn + real" where
  "getMaximumSignedTransactionBytes W request =
     bindR (wv_serialize W request maximumLengthSignatureComponent) (\<lambda>serialized.
       Inr ((real (length serialized) - 2) / 2))"

record preflight =
  pf_chainId :: int
  pf_account :: string
  pf_to :: jsval
  pf_data :: string
  pf_value :: int
  pf_accessList :: jsval
  pf_gasEstimate :: int
  pf_gasLimit :: int
  pf_maxFeePerGas :: int
  pf_maxPriorityFeePerGas :: int
  pf_maximumCost :: int
  pf_balance :: jsval
  pf_pendingNonce :: int
  pf_requestedNonce :: int
  pf_encodedTransactionBytes :: real
  pf_canSubmit :: bool
  pf_blockers :: "string list"

definition abortReason :: jsval where
  "abortReason = JObj [(''name'', JStr ''AbortError''), (''message'', JStr ''This operation was aborted''), (''code'', JInt 20)]"

definition throwAborted :: "signal \<Rightarrow> unit proc" where
  "throwAborted sig w = (if abortedAt sig (w_clock w) then throwP (Val abortReason) w else returnP () w)"

text \<open>
  \<open>Promise.all\<close>: every call leaves at once; the first rejection in time rejects the whole, and
  without one the whole takes as long as its slowest call.
\<close>

fun rejection :: "(nat \<times> (thrown + jsval)) list \<Rightarrow> (nat \<times> thrown) option" where
  "rejection [] = None"
| "rejection ((d, Inr v) # xs) = rejection xs"
| "rejection ((d, Inl e) # xs) =
     (case rejection xs of None \<Rightarrow> Some (d, e) | Some (d', e') \<Rightarrow> if d' < d then Some (d', e') else Some (d, e))"

fun fulfilled :: "(nat \<times> (thrown + jsval)) list \<Rightarrow> jsval list" where
  "fulfilled [] = []"
| "fulfilled ((d, Inr v) # xs) = v # fulfilled xs"
| "fulfilled ((d, Inl e) # xs) = fulfilled xs"

definition promiseAll :: "env \<Rightarrow> (string \<times> jsval list) list \<Rightarrow> jsval list proc" where
  "promiseAll E calls w =
     (let n = length (w_trace w);
          answers = map (\<lambda>(i, name, args). ev_call E (n + i) name args) (enumerate 0 calls);
          w' = w\<lparr>w_trace := w_trace w @ calls\<rparr>
      in case rejection answers of
           Some (d, e) \<Rightarrow> (Inl e, w'\<lparr>w_clock := w_clock w + d\<rparr>)
         | None \<Rightarrow> (Inr (fulfilled answers), w'\<lparr>w_clock := w_clock w + fold max (map fst answers) 0\<rparr>))"

text \<open>\<open>v < n\<close> for a big integer \<open>n\<close>; viem answers a balance as a big integer, and no text is compared here.\<close>

fun ltBigInt :: "jsval \<Rightarrow> int \<Rightarrow> bool" where
  "ltBigInt (JBigInt v) n = (v < n)"
| "ltBigInt (JNum x) n = num_lt x (NInt n)"
| "ltBigInt JNull n = (0 < n)"
| "ltBigInt (JBool b) n = ((if b then 1 else 0) < n)"
| "ltBigInt _ n = False"

text \<open>A field of a normalised request: absent, or of the type that the normal form guarantees.\<close>

definition bigField :: "fields \<Rightarrow> string \<Rightarrow> int option" where
  "bigField fs k = (case fieldOf fs k of JBigInt v \<Rightarrow> Some v | _ \<Rightarrow> None)"

definition numField :: "fields \<Rightarrow> string \<Rightarrow> int option" where
  "numField fs k = (case fieldOf fs k of JNum x \<Rightarrow> Some (num_int x) | _ \<Rightarrow> None)"

definition textField :: "fields \<Rightarrow> string \<Rightarrow> string option" where
  "textField fs k = (case fieldOf fs k of JStr s \<Rightarrow> Some s | _ \<Rightarrow> None)"

text \<open>The fee of a request, or else that of the estimate.\<close>

definition feeOf :: "js_env \<Rightarrow> fields \<Rightarrow> jsval \<Rightarrow> string \<Rightarrow> js_exn + jsval" where
  "feeOf J fs estimated k =
     (case bigField fs k of Some v \<Rightarrow> Inr (JBigInt v) | None \<Rightarrow> getProp J estimated k)"

definition blockersOf :: "int \<Rightarrow> int \<Rightarrow> jsval \<Rightarrow> int \<Rightarrow> int \<Rightarrow> int \<Rightarrow> string list" where
  "blockersOf gasLimit gasEstimate balance maximumCost requestedNonce pendingNonce =
     (if gasLimit < gasEstimate then [''gas-below-estimate''] else []) @
     (if ltBigInt balance maximumCost then [''insufficient-funds''] else []) @
     (if requestedNonce \<noteq> pendingNonce then [''nonce-mismatch''] else [])"

text \<open>The verdict, and the defaults of the fields that the request leaves out.\<close>

definition preflightRecord ::
  "fields \<Rightarrow> string \<Rightarrow> int \<Rightarrow> int \<Rightarrow> jsval \<Rightarrow> int \<Rightarrow> int \<Rightarrow> int \<Rightarrow> int \<Rightarrow> real \<Rightarrow> preflight" where
  "preflightRecord normalized account chainId gasEstimate balance pendingNonce maxFee maxPriority maximumCost bytes =
     (let gasLimit = orElse (bigField normalized ''gas'') gasEstimate;
          requestedNonce = orElse (numField normalized ''nonce'') pendingNonce;
          blockers = blockersOf gasLimit gasEstimate balance maximumCost requestedNonce pendingNonce
      in \<lparr>pf_chainId = chainId, pf_account = account, pf_to = nullish (fieldOf normalized ''to'') JNull,
          pf_data = orElse (textField normalized ''data'') ''0x'',
          pf_value = orElse (bigField normalized ''value'') 0,
          pf_accessList = nullish (fieldOf normalized ''accessList'') (JArr []), pf_gasEstimate = gasEstimate,
          pf_gasLimit = gasLimit, pf_maxFeePerGas = maxFee, pf_maxPriorityFeePerGas = maxPriority,
          pf_maximumCost = maximumCost, pf_balance = balance, pf_pendingNonce = pendingNonce,
          pf_requestedNonce = requestedNonce, pf_encodedTransactionBytes = bytes,
          pf_canSubmit = (blockers = []), pf_blockers = blockers\<rparr>)"

text \<open>The part after the answers of the four reads.\<close>

definition preflightResult ::
  "js_env \<Rightarrow> wallet_viem \<Rightarrow> fields \<Rightarrow> string \<Rightarrow> int \<Rightarrow> jsval \<Rightarrow> jsval \<Rightarrow> jsval \<Rightarrow> jsval \<Rightarrow> js_exn + preflight" where
  "preflightResult J W normalized account chainId gasAnswer fees balance nonceAnswer =
     bindR (assertTransactionGas gasAnswer) (\<lambda>gasEstimate.
     bindR (assertTransactionNonce nonceAnswer) (\<lambda>pendingNonce.
     bindR (feeOf J normalized fees ''maxFeePerGas'') (\<lambda>maxFeeAnswer.
     bindR (feeOf J normalized fees ''maxPriorityFeePerGas'') (\<lambda>maxPriorityAnswer.
     bindR (assertToriumUint256 maxFeeAnswer) (\<lambda>maxFee.
     bindR (assertToriumUint256 maxPriorityAnswer) (\<lambda>maxPriority.
     bindR (throwIf (maxPriority > maxFee)
       (RangeError ''Torium maximum priority fee must not exceed the maximum fee.'')) (\<lambda>_.
     bindR (throwIf (maxPriority < toriumMinimumPriorityFeePerGas)
       (RangeError ''Torium maximum priority fee is below the protocol minimum.'')) (\<lambda>_.
     bindR (throwIf (maxFee < toriumMinimumBaseFeePerGas + maxPriority)
       (RangeError ''Torium maximum fee cannot cover the protocol base fee and priority fee.'')) (\<lambda>_.
     let gasLimit = orElse (bigField normalized ''gas'') gasEstimate;
         amount = orElse (bigField normalized ''value'') 0;
         requestedNonce = orElse (numField normalized ''nonce'') pendingNonce;
         data = orElse (textField normalized ''data'') ''0x'';
         accessList = nullish (fieldOf normalized ''accessList'') (JArr [])
     in bindR (assertToriumUint256 (JBigInt (gasLimit * maxFee + amount))) (\<lambda>maximumCost.
     bindR (getMaximumSignedTransactionBytes W
       \<lparr>en_chainId = chainId, en_nonce = requestedNonce, en_maxFeePerGas = maxFee,
        en_maxPriorityFeePerGas = maxPriority, en_gas = gasLimit, en_to = fieldOf normalized ''to'',
        en_value = amount, en_data = data, en_accessList = accessList\<rparr>) (\<lambda>bytes.
     bindR (throwIf (bytes > of_int toriumMaxEncodedTransactionBytes)
       (RangeError ''Torium signed transaction exceeds the encoded transaction limit.'')) (\<lambda>_.
     Inr (preflightRecord normalized account chainId gasEstimate balance pendingNonce maxFee maxPriority maximumCost bytes)))))))))))))"

definition simulationRequest :: "fields \<Rightarrow> string \<Rightarrow> fields" where
  "simulationRequest normalized account =
     removeUndefined (putField ''gas'' JUndefined (putField ''account'' (JStr account) normalized))"

definition preflightReads :: "fields \<Rightarrow> string \<Rightarrow> (string \<times> jsval list) list" where
  "preflightReads simulation account =
     [(''estimateGas'', [JObj simulation]),
      (''estimateFeesPerGas'', [JObj [(''type'', JStr ''eip1559'')]]),
      (''getBalance'', [JObj [(''address'', JStr account), (''blockTag'', JStr ''pending'')]]),
      (''getTransactionCount'', [JObj [(''address'', JStr account), (''blockTag'', JStr ''pending'')]])]"

definition preflightToriumTransactionImpl ::
  "env \<Rightarrow> wallet_viem \<Rightarrow> client_chain \<Rightarrow> jsval \<Rightarrow> signal \<Rightarrow> preflight proc" where
  "preflightToriumTransactionImpl E W chain request sig =
     bindP (throwAborted sig) (\<lambda>_.
     bindP (liftExn (normalizeToriumTransactionRequest (ev_js E) (wv_viem W) request)) (\<lambda>normalized.
     bindP (liftExn (getAccountAddress (ev_js E) (wv_viem W) (fieldOf normalized ''account''))) (\<lambda>account.
     bindP (liftExn (assertToriumChain chain)) (\<lambda>_.
     bindP (callExt E ''getChainId'' []) (\<lambda>observedChainId.
     bindP (throwAborted sig) (\<lambda>_.
     bindP (liftExn (throwIf (observedChainId \<noteq> JInt (cc_id chain))
       (RangeError ''Torium preflight endpoint does not match the configured chain.''))) (\<lambda>_.
     let simulation = simulationRequest normalized account in
     bindP (callExt E ''call'' [JObj simulation]) (\<lambda>_.
     bindP (throwAborted sig) (\<lambda>_.
     bindP (promiseAll E (preflightReads simulation account)) (\<lambda>answers.
     bindP (throwAborted sig) (\<lambda>_.
     liftExn (preflightResult (ev_js E) W normalized account (cc_id chain)
       (answers ! 0) (answers ! 1) (answers ! 2) (answers ! 3)))))))))))))"

definition preflightContext :: "client_chain \<Rightarrow> error_context" where
  "preflightContext chain =
     \<lparr>cx_operation = ''preflightToriumTransaction'', cx_kind = Read, cx_clientKind = Some WalletClient,
      cx_method = Some ''eth_call'', cx_chainId = Some (cc_id chain), cx_requestId = None,
      cx_fallbackCategory = Some Simulation\<rparr>"

definition preflightToriumTransaction ::
  "env \<Rightarrow> wallet_viem \<Rightarrow> client_chain \<Rightarrow> jsval \<Rightarrow> action_options \<Rightarrow> preflight proc" where
  "preflightToriumTransaction E W chain request opts =
     runToriumReadAction E (\<lambda>attempt sig. preflightToriumTransactionImpl E W chain request sig)
       (preflightContext chain) opts"

section \<open>Submission\<close>

definition preflightValue :: "preflight \<Rightarrow> jsval" where
  "preflightValue p =
     JObj [(''chainId'', JInt (pf_chainId p)), (''account'', JStr (pf_account p)), (''to'', pf_to p),
       (''data'', JStr (pf_data p)), (''value'', JBigInt (pf_value p)), (''accessList'', pf_accessList p),
       (''type'', JStr ''eip1559''), (''gasEstimate'', JBigInt (pf_gasEstimate p)),
       (''gasLimit'', JBigInt (pf_gasLimit p)), (''maxFeePerGas'', JBigInt (pf_maxFeePerGas p)),
       (''maxPriorityFeePerGas'', JBigInt (pf_maxPriorityFeePerGas p)),
       (''maximumCost'', JBigInt (pf_maximumCost p)), (''balance'', pf_balance p),
       (''pendingNonce'', JInt (pf_pendingNonce p)), (''requestedNonce'', JInt (pf_requestedNonce p)),
       (''encodedTransactionBytes'', JNum (Fin (pf_encodedTransactionBytes p))),
       (''canSubmit'', JBool (pf_canSubmit p)), (''blockers'', JArr (map JStr (pf_blockers p)))]"

definition chainValue :: "client_chain \<Rightarrow> jsval" where
  "chainValue c =
     JObj [(''id'', JInt (cc_id c)), (''torium'', cc_torium c), (''nativeCurrency'', cc_nativeCurrency c)]"

definition sendOptions :: "client_chain \<Rightarrow> string \<Rightarrow> category \<Rightarrow> string \<Rightarrow> sdk_options" where
  "sendOptions chain errorCode category message =
     (sdkOptions errorCode category)
       \<lparr>so_message := Some message, so_operation := Some ''sendToriumTransactionOnce'', so_kind := Some Broadcast,
        so_clientKind := Some WalletClient, so_method := Some ''eth_sendTransaction'',
        so_chainId := Some (cc_id chain), so_retryable := Some False, so_safeToRetry := Some False\<rparr>"

definition blockedError :: "js_env \<Rightarrow> client_chain \<Rightarrow> string list \<Rightarrow> sdk_error" where
  "blockedError J chain blockers =
     (let category = (if ''insufficient-funds'' \<in> set blockers then Funds
            else if ''nonce-mismatch'' \<in> set blockers then Nonce else Simulation);
          errorCode = (if category = Funds then ''TORIUM_FUNDS_INSUFFICIENT''
            else if category = Nonce then ''TORIUM_NONCE_INVALID'' else ''TORIUM_SIMULATION_FAILED'')
      in newToriumSdkError J ((sendOptions chain errorCode category
           ''Torium transaction preflight did not authorize submission.'')\<lparr>so_issues := Some blockers\<rparr>))"

definition rejectedError :: "js_env \<Rightarrow> client_chain \<Rightarrow> sdk_error" where
  "rejectedError J chain =
     newToriumSdkError J (sendOptions chain ''TORIUM_CANCELLED'' Cancellation
       ''Torium transaction authorization was rejected.'')"

definition preparedFields :: "fields \<Rightarrow> preflight \<Rightarrow> fields" where
  "preparedFields snapshot p =
     putField ''maxPriorityFeePerGas'' (JBigInt (pf_maxPriorityFeePerGas p))
       (putField ''maxFeePerGas'' (JBigInt (pf_maxFeePerGas p))
         (putField ''nonce'' (JInt (pf_requestedNonce p))
           (putField ''gas'' (JBigInt (pf_gasLimit p))
             (putField ''type'' (JStr ''eip1559'') snapshot))))"

text \<open>From the authorisation on: nothing is sent unless the answer is the value \<open>true\<close>.\<close>

definition authorizeAndSend ::
  "env \<Rightarrow> wallet_viem \<Rightarrow> client_chain \<Rightarrow> preflight \<Rightarrow> fields \<Rightarrow> signal \<Rightarrow> string proc" where
  "authorizeAndSend E W chain p prepared sig =
     bindP (throwAborted sig) (\<lambda>_.
     bindP (callExt E ''authorize'' [preflightValue p]) (\<lambda>authorized.
     bindP (throwSdkIf (authorized \<noteq> JBool True) (rejectedError (ev_js E) chain)) (\<lambda>_.
     bindP (throwAborted sig) (\<lambda>_.
     bindP (liftExn (getAccountAddress (ev_js E) (wv_viem W) (fieldOf prepared ''account''))) (\<lambda>signer.
     bindP (liftExn (throwIf (signer \<noteq> pf_account p)
       (PlainError ''Torium transaction signer changed after authorization.''))) (\<lambda>_.
     bindP (callExt E ''sendTransaction'' [JObj (putField ''chain'' (chainValue chain) prepared)]) (\<lambda>answer.
     liftExn (normalizeToriumHash answer))))))))"

definition sendToriumTransactionOnceImpl ::
  "env \<Rightarrow> wallet_viem \<Rightarrow> client_chain \<Rightarrow> client_chain \<Rightarrow> jsval \<Rightarrow> signal \<Rightarrow> string proc" where
  "sendToriumTransactionOnceImpl E W chain preflightChain request sig =
     bindP (throwAborted sig) (\<lambda>_.
     bindP (liftExn (assertToriumChain chain)) (\<lambda>_.
     bindP (liftExn (assertToriumChain preflightChain)) (\<lambda>_.
     bindP (liftExn (throwIf (cc_id chain \<noteq> cc_id preflightChain)
       (RangeError ''Torium wallet and preflight clients must use the same chain.''))) (\<lambda>_.
     bindP (liftExn (normalizeToriumTransactionRequest (ev_js E) (wv_viem W) request)) (\<lambda>snapshot.
     bindP (preflightToriumTransactionImpl E W preflightChain (JObj snapshot) sig) (\<lambda>p.
     bindP (throwSdkIf (\<not> pf_canSubmit p) (blockedError (ev_js E) chain (pf_blockers p))) (\<lambda>_.
     bindP (liftExn (normalizeToriumTransactionRequest (ev_js E) (wv_viem W) (JObj (preparedFields snapshot p)))) (\<lambda>prepared.
     authorizeAndSend E W chain p prepared sig))))))))"

definition sendContext :: "client_chain \<Rightarrow> error_context" where
  "sendContext chain =
     \<lparr>cx_operation = ''sendToriumTransactionOnce'', cx_kind = Broadcast, cx_clientKind = Some WalletClient,
      cx_method = Some ''eth_sendTransaction'', cx_chainId = Some (cc_id chain), cx_requestId = None,
      cx_fallbackCategory = Some Transport\<rparr>"

text \<open>The acknowledgement: its hash, with the fixed fields \<open>status\<close> and the two disclaimers.\<close>

definition sendToriumTransactionOnce ::
  "env \<Rightarrow> wallet_viem \<Rightarrow> client_chain \<Rightarrow> client_chain \<Rightarrow> jsval \<Rightarrow> action_options \<Rightarrow> string proc" where
  "sendToriumTransactionOnce E W chain preflightChain request opts =
     runToriumWriteActionOnce E (\<lambda>attempt sig. sendToriumTransactionOnceImpl E W chain preflightChain request sig)
       (sendContext chain) opts"

section \<open>Receipts\<close>

datatype lifecycle = Committed string jsval | Reverted string jsval | UnknownOutcome string

definition isReceiptTimeout :: "js_env \<Rightarrow> thrown \<Rightarrow> bool" where
  "isReceiptTimeout J t =
     (case t of Sdk e \<Rightarrow> False
      | Val v \<Rightarrow> fieldOf (toRecord J v) ''name'' = JStr ''WaitForTransactionReceiptTimeoutError'')"

definition readReceipt :: "js_env \<Rightarrow> string \<Rightarrow> jsval \<Rightarrow> js_exn + lifecycle" where
  "readReceipt J hash receipt =
     bindR (getProp J receipt ''status'') (\<lambda>status.
     bindR (throwIf (status \<noteq> JStr ''success'' \<and> status \<noteq> JStr ''reverted'')
       (TypeError ''Torium receipt returned an unsupported transaction status.'')) (\<lambda>_.
     bindR (normalizeToriumHash (fieldOf (toRecord J receipt) ''transactionHash'')) (\<lambda>h.
     bindR (throwIf (h \<noteq> hash) (TypeError ''Torium receipt transaction hash does not match the requested hash.'')) (\<lambda>_.
     Inr (if status = JStr ''success'' then Committed hash receipt else Reverted hash receipt)))))"

definition waitForToriumTransactionImpl ::
  "env \<Rightarrow> jsval \<Rightarrow> jsval \<Rightarrow> jsval \<Rightarrow> lifecycle proc" where
  "waitForToriumTransactionImpl E hashValue confirmationsValue timeoutValue =
     (let confirmations = nullish confirmationsValue (JInt 1); timeout = nullish timeoutValue (JInt 180000) in
      bindP (liftExn (normalizeToriumHash hashValue)) (\<lambda>hash.
      bindP (liftExn (throwIf (case confirmations of JNum x \<Rightarrow> \<not> num_isInteger x \<or> num_lt x (Fin 1) | _ \<Rightarrow> True)
        (RangeError ''Torium receipt confirmations must be a positive integer.''))) (\<lambda>_.
      bindP (liftExn (throwIf (case timeout of JNum x \<Rightarrow> \<not> num_isSafeInteger x \<or> num_lt x (Fin 1) | _ \<Rightarrow> True)
        (RangeError ''Torium receipt timeout must be a positive safe integer.''))) (\<lambda>_.
      tryP (bindP (callExt E ''waitForTransactionReceipt''
               [JObj [(''hash'', JStr hash), (''confirmations'', confirmations), (''timeout'', timeout),
                      (''checkReplacement'', JBool False)]]) (\<lambda>receipt.
             liftExn (readReceipt (ev_js E) hash receipt)))
        (\<lambda>error. if \<not> isReceiptTimeout (ev_js E) error then throwP error else returnP (UnknownOutcome hash))))))"

definition waitContext :: error_context where
  "waitContext =
     \<lparr>cx_operation = ''waitForToriumTransaction'', cx_kind = Read, cx_clientKind = Some WalletClient,
      cx_method = Some ''eth_getTransactionReceipt'', cx_chainId = None, cx_requestId = None,
      cx_fallbackCategory = Some Rpc\<rparr>"

definition waitForToriumTransaction ::
  "env \<Rightarrow> jsval \<Rightarrow> jsval \<Rightarrow> jsval \<Rightarrow> action_options \<Rightarrow> lifecycle proc" where
  "waitForToriumTransaction E hashValue confirmationsValue timeoutValue opts =
     runToriumReadAction E (\<lambda>attempt sig. waitForToriumTransactionImpl E hashValue confirmationsValue timeoutValue)
       waitContext opts"

section \<open>Fields\<close>

lemma fieldOf_putField [simp]: "fieldOf (putField k v fs) k' = (if k' = k then v else fieldOf fs k')"
  by (simp add: putField_def fieldOf_def update_conv')

lemma keys_putField: "set (map fst (putField k v fs)) = insert k (set (map fst fs))"
  by (auto simp: putField_def dom_update)

lemma distinct_putField [simp]: "distinct (map fst fs) \<Longrightarrow> distinct (map fst (putField k v fs))"
  by (simp add: putField_def distinct_update)

lemma fieldOf_absent: "k \<notin> fst ` set fs \<Longrightarrow> fieldOf fs k = JUndefined"
  by (induction fs) auto

lemma removeUndefined_keys: "fst ` set (removeUndefined fs) \<subseteq> fst ` set fs"
  by (auto simp: removeUndefined_def)

lemma fieldOf_removeUndefined [simp]:
  "distinct (map fst fs) \<Longrightarrow> fieldOf (removeUndefined fs) k = fieldOf fs k"
proof (induction fs)
  case (Cons f fs)
  obtain k' v where f: "f = (k', v)" by fastforce
  have r: "removeUndefined (f # fs) = (if v = JUndefined then removeUndefined fs else f # removeUndefined fs)"
    by (simp add: removeUndefined_def f)
  have "fieldOf (removeUndefined fs) k' = JUndefined"
    using Cons.prems f removeUndefined_keys [of fs] by (intro fieldOf_absent) auto
  with Cons f r show ?case by auto
qed (simp add: removeUndefined_def)

lemma distinct_removeUndefined [simp]: "distinct (map fst fs) \<Longrightarrow> distinct (map fst (removeUndefined fs))"
  by (simp add: removeUndefined_def distinct_map_filter)

section \<open>The normal form of a request\<close>

lemma whenDefined_Inr:
  "whenDefined f v = Inr m \<longleftrightarrow> (v = JUndefined \<and> m = None) \<or> (v \<noteq> JUndefined \<and> (\<exists>x. f v = Inr x \<and> m = Some x))"
  by (auto simp: whenDefined_def bindR_Inr_iff)

lemma checkFees_Inr:
  "checkFees maxFee maxPriority = Inr () \<longleftrightarrow>
     (\<forall>p. maxPriority = Some p \<longrightarrow> 1 \<le> p) \<and>
     (\<forall>f. maxFee = Some f \<longrightarrow> 1000000000 + orElse maxPriority 1 \<le> f) \<and>
     (\<forall>f p. maxFee = Some f \<longrightarrow> maxPriority = Some p \<longrightarrow> p \<le> f)"
  unfolding checkFees_def toriumMinimumPriorityFeePerGas_def toriumMinimumBaseFeePerGas_def
  by (cases maxFee; cases maxPriority) (auto simp: bindR_Inr_iff)

text \<open>What the normal form of a request with the fields \<open>fs\<close> is made of.\<close>

lemma normalize_parts:
  assumes "normalizeToriumTransactionRequest J V request = Inr fs"
  obtains accountAddress to data maxFee maxPriority accessList where
    "isObjectLike request" "\<forall>k \<in> fst ` set (ownFields J request). k \<in> set toriumTransactionRequestKeys"
    "\<not> isNullish (fieldOf (ownFields J request) ''account'')"
    "fieldOf (ownFields J request) ''type'' \<in> {JUndefined, JStr ''eip1559''}"
    "getAccountAddress J V (fieldOf (ownFields J request) ''account'') = Inr accountAddress"
    "normalizeTo V (fieldOf (ownFields J request) ''to'') = Inr to"
    "whenDefined normalizeToriumHexData (fieldOf (ownFields J request) ''data'') = Inr data"
    "\<not> (isNullish to \<and> (data = None \<or> data = Some ''0x''))"
    "\<not> (case data of None \<Rightarrow> False | Some d \<Rightarrow> int (length d) - 2 \<ge> 2 * toriumMaxEncodedTransactionBytes)"
    "\<exists>x. whenDefined assertToriumUint256 (fieldOf (ownFields J request) ''value'') = Inr x"
    "\<exists>x. whenDefined assertTransactionGas (fieldOf (ownFields J request) ''gas'') = Inr x"
    "\<exists>x. whenDefined assertTransactionNonce (fieldOf (ownFields J request) ''nonce'') = Inr x"
    "whenDefined assertToriumUint256 (fieldOf (ownFields J request) ''maxFeePerGas'') = Inr maxFee"
    "whenDefined assertToriumUint256 (fieldOf (ownFields J request) ''maxPriorityFeePerGas'') = Inr maxPriority"
    "checkFees maxFee maxPriority = Inr ()"
    "normalizeAccessList J V (fieldOf (ownFields J request) ''accessList'') = Inr accessList"
    "fs = removeUndefined
        (putField ''accessList'' accessList
        (putField ''data'' (case data of None \<Rightarrow> JUndefined | Some d \<Rightarrow> JStr d)
        (putField ''to'' to
        (putField ''account'' (if isString (fieldOf (ownFields J request) ''account'') then JStr accountAddress
           else fieldOf (ownFields J request) ''account'')
        (putField ''type'' (JStr ''eip1559'') (ownFields J request))))))"
  using assms unfolding normalizeToriumTransactionRequest_def Let_def bindR_Inr_iff throwIf_Inr
  by (elim exE conjE) (rule that; (assumption | (erule sum.inject(2) [THEN iffD1, THEN sym]) | (erule exI) | (simp add: list_ex_iff)))


definition normal_request :: "js_env \<Rightarrow> viem \<Rightarrow> fields \<Rightarrow> bool" where
  "normal_request J V fs \<longleftrightarrow>
     distinct (map fst fs) \<and> fst ` set fs \<subseteq> set toriumTransactionRequestKeys \<and> JUndefined \<notin> snd ` set fs \<and>
     fieldOf fs ''type'' = JStr ''eip1559'' \<and>
     (\<exists>a. getAccountAddress J V (fieldOf fs ''account'') = Inr a \<and>
        (isString (fieldOf fs ''account'') \<longrightarrow> fieldOf fs ''account'' = JStr a)) \<and>
     normalizeTo V (fieldOf fs ''to'') = Inr (fieldOf fs ''to'') \<and>
     (fieldOf fs ''data'' = JUndefined \<or>
       (\<exists>d. fieldOf fs ''data'' = JStr d \<and> hex_data d \<and> toLowerCase d = d \<and> length d < 262146)) \<and>
     \<not> (isNullish (fieldOf fs ''to'') \<and> fieldOf fs ''data'' \<in> {JUndefined, JStr ''0x''}) \<and>
     (fieldOf fs ''value'' = JUndefined \<or> (\<exists>v. fieldOf fs ''value'' = JBigInt v \<and> uint256 v)) \<and>
     (fieldOf fs ''gas'' = JUndefined \<or> (\<exists>g. fieldOf fs ''gas'' = JBigInt g \<and> 0 \<le> g \<and> g \<le> 25000000)) \<and>
     (fieldOf fs ''nonce'' = JUndefined \<or> (\<exists>n. fieldOf fs ''nonce'' = JInt n \<and> 0 \<le> n \<and> n \<le> max_safe_integer)) \<and>
     (\<exists>maxFee maxPriority. whenDefined assertToriumUint256 (fieldOf fs ''maxFeePerGas'') = Inr maxFee \<and>
        whenDefined assertToriumUint256 (fieldOf fs ''maxPriorityFeePerGas'') = Inr maxPriority \<and>
        checkFees maxFee maxPriority = Inr ()) \<and>
     normalizeAccessList J V (fieldOf fs ''accessList'') = Inr (fieldOf fs ''accessList'')"

lemma address_normal:
  assumes "viem_addresses V" "normalizeToriumEvmAddress V v = Inr a"
  shows "normalizeToriumEvmAddress V (JStr a) = Inr a"
proof -
  obtain s where s: "v = JStr s" "isAddress V s" "getAddress V s = Inr a"
    using assms(2) by (cases v) (auto simp: normalizeToriumEvmAddress_def split: if_splits)
  from viem_addressesD(3) [OF assms(1) s(2)] s(3)
  have a: "isAddress V a" "toLowerCase a = toLowerCase s" by auto
  have "getAddress V a = getAddress V s" by (rule viem_addressesD(4) [OF assms(1) a(1) s(2) a(2)])
  with a s show ?thesis by (simp add: normalizeToriumEvmAddress_def)
qed

lemma normalizeTo_normal:
  assumes "viem_addresses V" "normalizeTo V v = Inr to"
  shows "normalizeTo V to = Inr to"
proof (cases "isNullish v")
  case True
  with assms(2) show ?thesis by (auto simp: normalizeTo_def)
next
  case False
  with assms(2) obtain a where a: "normalizeToriumEvmAddress V v = Inr a" "to = JStr a"
    by (auto simp: normalizeTo_def bindR_Inr_iff)
  show ?thesis unfolding a(2) normalizeTo_def by (simp add: isNullish_def address_normal [OF assms(1) a(1)])
qed

lemma hash_normal: "normalizeToriumHash v = Inr h \<Longrightarrow> normalizeToriumHash (JStr h) = Inr h"
  by (cases v) (auto simp: normalizeToriumHash_def is_hash_lower split: if_splits)

lemma hashes_normal: "mapR normalizeToriumHash vs = Inr hs \<Longrightarrow> mapR normalizeToriumHash (map JStr hs) = Inr hs"
  unfolding mapR_Inr_iff by (induction rule: list_all2_induct) (auto intro: hash_normal)

lemma access_entry_normal:
  assumes "viem_addresses V" "normalizeAccessEntry J V e = Inr e'"
  shows "normalizeAccessEntry J V e' = Inr e'"
proof -
  obtain keys a hs where k: "normalizeToriumEvmAddress V (fieldOf (toRecord J e) ''address'') = Inr a"
      "mapR normalizeToriumHash keys = Inr hs" "e' = JObj [(''address'', JStr a), (''storageKeys'', JArr (map JStr hs))]"
    using assms(2)
    by (cases "fieldOf (toRecord J e) ''storageKeys''") (auto simp: normalizeAccessEntry_def bindR_Inr_iff)
  show ?thesis
    unfolding k(3) by (simp add: normalizeAccessEntry_def address_normal [OF assms(1) k(1)] hashes_normal [OF k(2)])
qed

lemma access_list_normal:
  assumes "viem_addresses V" "normalizeAccessList J V v = Inr v'"
  shows "normalizeAccessList J V v' = Inr v'"
proof (cases v)
  case (JArr es)
  with assms(2) obtain es' where es: "mapR (normalizeAccessEntry J V) es = Inr es'" "v' = JArr es'"
    by (auto simp: normalizeAccessList_def bindR_Inr_iff)
  have "mapR (normalizeAccessEntry J V) es' = Inr es'"
    using es(1) unfolding mapR_Inr_iff
    by (induction rule: list_all2_induct) (auto intro: access_entry_normal [OF assms(1)])
  with es show ?thesis by (simp add: normalizeAccessList_def)
qed (use assms(2) in \<open>auto simp: normalizeAccessList_def\<close>)

lemma assertTransactionNonce_Inr:
  "assertTransactionNonce v = Inr n \<longleftrightarrow> v = JInt n \<and> 0 \<le> n \<and> n \<le> max_safe_integer"
proof
  assume a: "assertTransactionNonce v = Inr n"
  then obtain x where x: "v = JNum x" "num_isSafeInteger x" "\<not> num_lt x (Fin 0)" "n = num_int x"
    by (cases v) (auto simp: assertTransactionNonce_def split: if_splits)
  from x(2) obtain m where "x = NInt m" "\<bar>m\<bar> \<le> max_safe_integer" by (rule num_isSafeIntegerE)
  with x show "v = JInt n \<and> 0 \<le> n \<and> n \<le> max_safe_integer" by simp
qed (simp add: assertTransactionNonce_def del: num_isSafeInteger.simps)

lemma assertTransactionGas_Inr:
  "assertTransactionGas v = Inr g \<longleftrightarrow> v = JBigInt g \<and> 0 \<le> g \<and> g \<le> 25000000"
  by (cases v) (auto simp: assertTransactionGas_def assertToriumUint256_def toriumMaxTransactionGas_def
      toriumMaxUint256_eq)

lemma whenDefined_numbers:
  "(\<exists>x. whenDefined assertToriumUint256 v = Inr x) \<longleftrightarrow> v = JUndefined \<or> (\<exists>n. v = JBigInt n \<and> uint256 n)"
  "(\<exists>x. whenDefined assertTransactionGas v = Inr x) \<longleftrightarrow>
     v = JUndefined \<or> (\<exists>g. v = JBigInt g \<and> 0 \<le> g \<and> g \<le> 25000000)"
  "(\<exists>x. whenDefined assertTransactionNonce v = Inr x) \<longleftrightarrow>
     v = JUndefined \<or> (\<exists>n. v = JInt n \<and> 0 \<le> n \<and> n \<le> max_safe_integer)"
  by (cases "v = JUndefined";
      simp add: whenDefined_Inr assertToriumUint256_Inr_iff assertTransactionGas_Inr assertTransactionNonce_Inr)+

lemma hexData_Inr:
  "normalizeToriumHexData v = Inr d \<longleftrightarrow> (\<exists>s. v = JStr s \<and> hex_data s \<and> d = toLowerCase s)"
  by (cases v) (auto simp: normalizeToriumHexData_def hex_data_rx_iff)

lemma getAccountAddress_string:
  assumes "viem_addresses V" "isString v" "getAccountAddress J V v = Inr a"
  shows "getAccountAddress J V (JStr a) = Inr a"
  using assms address_normal [OF assms(1), of v a] by (simp add: getAccountAddress_def)

lemma removeUndefined_putField: "fieldOf fs k = v \<Longrightarrow> removeUndefined (putField k v fs) = removeUndefined fs"
proof (induction fs)
  case (Cons f fs)
  obtain k' v' where "f = (k', v')" by fastforce
  with Cons show ?case by (auto simp: putField_def removeUndefined_def)
qed (simp add: putField_def removeUndefined_def)

lemma removeUndefined_id: "JUndefined \<notin> snd ` set fs \<Longrightarrow> removeUndefined fs = fs"
  by (force simp: removeUndefined_def filter_id_conv)

lemma normal_request_fixed:
  assumes "normal_request J V fs"
  shows "normalizeToriumTransactionRequest J V (JObj fs) = Inr fs"
proof -
  obtain a where a: "getAccountAddress J V (fieldOf fs ''account'') = Inr a"
      "isString (fieldOf fs ''account'') \<longrightarrow> fieldOf fs ''account'' = JStr a"
    using assms unfolding normal_request_def by blast
  obtain maxFee maxPriority where fees: "whenDefined assertToriumUint256 (fieldOf fs ''maxFeePerGas'') = Inr maxFee"
      "whenDefined assertToriumUint256 (fieldOf fs ''maxPriorityFeePerGas'') = Inr maxPriority"
      "checkFees maxFee maxPriority = Inr ()"
    using assms unfolding normal_request_def by blast
  obtain data where d: "whenDefined normalizeToriumHexData (fieldOf fs ''data'') = Inr data"
      "(case data of None \<Rightarrow> JUndefined | Some d \<Rightarrow> JStr d) = fieldOf fs ''data''"
      "\<not> (isNullish (fieldOf fs ''to'') \<and> (data = None \<or> data = Some ''0x''))"
      "\<not> (case data of None \<Rightarrow> False | Some d \<Rightarrow> int (length d) - 2 \<ge> 2 * toriumMaxEncodedTransactionBytes)"
  proof (cases "fieldOf fs ''data'' = JUndefined")
    case True
    then show ?thesis using assms by (intro that [of None]) (auto simp: normal_request_def whenDefined_def)
  next
    case False
    then obtain s where "fieldOf fs ''data'' = JStr s" "hex_data s" "toLowerCase s = s" "length s < 262146"
      using assms unfolding normal_request_def by blast
    then show ?thesis using assms
      by (intro that [of "Some s"])
        (auto simp: normal_request_def whenDefined_Inr hexData_Inr toriumMaxEncodedTransactionBytes_def)
  qed
  have v: "\<exists>x. whenDefined assertToriumUint256 (fieldOf fs ''value'') = Inr x"
    "\<exists>x. whenDefined assertTransactionGas (fieldOf fs ''gas'') = Inr x"
    "\<exists>x. whenDefined assertTransactionNonce (fieldOf fs ''nonce'') = Inr x"
    using assms unfolding normal_request_def whenDefined_numbers by simp_all
  have n: "\<not> isNullish (fieldOf fs ''account'')"
    using a(1) by (auto simp: isNullish_def getAccountAddress_def getProp_def)
  have k: "\<not> list_ex (\<lambda>k. k \<notin> set toriumTransactionRequestKeys) (map fst fs)"
    "normalizeTo V (fieldOf fs ''to'') = Inr (fieldOf fs ''to'')"
    "normalizeAccessList J V (fieldOf fs ''accessList'') = Inr (fieldOf fs ''accessList'')"
    "fieldOf fs ''type'' = JStr ''eip1559''" "removeUndefined fs = fs"
    using assms by (auto simp: normal_request_def list_ex_iff removeUndefined_id)
  have o: "ownFields J (JObj fs) = fs" by (simp add: ownFields_def)
  from v obtain x y z where "whenDefined assertToriumUint256 (fieldOf fs ''value'') = Inr x"
      "whenDefined assertTransactionGas (fieldOf fs ''gas'') = Inr y"
      "whenDefined assertTransactionNonce (fieldOf fs ''nonce'') = Inr z" by blast
  then show ?thesis
    unfolding normalizeToriumTransactionRequest_def Let_def o
    using k a n fees d(1,3,4)
    by (cases "isString (fieldOf fs ''account'')") (auto simp: d(2) removeUndefined_putField throwIf_def)
qed

lemma normalize_is_normal:
  assumes V: "viem_addresses V" and d: "distinct (map fst (ownFields J request))"
    and n: "normalizeToriumTransactionRequest J V request = Inr fs"
  shows "normal_request J V fs"
    and "k \<in> {''value'', ''gas'', ''nonce'', ''maxFeePerGas'', ''maxPriorityFeePerGas''} \<Longrightarrow>
      fieldOf fs k = fieldOf (ownFields J request) k"
    and "normalizeTo V (fieldOf (ownFields J request) ''to'') = Inr (fieldOf fs ''to'')"
    and "\<exists>data. whenDefined normalizeToriumHexData (fieldOf (ownFields J request) ''data'') = Inr data \<and>
      fieldOf fs ''data'' = (case data of None \<Rightarrow> JUndefined | Some d \<Rightarrow> JStr d)"
    and "normalizeAccessList J V (fieldOf (ownFields J request) ''accessList'') = Inr (fieldOf fs ''accessList'')"
    and "getAccountAddress J V (fieldOf (ownFields J request) ''account'') =
      getAccountAddress J V (fieldOf fs ''account'')"
proof -
  let ?g = "fieldOf (ownFields J request)"
  obtain accountAddress to data maxFee maxPriority accessList where
    p: "\<forall>k \<in> fst ` set (ownFields J request). k \<in> set toriumTransactionRequestKeys"
      "getAccountAddress J V (?g ''account'') = Inr accountAddress"
      "normalizeTo V (?g ''to'') = Inr to" "whenDefined normalizeToriumHexData (?g ''data'') = Inr data"
      "\<not> (isNullish to \<and> (data = None \<or> data = Some ''0x''))"
      "\<not> (case data of None \<Rightarrow> False | Some d \<Rightarrow> int (length d) - 2 \<ge> 2 * toriumMaxEncodedTransactionBytes)"
      "\<exists>x. whenDefined assertToriumUint256 (?g ''value'') = Inr x"
      "\<exists>x. whenDefined assertTransactionGas (?g ''gas'') = Inr x"
      "\<exists>x. whenDefined assertTransactionNonce (?g ''nonce'') = Inr x"
      "whenDefined assertToriumUint256 (?g ''maxFeePerGas'') = Inr maxFee"
      "whenDefined assertToriumUint256 (?g ''maxPriorityFeePerGas'') = Inr maxPriority"
      "checkFees maxFee maxPriority = Inr ()"
      "normalizeAccessList J V (?g ''accessList'') = Inr accessList" and
    fs: "fs = removeUndefined (putField ''accessList'' accessList
        (putField ''data'' (case data of None \<Rightarrow> JUndefined | Some d \<Rightarrow> JStr d)
        (putField ''to'' to
        (putField ''account'' (if isString (?g ''account'') then JStr accountAddress else ?g ''account'')
        (putField ''type'' (JStr ''eip1559'') (ownFields J request))))))"
    by (rule normalize_parts [OF n])
  have f: "fieldOf fs k = (if k = ''accessList'' then accessList
      else if k = ''data'' then (case data of None \<Rightarrow> JUndefined | Some d \<Rightarrow> JStr d)
      else if k = ''to'' then to
      else if k = ''account'' then (if isString (?g ''account'') then JStr accountAddress else ?g ''account'')
      else if k = ''type'' then JStr ''eip1559'' else ?g k)" for k
    unfolding fs using d by simp
  have acc: "getAccountAddress J V (fieldOf fs ''account'') = Inr accountAddress"
    using f [of "''account''"] p(2) getAccountAddress_string [OF V _ p(2)] by simp
  have dat: "fieldOf fs ''data'' = JUndefined \<or>
       (\<exists>s. fieldOf fs ''data'' = JStr s \<and> hex_data s \<and> toLowerCase s = s \<and> length s < 262146)"
    using f [of "''data''"] p(4,6)
    by (cases data) (auto simp: whenDefined_Inr hexData_Inr hex_data_lower toriumMaxEncodedTransactionBytes_def)
  have undef: "JUndefined \<notin> snd ` set fs"
    unfolding fs removeUndefined_def by auto
  have keys: "fst ` set fs \<subseteq> set toriumTransactionRequestKeys"
  proof -
    have "fst ` set fs \<subseteq> set (map fst (putField ''accessList'' accessList
        (putField ''data'' (case data of None \<Rightarrow> JUndefined | Some d \<Rightarrow> JStr d)
        (putField ''to'' to
        (putField ''account'' (if isString (?g ''account'') then JStr accountAddress else ?g ''account'')
        (putField ''type'' (JStr ''eip1559'') (ownFields J request)))))))"
      unfolding fs using removeUndefined_keys by (simp only: set_map)
    also have "\<dots> \<subseteq> set toriumTransactionRequestKeys"
      unfolding keys_putField using p(1) by (auto simp: toriumTransactionRequestKeys_def)
    finally show ?thesis .
  qed
  have deploy: "\<not> (isNullish (fieldOf fs ''to'') \<and> fieldOf fs ''data'' \<in> {JUndefined, JStr ''0x''})"
    using p(5) f [of "''to''"] f [of "''data''"] by (cases data) auto
  have same: "fieldOf fs k = ?g k" if "k \<in> {''value'', ''gas'', ''nonce'', ''maxFeePerGas'', ''maxPriorityFeePerGas''}" for k
    using that f [of k] by auto
  have nums: "fieldOf fs ''value'' = JUndefined \<or> (\<exists>v. fieldOf fs ''value'' = JBigInt v \<and> uint256 v)"
    "fieldOf fs ''gas'' = JUndefined \<or> (\<exists>g. fieldOf fs ''gas'' = JBigInt g \<and> 0 \<le> g \<and> g \<le> 25000000)"
    "fieldOf fs ''nonce'' = JUndefined \<or> (\<exists>n. fieldOf fs ''nonce'' = JInt n \<and> 0 \<le> n \<and> n \<le> max_safe_integer)"
    using p(7-9) same unfolding whenDefined_numbers by simp_all
  have str: "isString (fieldOf fs ''account'') \<Longrightarrow> fieldOf fs ''account'' = JStr accountAddress"
    using f [of "''account''"] by (auto split: if_splits)
  have dist: "distinct (map fst fs)" unfolding fs using d by simp
  have eip: "fieldOf fs ''type'' = JStr ''eip1559''" using f [of "''type''"] by simp
  have account: "\<exists>a. getAccountAddress J V (fieldOf fs ''account'') = Inr a \<and>
      (isString (fieldOf fs ''account'') \<longrightarrow> fieldOf fs ''account'' = JStr a)"
    using acc str by blast
  have to: "normalizeTo V (fieldOf fs ''to'') = Inr (fieldOf fs ''to'')"
    using normalizeTo_normal [OF V p(3)] f [of "''to''"] by simp
  have fees: "\<exists>maxFee maxPriority. whenDefined assertToriumUint256 (fieldOf fs ''maxFeePerGas'') = Inr maxFee \<and>
      whenDefined assertToriumUint256 (fieldOf fs ''maxPriorityFeePerGas'') = Inr maxPriority \<and>
      checkFees maxFee maxPriority = Inr ()"
    using p(10-12) same [of "''maxFeePerGas''"] same [of "''maxPriorityFeePerGas''"] by simp
  have al: "normalizeAccessList J V (fieldOf fs ''accessList'') = Inr (fieldOf fs ''accessList'')"
    using access_list_normal [OF V p(13)] f [of "''accessList''"] by simp
  show "normal_request J V fs"
    unfolding normal_request_def
    by (intro conjI; fact dist keys undef eip account to dat deploy nums fees al)
  show "k \<in> {''value'', ''gas'', ''nonce'', ''maxFeePerGas'', ''maxPriorityFeePerGas''} \<Longrightarrow> fieldOf fs k = ?g k"
    by (rule same)
  show "normalizeTo V (?g ''to'') = Inr (fieldOf fs ''to'')" using p(3) f [of "''to''"] by simp
  show "\<exists>data. whenDefined normalizeToriumHexData (?g ''data'') = Inr data \<and>
      fieldOf fs ''data'' = (case data of None \<Rightarrow> JUndefined | Some d \<Rightarrow> JStr d)"
    using p(4) f [of "''data''"] by auto
  show "normalizeAccessList J V (?g ''accessList'') = Inr (fieldOf fs ''accessList'')"
    using p(13) f [of "''accessList''"] by simp
  show "getAccountAddress J V (?g ''account'') = getAccountAddress J V (fieldOf fs ''account'')"
    using acc p(2) by simp
qed



definition wallet_address :: string where
  "wallet_address = ''0x'' @ replicate 40 CHR ''1''"

definition sample_request :: jsval where
  "sample_request = JObj [(''account'', JStr wallet_address), (''to'', JStr wallet_address), (''value'', JBigInt 5)]"

definition sample_normal :: fields where
  "sample_normal =
     [(''account'', JStr wallet_address), (''to'', JStr wallet_address), (''value'', JBigInt 5), (''type'', JStr ''eip1559'')]"

lemma wallet_address_normal: "normalizeToriumEvmAddress sample_viem (JStr wallet_address) = Inr wallet_address"
proof -
  have "lower_char CHR ''1'' = CHR ''1''" "lower_char CHR ''0'' = CHR ''0''" "lower_char CHR ''x'' = CHR ''x''"
    by code_simp+
  then show ?thesis
    by (simp add: normalizeToriumEvmAddress_def sample_viem_def address_shape_def wallet_address_def list_all_iff
        char_class_defs toLowerCase_def)
qed

lemma sample_request_normal:
  "normalizeToriumTransactionRequest J sample_viem sample_request = Inr sample_normal"
  by (simp add: normalizeToriumTransactionRequest_def sample_request_def sample_normal_def ownFields_def
      getAccountAddress_def normalizeTo_def whenDefined_def checkFees_def normalizeAccessList_def wallet_address_normal
      toriumTransactionRequestKeys_def isNullish_def putField_def removeUndefined_def uint256_def toriumMaxUint256_eq)


section \<open>The preflight\<close>

text \<open>A preflight that respects the limits, and whose verdict is the comparison of its own numbers.\<close>

definition preflight_ok :: "preflight \<Rightarrow> bool" where
  "preflight_ok p \<longleftrightarrow>
     0 \<le> pf_gasLimit p \<and> pf_gasLimit p \<le> 25000000 \<and> 0 \<le> pf_gasEstimate p \<and> pf_gasEstimate p \<le> 25000000 \<and>
     1 \<le> pf_maxPriorityFeePerGas p \<and> 1000000000 + pf_maxPriorityFeePerGas p \<le> pf_maxFeePerGas p \<and>
     pf_maximumCost p = pf_gasLimit p * pf_maxFeePerGas p + pf_value p \<and> uint256 (pf_maximumCost p) \<and>
     uint256 (pf_value p) \<and> uint256 (pf_maxFeePerGas p) \<and>
     0 \<le> pf_requestedNonce p \<and> pf_requestedNonce p \<le> max_safe_integer \<and>
     pf_encodedTransactionBytes p \<le> 131072 \<and>
     (pf_canSubmit p \<longleftrightarrow> pf_gasEstimate p \<le> pf_gasLimit p \<and> \<not> ltBigInt (pf_balance p) (pf_maximumCost p) \<and>
        pf_requestedNonce p = pf_pendingNonce p) \<and>
     (pf_canSubmit p \<longleftrightarrow> pf_blockers p = [])"

lemma preflightResult_parts:
  assumes "preflightResult J W fs account chainId gasAnswer fees balance nonceAnswer = Inr p"
  obtains gasEstimate pendingNonce maxFee maxPriority cost bytes where
    "assertTransactionGas gasAnswer = Inr gasEstimate" "assertTransactionNonce nonceAnswer = Inr pendingNonce"
    "uint256 maxFee" "uint256 maxPriority" "1 \<le> maxPriority" "1000000000 + maxPriority \<le> maxFee"
    "bigField fs ''maxFeePerGas'' \<in> {None, Some maxFee}" "bigField fs ''maxPriorityFeePerGas'' \<in> {None, Some maxPriority}"
    "cost = orElse (bigField fs ''gas'') gasEstimate * maxFee + orElse (bigField fs ''value'') 0" "uint256 cost"
    "bytes \<le> 131072"
    "p = preflightRecord fs account chainId gasEstimate balance pendingNonce maxFee maxPriority cost bytes"
proof -
  have fee: "feeOf J fs fees k = Inr v \<Longrightarrow> assertToriumUint256 v = Inr f \<Longrightarrow> bigField fs k \<in> {None, Some f}" for k v f
    by (auto simp: feeOf_def assertToriumUint256_Inr_iff split: option.splits)
  from assms obtain gasEstimate pendingNonce a b maxFee maxPriority cost bytes where
    p: "assertTransactionGas gasAnswer = Inr gasEstimate" "assertTransactionNonce nonceAnswer = Inr pendingNonce"
      "feeOf J fs fees ''maxFeePerGas'' = Inr a" "feeOf J fs fees ''maxPriorityFeePerGas'' = Inr b"
      "assertToriumUint256 a = Inr maxFee" "assertToriumUint256 b = Inr maxPriority"
      "\<not> maxPriority < toriumMinimumPriorityFeePerGas" "\<not> maxFee < toriumMinimumBaseFeePerGas + maxPriority"
      "assertToriumUint256 (JBigInt (orElse (bigField fs ''gas'') gasEstimate * maxFee + orElse (bigField fs ''value'') 0)) = Inr cost"
      "\<not> bytes > of_int toriumMaxEncodedTransactionBytes"
      "p = preflightRecord fs account chainId gasEstimate balance pendingNonce maxFee maxPriority cost bytes"
    unfolding preflightResult_def Let_def bindR_Inr_iff throwIf_Inr by (elim exE conjE) blast
  then show ?thesis
    using fee [OF p(3,5)] fee [OF p(4,6)]
    by (intro that [of gasEstimate pendingNonce maxFee maxPriority cost bytes])
      (simp_all add: assertToriumUint256_Inr_iff toriumMinimumPriorityFeePerGas_def toriumMinimumBaseFeePerGas_def
        toriumMaxEncodedTransactionBytes_def split: if_splits)
qed

lemma blockersOf_empty:
  "blockersOf gasLimit gasEstimate balance cost requested pending = [] \<longleftrightarrow>
     gasEstimate \<le> gasLimit \<and> \<not> ltBigInt balance cost \<and> requested = pending"
  by (auto simp: blockersOf_def)

lemma normal_request_numbers:
  assumes "normal_request J V fs"
  shows "bigField fs ''gas'' = Some g \<Longrightarrow> 0 \<le> g \<and> g \<le> 25000000"
    and "bigField fs ''value'' = Some v \<Longrightarrow> uint256 v"
    and "numField fs ''nonce'' = Some n \<Longrightarrow> 0 \<le> n \<and> n \<le> max_safe_integer"
proof -
  have "fieldOf fs ''gas'' = JUndefined \<or> (\<exists>g. fieldOf fs ''gas'' = JBigInt g \<and> 0 \<le> g \<and> g \<le> 25000000)"
    "fieldOf fs ''value'' = JUndefined \<or> (\<exists>v. fieldOf fs ''value'' = JBigInt v \<and> uint256 v)"
    "fieldOf fs ''nonce'' = JUndefined \<or> (\<exists>n. fieldOf fs ''nonce'' = JInt n \<and> 0 \<le> n \<and> n \<le> max_safe_integer)"
    using assms by (simp_all only: normal_request_def)
  then show "bigField fs ''gas'' = Some g \<Longrightarrow> 0 \<le> g \<and> g \<le> 25000000"
    "bigField fs ''value'' = Some v \<Longrightarrow> uint256 v"
    "numField fs ''nonce'' = Some n \<Longrightarrow> 0 \<le> n \<and> n \<le> max_safe_integer"
    unfolding bigField_def numField_def by auto
qed

lemma preflightResult_ok:
  assumes "normal_request J V fs" "preflightResult J W fs account chainId gasAnswer fees balance nonceAnswer = Inr p"
  shows "preflight_ok p"
proof -
  note fields = normal_request_numbers [OF assms(1)]
  from assms(2) obtain gasEstimate pendingNonce maxFee maxPriority cost bytes where
    p: "assertTransactionGas gasAnswer = Inr gasEstimate" "assertTransactionNonce nonceAnswer = Inr pendingNonce"
      "uint256 maxFee" "uint256 maxPriority" "1 \<le> maxPriority" "1000000000 + maxPriority \<le> maxFee"
      "cost = orElse (bigField fs ''gas'') gasEstimate * maxFee + orElse (bigField fs ''value'') 0" "uint256 cost"
      "bytes \<le> 131072"
      "p = preflightRecord fs account chainId gasEstimate balance pendingNonce maxFee maxPriority cost bytes"
    by (rule preflightResult_parts)
  have g: "0 \<le> gasEstimate \<and> gasEstimate \<le> 25000000" using p(1) by (simp add: assertTransactionGas_Inr)
  have n: "0 \<le> pendingNonce \<and> pendingNonce \<le> max_safe_integer" using p(2) by (simp add: assertTransactionNonce_Inr)
  have "0 \<le> orElse (bigField fs ''gas'') gasEstimate \<and> orElse (bigField fs ''gas'') gasEstimate \<le> 25000000"
    using fields(1) g by (cases "bigField fs ''gas''") auto
  moreover have "uint256 (orElse (bigField fs ''value'') 0)"
    using fields(2) by (cases "bigField fs ''value''") (auto simp: uint256_def toriumMaxUint256_eq)
  moreover have "0 \<le> orElse (numField fs ''nonce'') pendingNonce \<and> orElse (numField fs ''nonce'') pendingNonce \<le> max_safe_integer"
    using fields(3) n by (cases "numField fs ''nonce''") auto
  ultimately show ?thesis
    unfolding p(10) preflight_ok_def preflightRecord_def Let_def using g p(3-9) by (simp add: blockersOf_empty)
qed

lemma lift_returns_wallet [returns_simps]:
  "liftExn r w = (Inr y, w') \<longleftrightarrow> r = Inr y \<and> w' = w"
  "throwAborted sig w = (Inr u, w') \<longleftrightarrow> \<not> abortedAt sig (w_clock w) \<and> w' = w"
  by (auto simp: liftExn_def liftP_def throwAborted_def throwP_def returnP_def)

lemma preflightImpl_returns:
  assumes "preflightToriumTransactionImpl E W chain request sig w = (Inr p, w')"
  obtains fs account gasAnswer fees balance nonceAnswer where
    "normalizeToriumTransactionRequest (ev_js E) (wv_viem W) request = Inr fs"
    "getAccountAddress (ev_js E) (wv_viem W) (fieldOf fs ''account'') = Inr account"
    "assertToriumChain chain = Inr ()"
    "preflightResult (ev_js E) W fs account (cc_id chain) gasAnswer fees balance nonceAnswer = Inr p"
  using assms unfolding preflightToriumTransactionImpl_def Let_def
  by (auto simp: returns_simps throwIf_Inr)

lemma runToriumReadAction_success:
  assumes "fst (runToriumReadAction E action cx opts w) = Inr x"
  shows "\<exists>a s w1 w2. action a s w1 = (Inr x, w2)"
proof -
  obtain a s w1 where "fst (action a s w1) = Inr x"
    using runAction_success [of E action _ opts True w x] assms unfolding runToriumReadAction_def by blast
  then show ?thesis by (metis prod.collapse)
qed

text \<open>
  C21: A preflight that returns has checked what it reports: gas, fees, nonce and size are within the limits of
  the chain, the maximum cost is gas times fee plus value and fits 256 bits, and it allows the submission
  exactly when gas, balance and nonce suffice.
\<close>

theorem preflight_sound:
  assumes "viem_addresses (wv_viem W)" "distinct (map fst (ownFields (ev_js E) request))"
    "fst (preflightToriumTransaction E W chain request opts w) = Inr p"
  shows "preflight_ok p"
proof -
  obtain s w1 w2 where "preflightToriumTransactionImpl E W chain request s w1 = (Inr p, w2)"
    using runToriumReadAction_success [OF assms(3) [unfolded preflightToriumTransaction_def]] by blast
  then show ?thesis
  proof (rule preflightImpl_returns)
    fix fs account gasAnswer fees balance nonceAnswer
    assume n: "normalizeToriumTransactionRequest (ev_js E) (wv_viem W) request = Inr fs" and
      r: "preflightResult (ev_js E) W fs account (cc_id chain) gasAnswer fees balance nonceAnswer = Inr p"
    show "preflight_ok p"
      by (rule preflightResult_ok [OF normalize_is_normal(1) [OF assms(1,2) n] r])
  qed
qed


lemma runAction_first:
  assumes "validateExecutionContext (ev_js E) cx = Inr ()" "\<And>w. fst (action 1 None w) = Inr x"
  shows "fst (runAction E action cx sample_options allowRetry w) = Inr x"
proof -
  have t: "fst (runLoop E R action 1 w1) = Inr x"
    if "rn_signal R = \<lparr>os_abortAt = None, os_timeoutAt = None, os_direct = False\<rparr>" "\<not> rn_raced R" for R w1
  proof -
    obtain w2 where "action 1 None w1 = (Inr x, w2)" using assms(2) [of w1] by (cases "action 1 None w1") auto
    with that have "attemptOnce (ev_js E) R action 1 w1 = (Inr x, w2)"
      by (simp add: attemptOnce_def bindP_def throwIfAborted_def abortedAt_def)
    then show ?thesis by (simp add: runLoop.simps [of E R action "Suc 0"] runTurn_def)
  qed
  have "validateRetry None \<noteq> Inl e" for e
    by (simp add: validateRetry_def Let_def delayInvalid_def maximumReadAttempts_def maximumBackoffMs_def
        max_safe_integer_def defaultJitter_def)
  then obtain r where r: "validateRetry None = Inr r" by (cases "validateRetry None") auto
  have c: "cx\<lparr>cx_requestId := cx_requestId cx\<rparr> = cx" by simp
  show ?thesis
    unfolding runAction_def Let_def sample_options_def
    using assms(1) t r
    by (simp add: c validateTimeout_def createOperationSignal_def)
qed

definition wallet_answer :: "string \<Rightarrow> jsval" where
  "wallet_answer name =
     (if name = ''getChainId'' then JInt 5525330 else if name = ''estimateGas'' then JBigInt 21000
      else if name = ''estimateFeesPerGas'' then
        JObj [(''maxFeePerGas'', JBigInt 3000000000), (''maxPriorityFeePerGas'', JBigInt 1)]
      else if name = ''getBalance'' then JBigInt 1000000000000000000 else if name = ''getTransactionCount'' then JInt 7
      else if name = ''authorize'' then JBool True else JUndefined)"

definition wallet_env :: env where
  "wallet_env = sample_env\<lparr>ev_call := (\<lambda>n name args. (1, Inr (wallet_answer name)))\<rparr>"

lemma wallet_call:
  "callExt wallet_env name args w =
     (Inr (wallet_answer name), w\<lparr>w_clock := w_clock w + 1, w_trace := w_trace w @ [(name, args)]\<rparr>)"
  by (simp add: callExt_def wallet_env_def)

definition wallet_functions :: wallet_viem where
  "wallet_functions = \<lparr>wv_viem = sample_viem, wv_serialize = (\<lambda>request component. Inr ''0x02f8'')\<rparr>"

definition mainnet_client :: client_chain where
  "mainnet_client =
     \<lparr>cc_id = 5525330, cc_torium = metadataValue mainnetMetadata,
      cc_nativeCurrency = currencyValue (nativeCurrency toriumMainnet)\<rparr>"

lemma sameCanonicalValue_refl [simp]: "sameCanonicalValue v v"
  by (simp add: sameCanonicalValue.simps)

lemma mainnet_canonical: "assertToriumChain mainnet_client = Inr ()"
proof -
  have "getToriumChainById (JInt 5525330) = Inr toriumMainnet"
    unfolding getToriumChainById_def assertToriumChainId_def isToriumChainId_def
    by (simp add: chain_defs max_safe_integer_def)
  moreover have "assertToriumChainId (JInt 5525330) = Inr (JInt 5525330)"
    unfolding assertToriumChainId_def isToriumChainId_def by (simp add: chain_defs max_safe_integer_def)
  moreover have "isObjectLike (metadataValue mainnetMetadata)" by (simp add: metadataValue_def)
  moreover have "torium toriumMainnet = mainnetMetadata" by (simp add: toriumMainnet_def)
  ultimately show ?thesis by (simp add: assertToriumChain_def mainnet_client_def)
qed

definition sample_preflight :: preflight where
  "sample_preflight = preflightRecord sample_normal wallet_address 5525330 21000 (JBigInt 1000000000000000000) 7
     3000000000 1 63000000000005 2"

lemma sample_preflight_result:
  "preflightResult J wallet_functions sample_normal wallet_address 5525330 (JBigInt 21000)
     (wallet_answer ''estimateFeesPerGas'') (JBigInt 1000000000000000000) (JInt 7) = Inr sample_preflight"
proof -
  have g: "assertTransactionGas (JBigInt 21000) = Inr 21000" by (simp add: assertTransactionGas_Inr)
  have n: "assertTransactionNonce (JInt 7) = Inr 7" by (simp add: assertTransactionNonce_Inr max_safe_integer_def)
  show ?thesis
    unfolding preflightResult_def g n
    by (simp add: feeOf_def bigField_def numField_def textField_def sample_normal_def getProp_def isNullish_def wallet_answer_def
        toriumMinimumPriorityFeePerGas_def toriumMinimumBaseFeePerGas_def uint256_def toriumMaxUint256_eq
        getMaximumSignedTransactionBytes_def wallet_functions_def toriumMaxEncodedTransactionBytes_def
        sample_preflight_def Let_def)
qed

lemma sample_preflight_impl:
  "\<exists>w'. preflightToriumTransactionImpl wallet_env wallet_functions mainnet_client sample_request None w =
     (Inr sample_preflight, w')"
proof -
  have v: "wv_viem wallet_functions = sample_viem" by (simp add: wallet_functions_def)
  have a: "getAccountAddress J sample_viem (fieldOf sample_normal ''account'') = Inr wallet_address" for J
    by (simp add: sample_normal_def getAccountAddress_def wallet_address_normal)
  have i: "cc_id mainnet_client = 5525330" by (simp add: mainnet_client_def)
  have ab: "throwAborted None = returnP ()" by (rule ext) (simp add: throwAborted_def abortedAt_def)
  have r: "bindP (returnP x) f = f x" "bindP (liftExn (Inr y)) g = g y" for x :: 'a and f :: "'a \<Rightarrow> 'b proc" and y :: 'c and g :: "'c \<Rightarrow> 'd proc"
    by (rule ext, simp add: bindP_def returnP_def liftExn_def liftP_def)+
  have p: "promiseAll wallet_env (preflightReads fs a) w = (Inr [JBigInt 21000, wallet_answer ''estimateFeesPerGas'',
      JBigInt 1000000000000000000, JInt 7], w\<lparr>w_trace := w_trace w @ preflightReads fs a, w_clock := w_clock w + 1\<rparr>)" for fs a w
    by (simp add: promiseAll_def preflightReads_def wallet_env_def wallet_answer_def)
  show ?thesis
    unfolding preflightToriumTransactionImpl_def v sample_request_normal a mainnet_canonical ab i r
    by (simp add: bindP_def wallet_call wallet_answer_def r p sample_preflight_result [unfolded wallet_answer_def, simplified] liftExn_def liftP_def
        returnP_def Let_def)
qed

lemma sample_preflight_run:
  "fst (preflightToriumTransaction wallet_env wallet_functions mainnet_client sample_request sample_options sample_world) =
     Inr sample_preflight"
proof -
  have "labelValid (Some ''preflightToriumTransaction'')" "labelValid (Some ''eth_call'')" "labelValid None"
    unfolding labelValid_Some by (code_simp, code_simp, simp add: labelValid_def)
  then have c: "validateExecutionContext (ev_js wallet_env) ((preflightContext mainnet_client)\<lparr>cx_kind := Read\<rparr>) = Inr ()"
    by (simp add: validateExecutionContext_def preflightContext_def)
  show ?thesis
    unfolding preflightToriumTransaction_def runToriumReadAction_def
    by (rule runAction_first [OF c]) (use sample_preflight_impl in \<open>metis fst_conv\<close>)
qed

theorem preflight_sound_witness: "preflight_ok sample_preflight \<and> pf_canSubmit sample_preflight"
proof -
  have "preflight_ok sample_preflight"
    by (rule preflight_sound [OF _ _ sample_preflight_run])
      (simp_all add: wallet_functions_def sample_viem_addresses sample_request_def ownFields_def)
  then show ?thesis
    by (simp add: sample_preflight_def preflightRecord_def Let_def blockersOf_empty sample_normal_def bigField_def numField_def)
qed


section \<open>Invariants of the trace\<close>

text \<open>A step that keeps a predicate of the calls sent so far, and one whose results satisfy a predicate.\<close>

definition keeps :: "((string \<times> jsval list) list \<Rightarrow> bool) \<Rightarrow> 'a proc \<Rightarrow> bool" where
  "keeps P m \<longleftrightarrow> (\<forall>w. P (w_trace w) \<longrightarrow> P (w_trace (snd (m w))))"

definition returnsOnly :: "('a \<Rightarrow> bool) \<Rightarrow> 'a proc \<Rightarrow> bool" where
  "returnsOnly Q m \<longleftrightarrow> (\<forall>w x w'. m w = (Inr x, w') \<longrightarrow> Q x)"

lemma keepsD: "keeps P m \<Longrightarrow> P (w_trace w) \<Longrightarrow> m w = (r, w') \<Longrightarrow> P (w_trace w')"
  unfolding keeps_def by (metis snd_conv)

lemma returnsOnlyD: "returnsOnly Q m \<Longrightarrow> m w = (Inr x, w') \<Longrightarrow> Q x"
  unfolding returnsOnly_def by blast

named_theorems keeps_rules

lemma keeps_basic [keeps_rules]:
  "keeps P (returnP x)" "keeps P (throwP e)" "keeps P (liftExn r)" "keeps P (liftSdk s)" "keeps P (throwSdkIf b e')"
  "keeps P (throwAborted sig)"
  by (simp_all add: keeps_def returnP_def throwP_def liftExn_def liftSdk_def liftP_def throwSdkIf_def throwAborted_def)

lemma keeps_bind_result:
  assumes "keeps P m" "returnsOnly Q m" "\<And>x. Q x \<Longrightarrow> keeps P (f x)"
  shows "keeps P (bindP m f)"
proof -
  have "P (w_trace (snd (bindP m f w)))" if "P (w_trace w)" for w
  proof -
    obtain r w1 where m: "m w = (r, w1)" by fastforce
    have w1: "P (w_trace w1)" by (rule keepsD [OF assms(1) that m])
    show ?thesis
    proof (cases r)
      case (Inr x)
      have "Q x" by (rule returnsOnlyD [OF assms(2) m [unfolded Inr]])
      from assms(3) [OF this] w1 have "P (w_trace (snd (f x w1)))" by (simp add: keeps_def)
      with m Inr show ?thesis by (simp add: bindP_def)
    qed (use m w1 in \<open>simp add: bindP_def\<close>)
  qed
  then show ?thesis by (simp add: keeps_def)
qed

lemma keeps_bindP [keeps_rules]: "keeps P m \<Longrightarrow> (\<And>x. keeps P (f x)) \<Longrightarrow> keeps P (bindP m f)"
  by (rule keeps_bind_result [where Q = "\<lambda>x. True"]) (simp_all add: returnsOnly_def)

lemma keeps_attemptOnce:
  assumes "\<And>a s. keeps P (action a s)"
  shows "keeps P (attemptOnce J R action attempt)"
proof -
  have "keeps P (raceAbort J m sig)" if "keeps P m" for m :: "'a proc" and sig
    using that by (auto simp: keeps_def raceAbort_def split: prod.splits option.splits)
  moreover have "keeps P (throwIfAborted J op)" for op by (simp add: keeps_def throwIfAborted_def)
  ultimately show ?thesis unfolding attemptOnce_def using assms by (intro keeps_bindP) simp_all
qed

lemma trace_simps [simp]:
  "w_trace (emit d e w) = w_trace w" "w_trace (emitPhase R p a m w) = w_trace w"
  "w_trace (snd (failWith R attempt r w)) = w_trace w"
  by (simp_all add: emit_def emitPhase_def failWith_def split: sum.splits)

lemma waitForRetry_trace: "waitForRetry J d sig w = (r, w') \<Longrightarrow> w_trace w' = w_trace w"
  by (auto simp: waitForRetry_def split: option.splits if_splits)

lemma keeps_runLoop:
  assumes "\<And>a s. keeps P (action a s)"
  shows "P (w_trace w) \<Longrightarrow> P (w_trace (snd (runLoop E R action attempt w)))"
  using assms
proof (induction E R action attempt w rule: runLoop.induct)
  case (1 E R action attempt w)
  note att = keepsD [OF keeps_attemptOnce [OF 1(3)] 1(2)]
  show ?case
  proof (cases "runTurn E R action attempt w")
    case (Again w2)
    then obtain error w1 n d where t: "attemptOnce (ev_js E) R action attempt w = (Inl error, w1)"
        "waitForRetry (ev_js E) d (os_abortAt (rn_signal R)) (emitPhase R ''retry'' (Suc attempt) (Some n) w1) = (Inr (), w2)"
      by (rule runTurn_Again)
    have "P (w_trace w2)" using att [OF t(1)] waitForRetry_trace [OF t(2)] by simp
    with 1(1) [OF Again _ 1(3)] Again show ?thesis by (simp add: runLoop.simps [of E R action attempt w])
  next
    case (Done r)
    then have "P (w_trace (snd r))"
    proof (cases rule: runTurn_Done)
      case (interrupted error w1 n d error2 w2)
      then show ?thesis using att [OF interrupted(1)] waitForRetry_trace [OF interrupted(4)] by simp
    qed (auto dest: att)
    with Done show ?thesis by (simp add: runLoop.simps [of E R action attempt w])
  qed
qed

lemma keeps_runAction [keeps_rules]:
  assumes "\<And>a s. keeps P (action a s)"
  shows "keeps P (runAction E action cx opts allowRetry)"
proof -
  have "P (w_trace (snd (runAction E action cx opts allowRetry w)))" if "P (w_trace w)" for w
  proof (cases rule: runAction_cases [of E action cx opts allowRetry w])
    case (runs R timeoutMs)
    with keeps_runLoop [where P = P and action = action, OF assms, of "emitPhase R ''start'' 1 None w" E R 1] that
    show ?thesis by simp
  qed (use that in simp)
  then show ?thesis by (simp add: keeps_def)
qed

section \<open>What is sent is what was authorised\<close>

definition signs :: "js_env \<Rightarrow> viem \<Rightarrow> preflight \<Rightarrow> fields \<Rightarrow> bool" where
  "signs J V p tx \<longleftrightarrow>
     getAccountAddress J V (fieldOf tx ''account'') = Inr (pf_account p) \<and>
     nullish (fieldOf tx ''to'') JNull = pf_to p \<and> orElse (textField tx ''data'') ''0x'' = pf_data p \<and>
     orElse (bigField tx ''value'') 0 = pf_value p \<and> nullish (fieldOf tx ''accessList'') (JArr []) = pf_accessList p \<and>
     fieldOf tx ''gas'' = JBigInt (pf_gasLimit p) \<and> fieldOf tx ''nonce'' = JInt (pf_requestedNonce p) \<and>
     fieldOf tx ''maxFeePerGas'' = JBigInt (pf_maxFeePerGas p) \<and>
     fieldOf tx ''maxPriorityFeePerGas'' = JBigInt (pf_maxPriorityFeePerGas p) \<and> fieldOf tx ''type'' = JStr ''eip1559''"

definition authorised_calls :: "env \<Rightarrow> wallet_viem \<Rightarrow> (string \<times> jsval list) list \<Rightarrow> bool" where
  "authorised_calls E W tr \<longleftrightarrow>
     (\<forall>i. i < length tr \<longrightarrow> fst (tr ! i) = ''sendTransaction'' \<longrightarrow>
       (\<exists>p tx d. 0 < i \<and> tr ! (i - 1) = (''authorize'', [preflightValue p]) \<and>
         ev_call E (i - 1) ''authorize'' [preflightValue p] = (d, Inr (JBool True)) \<and>
         snd (tr ! i) = [JObj tx] \<and> preflight_ok p \<and> pf_canSubmit p \<and> signs (ev_js E) (wv_viem W) p tx))"

lemma authorised_append:
  assumes "authorised_calls E W tr" "''sendTransaction'' \<notin> fst ` set cs"
  shows "authorised_calls E W (tr @ cs)"
  unfolding authorised_calls_def
proof (intro allI impI)
  fix i
  assume i: "i < length (tr @ cs)" "fst ((tr @ cs) ! i) = ''sendTransaction''"
  have "i < length tr"
  proof (rule ccontr)
    assume "\<not> i < length tr"
    with i have "cs ! (i - length tr) \<in> set cs" "fst (cs ! (i - length tr)) = ''sendTransaction''"
      by (auto simp: nth_append)
    with assms(2) show False by (metis image_eqI)
  qed
  with assms(1) i show "\<exists>p tx d. 0 < i \<and> (tr @ cs) ! (i - 1) = (''authorize'', [preflightValue p]) \<and>
         ev_call E (i - 1) ''authorize'' [preflightValue p] = (d, Inr (JBool True)) \<and>
         snd ((tr @ cs) ! i) = [JObj tx] \<and> preflight_ok p \<and> pf_canSubmit p \<and> signs (ev_js E) (wv_viem W) p tx"
    by (auto simp: authorised_calls_def nth_append)
qed

lemma authorised_send:
  assumes "authorised_calls E W tr" "ev_call E (length tr) ''authorize'' [preflightValue p] = (d, Inr (JBool True))"
    "preflight_ok p" "pf_canSubmit p" "signs (ev_js E) (wv_viem W) p tx"
  shows "authorised_calls E W (tr @ [(''authorize'', [preflightValue p]), (''sendTransaction'', [JObj tx])])"
proof -
  let ?tr = "tr @ [(''authorize'', [preflightValue p])]"
  have a: "authorised_calls E W ?tr" using assms(1) by (rule authorised_append) simp
  show ?thesis
    unfolding authorised_calls_def
  proof (intro allI impI)
    fix i
    assume i: "i < length (tr @ [(''authorize'', [preflightValue p]), (''sendTransaction'', [JObj tx])])"
      "fst ((tr @ [(''authorize'', [preflightValue p]), (''sendTransaction'', [JObj tx])]) ! i) = ''sendTransaction''"
    show "\<exists>p' tx' d. 0 < i \<and> (tr @ [(''authorize'', [preflightValue p]), (''sendTransaction'', [JObj tx])]) ! (i - 1) =
           (''authorize'', [preflightValue p']) \<and>
         ev_call E (i - 1) ''authorize'' [preflightValue p'] = (d, Inr (JBool True)) \<and>
         snd ((tr @ [(''authorize'', [preflightValue p]), (''sendTransaction'', [JObj tx])]) ! i) = [JObj tx'] \<and>
         preflight_ok p' \<and> pf_canSubmit p' \<and> signs (ev_js E) (wv_viem W) p' tx'"
    proof (cases "i = Suc (length tr)")
      case True
      with assms show ?thesis by (intro exI [of _ p] exI [of _ tx] exI [of _ d]) (simp add: nth_append)
    next
      case False
      with i have "i < length ?tr" "fst (?tr ! i) = ''sendTransaction''" by (auto simp: nth_append split: if_splits)
      with a obtain p' tx' d' where "0 < i" "?tr ! (i - 1) = (''authorize'', [preflightValue p'])"
          "ev_call E (i - 1) ''authorize'' [preflightValue p'] = (d', Inr (JBool True))"
          "snd (?tr ! i) = [JObj tx']" "preflight_ok p'" "pf_canSubmit p'" "signs (ev_js E) (wv_viem W) p' tx'"
        unfolding authorised_calls_def by blast
      with \<open>i < length ?tr\<close> show ?thesis
        by (intro exI [of _ p'] exI [of _ tx'] exI [of _ d']) (auto simp: nth_append split: if_splits)
    qed
  qed
qed


lemma keeps_callExt: "name \<noteq> ''sendTransaction'' \<Longrightarrow> keeps (authorised_calls E W) (callExt E name args)"
  by (auto simp: keeps_def callExt_def split: prod.splits intro!: authorised_append)

lemma promiseAll_trace: "w_trace (snd (promiseAll E calls w)) = w_trace w @ calls"
  by (simp add: promiseAll_def Let_def split: option.splits)

lemma keeps_promiseAll:
  "''sendTransaction'' \<notin> fst ` set calls \<Longrightarrow> keeps (authorised_calls E W) (promiseAll E calls)"
  by (simp add: keeps_def promiseAll_trace authorised_append)

lemma keeps_preflightImpl: "keeps (authorised_calls E W) (preflightToriumTransactionImpl E W' chain request sig)"
  unfolding preflightToriumTransactionImpl_def Let_def
  by (intro keeps_rules keeps_callExt keeps_promiseAll) (simp_all add: preflightReads_def)

text \<open>The preflight of a normal request, and the request prepared from it.\<close>

lemma prepared_signs:
  assumes V: "viem_addresses V" "V = wv_viem W" and n: "normal_request (ev_js E) V snapshot"
    and p: "preflightToriumTransactionImpl E W chain (JObj snapshot) sig w = (Inr p, w')"
    and q: "normalizeToriumTransactionRequest (ev_js E) V (JObj (preparedFields snapshot p)) = Inr prepared"
  shows "preflight_ok p \<and> signs (ev_js E) V p (putField ''chain'' c prepared)"
proof -
  let ?J = "ev_js E"
  from p obtain fs account gasAnswer fees balance nonceAnswer where
    f: "normalizeToriumTransactionRequest ?J V (JObj snapshot) = Inr fs"
      "getAccountAddress ?J V (fieldOf fs ''account'') = Inr account" and
    r: "preflightResult ?J W fs account (cc_id chain) gasAnswer fees balance nonceAnswer = Inr p"
    unfolding V(2) by (rule preflightImpl_returns)
  have fs: "fs = snapshot" using normal_request_fixed [OF n] f(1) by simp
  from r obtain gasEstimate pendingNonce maxFee maxPriority cost bytes where
    pr: "p = preflightRecord snapshot account (cc_id chain) gasEstimate balance pendingNonce maxFee maxPriority cost bytes"
    unfolding fs by (rule preflightResult_parts)
  have ok: "preflight_ok p" using preflightResult_ok [OF n r [unfolded fs]] .
  have d: "distinct (map fst (ownFields ?J (JObj (preparedFields snapshot p))))"
    using n [unfolded normal_request_def, THEN conjunct1] by (simp add: ownFields_def preparedFields_def)
  have own: "ownFields ?J (JObj (preparedFields snapshot p)) = preparedFields snapshot p" by (simp add: ownFields_def)
  have g: "fieldOf (preparedFields snapshot p) k = fieldOf snapshot k"
    if "k \<in> {''to'', ''data'', ''accessList'', ''account'', ''value''}" for k
    using that by (auto simp: preparedFields_def)
  note N = normalize_is_normal [OF V(1) d q, unfolded own]
  have same: "normalizeTo V (fieldOf snapshot ''to'') = Inr (fieldOf snapshot ''to'')"
    "normalizeAccessList ?J V (fieldOf snapshot ''accessList'') = Inr (fieldOf snapshot ''accessList'')"
    "fieldOf snapshot ''data'' = JUndefined \<or>
       (\<exists>d. fieldOf snapshot ''data'' = JStr d \<and> hex_data d \<and> toLowerCase d = d \<and> length d < 262146)"
    using n by (simp_all only: normal_request_def)
  have to: "fieldOf prepared ''to'' = fieldOf snapshot ''to''" using N(3) same(1) unfolding g [of "''to''", simplified] by simp
  have al: "fieldOf prepared ''accessList'' = fieldOf snapshot ''accessList''" using N(5) same(2) unfolding g [of "''accessList''", simplified] by simp
  have dat: "fieldOf prepared ''data'' = fieldOf snapshot ''data''"
    using N(4) same(3) unfolding g [of "''data''", simplified] by (auto simp: whenDefined_Inr hexData_Inr)
  have val: "fieldOf prepared ''value'' = fieldOf snapshot ''value''" using N(2) [of "''value''"] g [of "''value''"] by simp
  have acc: "getAccountAddress ?J V (fieldOf prepared ''account'') = Inr account"
    using N(6) f(2) fs g [of "''account''"] by simp
  have num: "fieldOf prepared ''gas'' = JBigInt (pf_gasLimit p)" "fieldOf prepared ''nonce'' = JInt (pf_requestedNonce p)"
    "fieldOf prepared ''maxFeePerGas'' = JBigInt (pf_maxFeePerGas p)"
    "fieldOf prepared ''maxPriorityFeePerGas'' = JBigInt (pf_maxPriorityFeePerGas p)"
    using N(2) by (simp_all add: preparedFields_def)
  have typ': "fieldOf prepared ''type'' = JStr ''eip1559''" using N(1) by (simp only: normal_request_def)
  have "signs ?J V p (putField ''chain'' c prepared)"
    unfolding signs_def textField_def bigField_def using to al dat val acc num typ'
    by (simp add: pr preflightRecord_def Let_def textField_def bigField_def)
  with ok show ?thesis ..
qed

lemma keeps_authorizeAndSend:
  assumes "preflight_ok p" "pf_canSubmit p" "signs (ev_js E) (wv_viem W) p (putField ''chain'' (chainValue chain) prepared)"
  shows "keeps (authorised_calls E W) (authorizeAndSend E W chain p prepared sig)"
proof -
  let ?tx = "putField ''chain'' (chainValue chain) prepared"
  have "authorised_calls E W (w_trace (snd (authorizeAndSend E W chain p prepared sig w)))"
    if A: "authorised_calls E W (w_trace w)" for w
  proof (cases "abortedAt sig (w_clock w)")
    case False
    obtain r w1 where a: "callExt E ''authorize'' [preflightValue p] w = (r, w1)" by fastforce
    from callExt_trace [OF this] obtain d where t: "w_trace w1 = w_trace w @ [(''authorize'', [preflightValue p])]"
        "ev_call E (length (w_trace w)) ''authorize'' [preflightValue p] = (d, r)" by blast
    have A1: "authorised_calls E W (w_trace w1)" unfolding t(1) using A by (rule authorised_append) simp
    obtain r2 w2 where s: "callExt E ''sendTransaction'' [JObj ?tx] w1 = (r2, w2)" by fastforce
    have A2: "authorised_calls E W (w_trace w2)" if "r = Inr (JBool True)"
      using authorised_send [OF A _ assms, of d] t that callExt_trace [OF s] by simp
    show ?thesis
      using False a s A1 A2
      by (cases r; cases r2)
        (auto simp: authorizeAndSend_def bindP_def throwAborted_def returnP_def throwP_def throwSdkIf_def liftSdk_def
          liftP_def liftExn_def throwIf_def mapErr_def split: sum.splits prod.splits if_splits)
  qed (use A in \<open>simp add: authorizeAndSend_def bindP_def throwAborted_def throwP_def\<close>)
  then show ?thesis by (simp add: keeps_def)
qed


lemma keeps_send_impl:
  assumes V: "viem_addresses (wv_viem W)" and d: "distinct (map fst (ownFields (ev_js E) request))"
  shows "keeps (authorised_calls E W) (sendToriumTransactionOnceImpl E W chain preflightChain request sig)"
proof -
  let ?N = "\<lambda>snapshot. normalizeToriumTransactionRequest (ev_js E) (wv_viem W) request = Inr snapshot"
  have ret: "returnsOnly (\<lambda>x. r = Inr x) (liftExn r)" for r :: "js_exn + 'b"
    by (auto simp: returnsOnly_def returns_simps)
  have after: "keeps (authorised_calls E W)
      (bindP (throwSdkIf (\<not> pf_canSubmit p) e) (\<lambda>_.
       bindP (liftExn (normalizeToriumTransactionRequest (ev_js E) (wv_viem W) (JObj (preparedFields snapshot p)))) (\<lambda>prepared.
       authorizeAndSend E W chain p prepared sig)))"
    if "?N snapshot" "\<exists>w w'. preflightToriumTransactionImpl E W preflightChain (JObj snapshot) sig w = (Inr p, w')" for snapshot p e
  proof (rule keeps_bind_result [where Q = "\<lambda>_. pf_canSubmit p"])
    show "returnsOnly (\<lambda>_. pf_canSubmit p) (throwSdkIf (\<not> pf_canSubmit p) e)"
      by (auto simp: returnsOnly_def returns_simps)
    from that(2) obtain w w' where p: "preflightToriumTransactionImpl E W preflightChain (JObj snapshot) sig w = (Inr p, w')"
      by blast
    note n = normalize_is_normal(1) [OF V d that(1)]
    show "keeps (authorised_calls E W) (bindP (liftExn (normalizeToriumTransactionRequest (ev_js E) (wv_viem W)
        (JObj (preparedFields snapshot p)))) (\<lambda>prepared. authorizeAndSend E W chain p prepared sig))" if "pf_canSubmit p"
      by (rule keeps_bind_result [OF keeps_basic(3) ret], rule keeps_authorizeAndSend)
        (use prepared_signs [OF V refl n p] that in blast)+
  qed (rule keeps_basic)
  have core: "keeps (authorised_calls E W)
      (bindP (preflightToriumTransactionImpl E W preflightChain (JObj snapshot) sig) (\<lambda>p.
       bindP (throwSdkIf (\<not> pf_canSubmit p) (blockedError (ev_js E) chain (pf_blockers p))) (\<lambda>_.
       bindP (liftExn (normalizeToriumTransactionRequest (ev_js E) (wv_viem W) (JObj (preparedFields snapshot p)))) (\<lambda>prepared.
       authorizeAndSend E W chain p prepared sig))))" if "?N snapshot" for snapshot
    by (rule keeps_bind_result [OF keeps_preflightImpl,
          where Q = "\<lambda>p. \<exists>w w'. preflightToriumTransactionImpl E W preflightChain (JObj snapshot) sig w = (Inr p, w')"])
      (use after [OF that] in \<open>auto simp: returnsOnly_def\<close>)
  show ?thesis
    unfolding sendToriumTransactionOnceImpl_def
    by (rule keeps_bindP [OF keeps_basic(6)], rule keeps_bindP [OF keeps_basic(3)], rule keeps_bindP [OF keeps_basic(3)],
        rule keeps_bindP [OF keeps_basic(3)], rule keeps_bind_result [OF keeps_basic(3) ret], rule core)
qed


lemma sends_quiet [sends_rules]:
  "sends name 0 (throwAborted sig)" "sends name 0 (liftSdk r)" "sends name 0 (throwSdkIf b e)"
  by (simp_all add: sends_def throwAborted_def throwP_def returnP_def liftSdk_def liftP_def throwSdkIf_def)

lemma sends_promiseAll: "name \<notin> fst ` set calls \<Longrightarrow> sends name 0 (promiseAll E calls)"
  by (auto simp: sends_def sent_def promiseAll_trace intro!: filter_False)

lemma sends_other: "name \<noteq> name' \<Longrightarrow> sends name 0 (callExt E name' args)"
  using sends_callExt [of name name' E args] by simp

lemma sends_bind0: "sends name 0 m \<Longrightarrow> (\<And>x. sends name k (f x)) \<Longrightarrow> sends name k (bindP m f)"
  using sends_bindP [of name 0 m k f] by simp

lemma sends_preflightImpl:
  assumes "name \<in> {''sendTransaction'', ''authorize''}"
  shows "sends name 0 (preflightToriumTransactionImpl E W chain request sig)"
  unfolding preflightToriumTransactionImpl_def Let_def
  by (intro sends_bind0 sends_quiet sends_basic sends_other sends_promiseAll) (use assms in \<open>auto simp: preflightReads_def\<close>)

lemma sends_send_impl:
  "sends ''sendTransaction'' 1 (sendToriumTransactionOnceImpl E W chain preflightChain request sig)"
proof -
  have last: "sends ''sendTransaction'' 1 (bindP (callExt E ''sendTransaction'' args) (\<lambda>answer. liftExn (normalizeToriumHash answer)))" for args
    using sends_bindP [OF sends_callExt [of "''sendTransaction''" "''sendTransaction''" E args] sends_basic(4)] by simp
  have "sends ''sendTransaction'' 1 (authorizeAndSend E W chain p prepared sig)" for p prepared
    unfolding authorizeAndSend_def
    by (rule sends_bind0 [OF sends_quiet(1)], rule sends_bind0 [OF sends_other], simp, rule sends_bind0 [OF sends_quiet(3)],
        rule sends_bind0 [OF sends_quiet(1)], rule sends_bind0 [OF sends_basic(4)], rule sends_bind0 [OF sends_basic(4)], rule last)
  then show ?thesis
    unfolding sendToriumTransactionOnceImpl_def
    by (intro sends_bind0 sends_quiet sends_basic sends_preflightImpl) simp_all
qed

text \<open>
  C13: A submission sends at most one transaction, whatever fails and however it is retried or aborted, and a
  preflight sends none and asks for no authorisation.
\<close>

theorem send_at_most_once:
  "sends ''sendTransaction'' 1 (sendToriumTransactionOnce E W chain preflightChain request opts) \<and>
   sends ''sendTransaction'' 0 (preflightToriumTransaction E W chain request opts) \<and>
   sends ''authorize'' 0 (preflightToriumTransaction E W chain request opts)"
proof (intro conjI)
  show "sends ''sendTransaction'' 1 (sendToriumTransactionOnce E W chain preflightChain request opts)"
    using sends_runAction [of "''sendTransaction''" 1 "\<lambda>a s. sendToriumTransactionOnceImpl E W chain preflightChain request s",
        OF sends_send_impl, of False E "sendContext chain" opts]
    by (simp add: sendToriumTransactionOnce_def runToriumWriteActionOnce_def)
  have "sends name 0 (preflightToriumTransaction E W chain request opts)" if "name \<in> {''sendTransaction'', ''authorize''}" for name
    using sends_runAction [of name 0 "\<lambda>a s. preflightToriumTransactionImpl E W chain request s",
        OF sends_preflightImpl [OF that], of True E "(preflightContext chain)\<lparr>cx_kind := Read\<rparr>" opts]
    by (simp add: preflightToriumTransaction_def runToriumReadAction_def)
  then show "sends ''sendTransaction'' 0 (preflightToriumTransaction E W chain request opts)"
    "sends ''authorize'' 0 (preflightToriumTransaction E W chain request opts)" by simp_all
qed



section \<open>Receipts\<close>

lemma readReceipt_Inr:
  assumes "readReceipt J hash receipt = Inr l"
  shows "normalizeToriumHash (fieldOf (toRecord J receipt) ''transactionHash'') = Inr hash \<and>
    (l = Committed hash receipt \<and> fieldOf (toRecord J receipt) ''status'' = JStr ''success'' \<or>
     l = Reverted hash receipt \<and> fieldOf (toRecord J receipt) ''status'' = JStr ''reverted'')"
  using assms unfolding readReceipt_def bindR_Inr_iff throwIf_Inr getProp_def by (auto split: if_splits)

lemma waitImpl_returns:
  assumes "waitForToriumTransactionImpl E hv cv tv w = (Inr l, w')"
  obtains hash r w1 where "normalizeToriumHash hv = Inr hash"
    "callExt E ''waitForTransactionReceipt'' [JObj [(''hash'', JStr hash), (''confirmations'', nullish cv (JInt 1)),
       (''timeout'', nullish tv (JInt 180000)), (''checkReplacement'', JBool False)]] w = (r, w1)"
    "case r of Inl error \<Rightarrow> isReceiptTimeout (ev_js E) error \<and> l = UnknownOutcome hash
     | Inr receipt \<Rightarrow> readReceipt (ev_js E) hash receipt = Inr l"
proof -
  let ?args = "\<lambda>hash. [JObj [(''hash'', JStr hash), (''confirmations'', nullish cv (JInt 1)),
       (''timeout'', nullish tv (JInt 180000)), (''checkReplacement'', JBool False)]]"
  let ?body = "\<lambda>hash. bindP (callExt E ''waitForTransactionReceipt'' (?args hash)) (\<lambda>receipt. liftExn (readReceipt (ev_js E) hash receipt))"
  obtain hash where h: "normalizeToriumHash hv = Inr hash" and
    t: "tryP (?body hash) (\<lambda>error. if \<not> isReceiptTimeout (ev_js E) error then throwP error else returnP (UnknownOutcome hash)) w = (Inr l, w')"
    using assms unfolding waitForToriumTransactionImpl_def Let_def by (auto simp only: bindP_returns lift_returns_wallet)
  obtain r w1 where c: "callExt E ''waitForTransactionReceipt'' (?args hash) w = (r, w1)" by fastforce
  have no: "\<not> isReceiptTimeout (ev_js E) (throwExn e)" for e by (cases e) (simp_all add: isReceiptTimeout_def)
  have "case r of Inl error \<Rightarrow> isReceiptTimeout (ev_js E) error \<and> l = UnknownOutcome hash
     | Inr receipt \<Rightarrow> readReceipt (ev_js E) hash receipt = Inr l"
  proof (cases r)
    case (Inl error)
    with t c show ?thesis by (auto simp: tryP_def bindP_def throwP_def returnP_def split: if_splits)
  next
    case (Inr receipt)
    with t c no show ?thesis
      by (cases "readReceipt (ev_js E) hash receipt")
        (auto simp: tryP_def bindP_def throwP_def returnP_def liftExn_def liftP_def split: if_splits)
  qed
  with h c that show ?thesis by blast
qed

text \<open>
  C37: The outcome of a wait is never made up: a transaction is reported as committed or reverted only with a
  receipt of that status for the requested hash, and as unknown only when the client's wait timed out.
\<close>

theorem lifecycle_sound:
  assumes "fst (waitForToriumTransaction E hv cv tv opts w) = Inr l"
  shows "\<exists>hash. normalizeToriumHash hv = Inr hash \<and>
    (case l of
       Committed h receipt \<Rightarrow> h = hash \<and> fieldOf (toRecord (ev_js E) receipt) ''status'' = JStr ''success'' \<and>
         normalizeToriumHash (fieldOf (toRecord (ev_js E) receipt) ''transactionHash'') = Inr hash
     | Reverted h receipt \<Rightarrow> h = hash \<and> fieldOf (toRecord (ev_js E) receipt) ''status'' = JStr ''reverted'' \<and>
         normalizeToriumHash (fieldOf (toRecord (ev_js E) receipt) ''transactionHash'') = Inr hash
     | UnknownOutcome h \<Rightarrow> h = hash \<and> (\<exists>n args d error. ev_call E n ''waitForTransactionReceipt'' args = (d, Inl error) \<and>
         isReceiptTimeout (ev_js E) error))"
proof -
  obtain w1 w2 where "waitForToriumTransactionImpl E hv cv tv w1 = (Inr l, w2)"
    using runToriumReadAction_success [OF assms [unfolded waitForToriumTransaction_def]] by blast
  then obtain hash r w3 where h: "normalizeToriumHash hv = Inr hash" and
    c: "callExt E ''waitForTransactionReceipt'' [JObj [(''hash'', JStr hash), (''confirmations'', nullish cv (JInt 1)),
       (''timeout'', nullish tv (JInt 180000)), (''checkReplacement'', JBool False)]] w1 = (r, w3)" and
    r: "case r of Inl error \<Rightarrow> isReceiptTimeout (ev_js E) error \<and> l = UnknownOutcome hash
       | Inr receipt \<Rightarrow> readReceipt (ev_js E) hash receipt = Inr l"
    by (rule waitImpl_returns)
  from r h callExt_trace [OF c] show ?thesis
    by (cases r) (auto dest: readReceipt_Inr)
qed

definition receipt_env :: env where
  "receipt_env = sample_env\<lparr>ev_call := (\<lambda>n name args. (1, Inr
     (JObj [(''status'', JStr ''reverted''), (''transactionHash'', JStr (''0x'' @ replicate 64 CHR ''a''))])))\<rparr>"

theorem lifecycle_sound_witness:
  "\<exists>receipt. fst (waitForToriumTransaction receipt_env (JStr (''0x'' @ replicate 64 CHR ''a'')) JUndefined JUndefined
     sample_options sample_world) = Inr (Reverted (''0x'' @ replicate 64 CHR ''a'') receipt) \<and>
     fieldOf (toRecord (ev_js receipt_env) receipt) ''status'' = JStr ''reverted''"
proof -
  let ?h = "''0x'' @ replicate 64 CHR ''a''"
  let ?r = "JObj [(''status'', JStr ''reverted''), (''transactionHash'', JStr ?h)]"
  have "is_hash ?h" by (simp add: is_hash_def list_all_iff char_class_defs)
  moreover have "toLowerCase ?h = ?h" using live_texts(4) by (simp add: live_chars)
  ultimately have h: "normalizeToriumHash (JStr ?h) = Inr ?h" by (simp add: normalizeToriumHash_def)
  have "labelValid (Some ''waitForToriumTransaction'')" "labelValid (Some ''eth_getTransactionReceipt'')" "labelValid None"
    unfolding labelValid_Some by (code_simp, code_simp, simp add: labelValid_def)
  then have c: "validateExecutionContext (ev_js receipt_env) (waitContext\<lparr>cx_kind := Read\<rparr>) = Inr ()"
    by (simp add: validateExecutionContext_def waitContext_def)
  have "fst (waitForToriumTransactionImpl receipt_env (JStr ?h) JUndefined JUndefined w) = Inr (Reverted ?h ?r)" for w
    unfolding waitForToriumTransactionImpl_def h
    by (simp add: Let_def nullish_def isNullish_def bindP_def liftExn_def liftP_def max_safe_integer_def tryP_def callExt_def
        receipt_env_def readReceipt_def getProp_def h [simplified])
  then have r: "fst (waitForToriumTransaction receipt_env (JStr ?h) JUndefined JUndefined sample_options sample_world) = Inr (Reverted ?h ?r)"
    unfolding waitForToriumTransaction_def runToriumReadAction_def by (intro runAction_first [OF c])
  from lifecycle_sound [OF this] have "fieldOf (toRecord (ev_js receipt_env) ?r) ''status'' = JStr ''reverted''" by simp
  with r show ?thesis by blast
qed

section \<open>Canonical chains\<close>

lemma sameCanonicalValue_primitive: "\<not> isObjectLike r \<Longrightarrow> sameCanonicalValue l r \<longleftrightarrow> l = r"
  by (cases l; cases r) (simp_all add: sameCanonicalValue.simps)

lemma sameCanonicalValue_JObj:
  assumes "sameCanonicalValue l (JObj gs)"
  obtains fs where "l = JObj fs" "fst ` set fs = fst ` set gs"
    "\<forall>k \<in> fst ` set gs. sameCanonicalValue (fieldOf fs k) (fieldOf gs k)"
proof (cases l)
  case (JObj fs)
  show ?thesis
  proof (cases "fs = gs")
    case False
    have "sameCanonicalValue (JObj fs) (JObj gs) \<longleftrightarrow> length (sort (map fst fs)) = length (sort (map fst gs)) \<and>
        sort (map fst fs) = sort (map fst gs) \<and>
        list_all (\<lambda>k. sameCanonicalValue (fieldOf fs k) (fieldOf gs k)) (sort (map fst fs))"
      by (subst sameCanonicalValue.simps) (use False in \<open>simp only: jsval.inject if_False prod.case jsval.case Let_def\<close>)
    with assms JObj have "sort (map fst fs) = sort (map fst gs) \<and>
        list_all (\<lambda>k. sameCanonicalValue (fieldOf fs k) (fieldOf gs k)) (sort (map fst fs))" by blast
    then have e: "sort (map fst fs) = sort (map fst gs)"
      "list_all (\<lambda>k. sameCanonicalValue (fieldOf fs k) (fieldOf gs k)) (sort (map fst fs))" by blast+
    from arg_cong [OF e(1), of set] have s: "fst ` set fs = fst ` set gs" by simp
    from e(2) s have "\<forall>k \<in> fst ` set gs. sameCanonicalValue (fieldOf fs k) (fieldOf gs k)"
      by (auto simp: list_all_iff)
    with JObj s that show ?thesis by blast
  qed (use JObj that in simp)
qed (use assms in \<open>simp_all add: sameCanonicalValue.simps\<close>)

text \<open>
  A client is accepted only for a chain of the manifest: its id is one of the four, and its metadata
  have the same keys and the same texts, numbers and flags as the canonical definition of that chain.
\<close>

theorem accepted_chain_is_canonical:
  assumes "assertToriumChain c = Inr ()"
  shows "\<exists>chain fs gs. chain \<in> set (map snd toriumChains) \<and> cc_id c = chain_id chain \<and>
    cc_torium c = JObj fs \<and> metadataValue (torium chain) = JObj gs \<and> fst ` set fs = fst ` set gs \<and>
    (\<forall>k. k \<in> fst ` set gs \<longrightarrow> \<not> isObjectLike (fieldOf gs k) \<longrightarrow> fieldOf fs k = fieldOf gs k)"
proof -
  obtain v chain where v: "assertToriumChainId (JInt (cc_id c)) = Inr v" "getToriumChainById v = Inr chain" and
    same: "sameCanonicalValue (cc_torium c) (metadataValue (torium chain))"
    using assms unfolding assertToriumChain_def bindR_Inr_iff throwIf_Inr by blast
  have "v = JInt (cc_id c)" using v(1) by (simp add: assertToriumChainId_def split: if_splits)
  with v(2) have chain: "chain \<in> set (map snd toriumChains)" "cc_id c = chain_id chain"
    by (auto simp only: getToriumChainById_Inr jsval.inject jsnum.inject of_int_eq_iff)
  obtain gs where gs: "metadataValue (torium chain) = JObj gs" by (simp add: metadataValue_def)
  from same [unfolded gs] obtain fs where fs: "cc_torium c = JObj fs" "fst ` set fs = fst ` set gs"
      "\<forall>k \<in> fst ` set gs. sameCanonicalValue (fieldOf fs k) (fieldOf gs k)"
    by (rule sameCanonicalValue_JObj)
  have "\<forall>k. k \<in> fst ` set gs \<longrightarrow> \<not> isObjectLike (fieldOf gs k) \<longrightarrow> fieldOf fs k = fieldOf gs k"
    using fs(3) sameCanonicalValue_primitive by blast
  with chain gs fs(1,2) show ?thesis by blast
qed

theorem accepted_chain_is_canonical_witness:
  "\<exists>chain. chain \<in> set (map snd toriumChains) \<and> cc_id mainnet_client = chain_id chain"
  using accepted_chain_is_canonical [OF mainnet_canonical] by blast

end
