(* ===== verification/Contract_Core.thy ===== *)
theory Contract_Core
  imports Wallet
begin

text \<open>
  The shared part of \<^verbatim>\<open>packages/torium-sdk/src/contracts.ts\<close>: contract errors, the resolution and verification
  of deployments, the extraction and decoding of revert data, simulation, and the parsers of contract answers.

  Hashing and ABI coding are functions of viem and parameters of the model, in the record \<open>contract_viem\<close>.
  Contract reads are external calls: \<open>readContract\<close> with the address, the contract, the function and its arguments.
\<close>

section \<open>Functions of viem\<close>

record contract_viem =
  cv_viem :: viem
  cv_isHex :: "string \<Rightarrow> bool"
  cv_keccak256 :: "string \<Rightarrow> string"
  cv_toBytes :: "string \<Rightarrow> string"
  cv_encodeAbi :: "string list \<Rightarrow> jsval list \<Rightarrow> js_exn + string"
  cv_encodeFunction :: "string \<Rightarrow> string \<Rightarrow> jsval list \<Rightarrow> js_exn + string"
  cv_decodeError :: "string \<Rightarrow> string \<Rightarrow> js_exn + string \<times> jsval list option"

definition zeroHash :: string where
  "zeroHash = ''0x'' @ replicate 64 CHR ''0''"

section \<open>Contract errors\<close>

definition toriumContractNames :: "string list" where
  "toriumContractNames =
     [''toriumNative'', ''toriumCreate2Factory'', ''toriumRewardDistributor'', ''toriumAttestationRegistry'']"

definition contractErrorCategories :: "(string \<times> category) list" where
  "contractErrorCategories =
     [(''TORIUM_CONTRACT_CONFIG_INVALID'', Configuration), (''TORIUM_CONTRACT_NOT_DEPLOYED'', Contract),
      (''TORIUM_CONTRACT_CODE_MISSING'', Contract), (''TORIUM_CONTRACT_CODE_MISMATCH'', Contract),
      (''TORIUM_CONTRACT_VERSION_MISMATCH'', Compatibility), (''TORIUM_CONTRACT_RESPONSE_INVALID'', Rpc),
      (''TORIUM_CONTRACT_REVERTED'', Revert)]"

record contract_options =
  co_contractName :: "string option"
  co_address :: "string option"
  co_errorName :: "string option"
  co_errorArgs :: "jsval list option"
  co_cause :: jsval
  co_operation :: "string option"
  co_method :: "string option"
  co_revertData :: "string option"
  co_revertReason :: "string option"
  co_issues :: "string list option"

definition contractOptions :: contract_options where
  "contractOptions =
     \<lparr>co_contractName = None, co_address = None, co_errorName = None, co_errorArgs = None, co_cause = JUndefined,
      co_operation = None, co_method = None, co_revertData = None, co_revertReason = None, co_issues = None\<rparr>"

text \<open>No caller passes a chain id or a request id.\<close>

definition newContractError :: "js_env \<Rightarrow> string \<Rightarrow> string \<Rightarrow> contract_options \<Rightarrow> sdk_error" where
  "newContractError J errorCode message opts =
     (newToriumSdkError J ((sdkOptions errorCode (case map_of contractErrorCategories errorCode of None \<Rightarrow> Unknown | Some c \<Rightarrow> c))
        \<lparr>so_message := Some message, so_cause := co_cause opts, so_operation := co_operation opts, so_kind := Some Read,
         so_clientKind := Some ContractClient, so_method := co_method opts, so_retryable := Some False,
         so_safeToRetry := Some False, so_revertData := co_revertData opts, so_revertReason := co_revertReason opts,
         so_issues := co_issues opts\<rparr>))
      \<lparr>se_name := ''ToriumContractError'', se_contractName := co_contractName opts, se_address := co_address opts,
       se_errorName := co_errorName opts, se_errorArgs := co_errorArgs opts\<rparr>"

definition contractErrorToJSON :: "sdk_error \<Rightarrow> fields" where
  "contractErrorToJSON e =
     sdkErrorToJSON e @ optionField ''contractName'' JStr (se_contractName e) @
     optionField ''address'' JStr (se_address e) @ optionField ''errorName'' JStr (se_errorName e)"

definition invalidContractResponse :: "js_env \<Rightarrow> string \<Rightarrow> string \<Rightarrow> string option \<Rightarrow> sdk_error" where
  "invalidContractResponse J contractName label operation =
     newContractError J ''TORIUM_CONTRACT_RESPONSE_INVALID''
       (''The endpoint returned an invalid '' @ contractName @ '' '' @ label @ '' response.'')
       (contractOptions\<lparr>co_contractName := Some contractName, co_operation := operation, co_method := Some ''eth_call''\<rparr>)"

section \<open>Deployments\<close>

record deployment =
  dp_contractName :: string
  dp_address :: string
  dp_implementationVersion :: string
  dp_runtimeCodeKeccak256 :: "string option"

record deployment_override =
  do_address :: string
  do_implementationVersion :: "string option"
  do_runtimeCodeKeccak256 :: "string option"

record registry_entry =
  re_address :: "string option"
  re_implementationVersion :: string
  re_runtimeCodeKeccak256 :: "string option"
  re_status :: string

definition registryCatalog :: "(string \<times> registry_entry) list" where
  "registryCatalog =
     [(''toriumNative'',
        \<lparr>re_address = Some ''0xEeeeeEeeeEeEeeEeEeEeeEEEeeeeEeeeeeeeEEeE'', re_implementationVersion = ''protocol-v1'',
         re_runtimeCodeKeccak256 = None, re_status = ''active''\<rparr>),
      (''toriumCreate2Factory'',
        \<lparr>re_address = Some ''0xB6fCC3ce2f13543eB801Efd20a63bd1B4c4Efc1d'', re_implementationVersion = ''1.0.0'',
         re_runtimeCodeKeccak256 = Some ''0x1c8443d4510a3e5ab30fadbca17e932276bf09c93a6c6cbce40081cbf0273e55'',
         re_status = ''planned''\<rparr>),
      (''toriumRewardDistributor'',
        \<lparr>re_address = None, re_implementationVersion = ''1.0.0'',
         re_runtimeCodeKeccak256 = Some ''0xb62ef55f634464915f38d47b62b694265eb18c1e91c3b95adc045f0ab805968a'',
         re_status = ''planned''\<rparr>),
      (''toriumAttestationRegistry'',
        \<lparr>re_address = None, re_implementationVersion = ''1.0.0'',
         re_runtimeCodeKeccak256 = Some ''0x5b116d7520ab2a3f5129d62096841e0def2df8d82ad5c9bfb82ec189bca10705'',
         re_status = ''planned''\<rparr>)]"

definition normalizeContractAddress :: "js_env \<Rightarrow> viem \<Rightarrow> string \<Rightarrow> string \<Rightarrow> sdk_error + string" where
  "normalizeContractAddress J V contractName address =
     mapErr (\<lambda>error. newContractError J ''TORIUM_CONTRACT_CONFIG_INVALID''
         (''The '' @ contractName @ '' deployment address is not a valid EVM address.'')
         (contractOptions\<lparr>co_contractName := Some contractName, co_cause := exnValue error\<rparr>))
       (getAddress V address)"

definition resolveOperation :: string where
  "resolveOperation = ''resolveToriumContractDeployment''"

definition resolveBase ::
  "js_env \<Rightarrow> viem \<Rightarrow> string \<Rightarrow> registry_entry \<Rightarrow> deployment_override option \<Rightarrow> sdk_error + deployment" where
  "resolveBase J V contractName entry override =
     (case override of
        None \<Rightarrow>
          (case re_address entry of
             None \<Rightarrow> Inl (newContractError J ''TORIUM_CONTRACT_NOT_DEPLOYED''
               (''The generated registry has no broadcast '' @ contractName @ '' address (status: '' @ re_status entry @
                ''); pass an explicit local deployment.'')
               (contractOptions\<lparr>co_contractName := Some contractName, co_operation := Some resolveOperation\<rparr>))
           | Some a \<Rightarrow>
               bindR (normalizeContractAddress J V contractName a) (\<lambda>address.
               Inr \<lparr>dp_contractName = contractName, dp_address = address,
                    dp_implementationVersion = re_implementationVersion entry,
                    dp_runtimeCodeKeccak256 = re_runtimeCodeKeccak256 entry\<rparr>))
      | Some o' \<Rightarrow>
          let overrideVersion = orElse (do_implementationVersion o') (re_implementationVersion entry)
          in bindR (normalizeContractAddress J V contractName (do_address o')) (\<lambda>address.
             Inr \<lparr>dp_contractName = contractName, dp_address = address, dp_implementationVersion = overrideVersion,
                  dp_runtimeCodeKeccak256 = orOption (do_runtimeCodeKeccak256 o')
                    (if overrideVersion = re_implementationVersion entry then re_runtimeCodeKeccak256 entry else None)\<rparr>))"

text \<open>A name outside the four has no registry entry, and reading it throws; None stands for that.\<close>

definition resolveToriumContractDeployment ::
  "js_env \<Rightarrow> viem \<Rightarrow> string \<Rightarrow> deployment_override option \<Rightarrow> string option \<Rightarrow> thrown + deployment" where
  "resolveToriumContractDeployment J V contractName override expectedVersion =
     (case map_of registryCatalog contractName of
        None \<Rightarrow> Inl (throwExn (TypeError ''Cannot read properties of undefined''))
      | Some entry \<Rightarrow> mapErr Sdk
          (bindR (resolveBase J V contractName entry override) (\<lambda>d.
           bindR (throwIf (expectedVersion \<noteq> None \<and> expectedVersion \<noteq> Some (dp_implementationVersion d))
             (newContractError J ''TORIUM_CONTRACT_VERSION_MISMATCH''
               (''The resolved '' @ contractName @ '' implementation version '' @ dp_implementationVersion d @
                '' does not match the expected version '' @ orElse expectedVersion [] @ ''.'')
               (contractOptions\<lparr>co_contractName := Some contractName, co_address := Some (dp_address d),
                                co_operation := Some resolveOperation\<rparr>))) (\<lambda>_.
           Inr d))))"

section \<open>Verification of the runtime code\<close>

definition contractContext :: "string \<Rightarrow> string \<Rightarrow> category option \<Rightarrow> error_context" where
  "contractContext operation rpcMethod fallback =
     \<lparr>cx_operation = operation, cx_kind = Read, cx_clientKind = Some ContractClient, cx_method = Some rpcMethod,
      cx_chainId = None, cx_requestId = None, cx_fallbackCategory = fallback\<rparr>"

definition verifyOptions :: "deployment \<Rightarrow> contract_options" where
  "verifyOptions d =
     contractOptions\<lparr>co_contractName := Some (dp_contractName d), co_address := Some (dp_address d),
                     co_operation := Some ''verifyToriumContractDeployment''\<rparr>"

definition checkCode :: "js_env \<Rightarrow> contract_viem \<Rightarrow> deployment \<Rightarrow> string \<Rightarrow> jsval \<Rightarrow> sdk_error + string" where
  "checkCode J K d expected codeValue =
     (case codeValue of
        JStr c \<Rightarrow>
          if c = ''0x'' then
            Inl (newContractError J ''TORIUM_CONTRACT_CODE_MISSING''
              (''No runtime bytecode exists at the '' @ dp_contractName d @ '' address '' @ dp_address d @ ''.'')
              (verifyOptions d))
          else if \<not> cv_isHex K c then
            Inl (invalidContractResponse J (dp_contractName d) ''eth_getCode'' (Some ''verifyToriumContractDeployment''))
          else if cv_keccak256 K c \<noteq> toLowerCase expected then
            Inl (newContractError J ''TORIUM_CONTRACT_CODE_MISMATCH''
              (''The runtime bytecode at '' @ dp_address d @ '' does not match the pinned '' @ dp_contractName d @ '' '' @
               dp_implementationVersion d @ '' hash.'')
              ((verifyOptions d)\<lparr>co_issues := Some [''expected '' @ expected, ''actual '' @ cv_keccak256 K c]\<rparr>))
          else Inr (cv_keccak256 K c)
      | JUndefined \<Rightarrow>
          Inl (newContractError J ''TORIUM_CONTRACT_CODE_MISSING''
            (''No runtime bytecode exists at the '' @ dp_contractName d @ '' address '' @ dp_address d @ ''.'')
            (verifyOptions d))
      | _ \<Rightarrow> Inl (invalidContractResponse J (dp_contractName d) ''eth_getCode'' (Some ''verifyToriumContractDeployment'')))"

record code_verification =
  ve_contractName :: string
  ve_address :: string
  ve_implementationVersion :: string
  ve_runtimeCodeKeccak256 :: string

definition verifyAction :: "env \<Rightarrow> contract_viem \<Rightarrow> deployment \<Rightarrow> code_verification action" where
  "verifyAction E K d attempt sig =
     bindP (throwAborted sig) (\<lambda>_.
     case dp_runtimeCodeKeccak256 d of
       None \<Rightarrow> throwP (Sdk (newContractError (ev_js E) ''TORIUM_CONTRACT_CONFIG_INVALID''
         (''The '' @ dp_contractName d @ '' deployment has no pinned runtime code hash to verify against.'') (verifyOptions d)))
     | Some expected \<Rightarrow>
         bindP (callExt E ''getCode'' [JObj [(''address'', JStr (dp_address d))]]) (\<lambda>codeValue.
         bindP (throwAborted sig) (\<lambda>_.
         bindP (liftSdk (checkCode (ev_js E) K d expected codeValue)) (\<lambda>actual.
         returnP \<lparr>ve_contractName = dp_contractName d, ve_address = dp_address d,
                  ve_implementationVersion = dp_implementationVersion d, ve_runtimeCodeKeccak256 = actual\<rparr>))))"

definition verifyToriumContractDeployment ::
  "env \<Rightarrow> contract_viem \<Rightarrow> deployment \<Rightarrow> action_options \<Rightarrow> code_verification proc" where
  "verifyToriumContractDeployment E K d opts =
     runToriumReadAction E (verifyAction E K d) (contractContext ''verifyToriumContractDeployment'' ''eth_getCode'' None) opts"

section \<open>Reverts\<close>

definition decodeToriumContractRevert :: "contract_viem \<Rightarrow> string \<Rightarrow> string \<Rightarrow> (string \<times> jsval list) option" where
  "decodeToriumContractRevert K contractName revertData =
     (case cv_decodeError K contractName revertData of
        Inl _ \<Rightarrow> None
      | Inr (errorName, args) \<Rightarrow> Some (errorName, orElse args []))"

fun hexText :: "contract_viem \<Rightarrow> jsval \<Rightarrow> string option" where
  "hexText K (JStr s) = (if cv_isHex K s \<and> length s \<ge> 10 then Some s else None)"
| "hexText K _ = None"

definition revertDataOf :: "js_env \<Rightarrow> contract_viem \<Rightarrow> jsval \<Rightarrow> string option" where
  "revertDataOf J K v =
     orOption (hexText K v) (if isObjectLike v then hexText K (fieldOf (toRecord J v) ''data'') else None)"

fun extractFrom :: "js_env \<Rightarrow> contract_viem \<Rightarrow> nat \<Rightarrow> jsval \<Rightarrow> string option" where
  "extractFrom J K 0 current = None"
| "extractFrom J K (Suc n) current =
     (if \<not> isObjectLike current then None
      else let fs = toRecord J current
           in orOption (revertDataOf J K (fieldOf fs ''raw''))
                (orOption (revertDataOf J K (fieldOf fs ''data'')) (extractFrom J K n (fieldOf fs ''cause''))))"

definition extractToriumRevertData :: "js_env \<Rightarrow> contract_viem \<Rightarrow> jsval \<Rightarrow> string option" where
  "extractToriumRevertData J K error = extractFrom J K 10 error"

section \<open>Simulation\<close>

definition simulationError :: "js_env \<Rightarrow> contract_viem \<Rightarrow> string \<Rightarrow> jsval \<Rightarrow> thrown \<Rightarrow> thrown" where
  "simulationError J K contractName to error =
     (case extractToriumRevertData J K (thrownValue error) of
        None \<Rightarrow> error
      | Some revertData \<Rightarrow>
          let decoded = decodeToriumContractRevert K contractName revertData in
          Sdk (newContractError J ''TORIUM_CONTRACT_REVERTED''
            (case decoded of
               None \<Rightarrow> ''The simulated '' @ contractName @ '' call reverted with undecodable data.''
             | Some (errorName, args) \<Rightarrow> ''The simulated '' @ contractName @ '' call reverted with '' @ errorName @ ''.'')
            \<lparr>co_contractName = Some contractName, co_address = (case to of JStr s \<Rightarrow> Some s | _ \<Rightarrow> None),
             co_errorName = map_option fst decoded, co_errorArgs = map_option snd decoded, co_cause = thrownValue error,
             co_operation = Some ''simulateToriumContractRequest'', co_method = Some ''eth_call'',
             co_revertData = Some revertData, co_revertReason = map_option fst decoded, co_issues = None\<rparr>))"

definition callParameters :: "js_env \<Rightarrow> fields \<Rightarrow> js_exn + fields" where
  "callParameters J request =
     bindR (case fieldOf request ''account'' of
              JStr s \<Rightarrow> Inr [(''account'', JStr s)]
            | JUndefined \<Rightarrow> Inr []
            | v \<Rightarrow> bindR (getProp J v ''address'') (\<lambda>a. Inr [(''account'', a)])) (\<lambda>account.
     Inr (account @ [(''to'', fieldOf request ''to''), (''data'', nullish (fieldOf request ''data'') (JStr ''0x''))] @
          (if fieldOf request ''value'' = JUndefined then [] else [(''value'', fieldOf request ''value'')])))"

definition simulateAction :: "env \<Rightarrow> contract_viem \<Rightarrow> string \<Rightarrow> fields \<Rightarrow> unit action" where
  "simulateAction E K contractName request attempt sig =
     bindP (throwAborted sig) (\<lambda>_.
     tryP (bindP (liftExn (callParameters (ev_js E) request)) (\<lambda>parameters.
           bindP (callExt E ''call'' [JObj parameters]) (\<lambda>_. returnP ())))
       (\<lambda>error. throwP (simulationError (ev_js E) K contractName (fieldOf request ''to'') error)))"

definition simulateToriumContractRequest ::
  "env \<Rightarrow> contract_viem \<Rightarrow> string \<Rightarrow> fields \<Rightarrow> action_options \<Rightarrow> unit proc" where
  "simulateToriumContractRequest E K contractName request opts =
     (if isNullish (fieldOf request ''to'') then
        throwP (Sdk (newContractError (ev_js E) ''TORIUM_CONTRACT_CONFIG_INVALID''
          ''Torium contract simulation requires a contract target address.''
          (contractOptions\<lparr>co_contractName := Some contractName,
                           co_operation := Some ''simulateToriumContractRequest''\<rparr>)))
      else runToriumReadAction E (simulateAction E K contractName request)
             (contractContext ''simulateToriumContractRequest'' ''eth_call'' (Some Simulation)) opts)"

section \<open>Answers of contracts\<close>

definition readParameters :: "deployment \<Rightarrow> string \<Rightarrow> jsval list option \<Rightarrow> jsval list" where
  "readParameters d functionName args =
     [JObj ([(''address'', JStr (dp_address d)), (''abi'', JStr (dp_contractName d)), (''functionName'', JStr functionName)] @
            optionField ''args'' JArr args)]"

definition readFunction :: "env \<Rightarrow> deployment \<Rightarrow> string \<Rightarrow> jsval list option \<Rightarrow> jsval proc" where
  "readFunction E d functionName args = callExt E ''readContract'' (readParameters d functionName args)"

fun parseUint :: "js_env \<Rightarrow> deployment \<Rightarrow> string \<Rightarrow> jsval \<Rightarrow> thrown + int" where
  "parseUint J d label (JBigInt v) =
     (if v \<ge> 0 then mapErr throwExn (assertToriumUint256 (JBigInt v))
      else Inl (Sdk (invalidContractResponse J (dp_contractName d) label None)))"
| "parseUint J d label (JNum x) =
     (if num_isSafeInteger x \<and> num_le (Fin 0) x then Inr (num_int x)
      else Inl (Sdk (invalidContractResponse J (dp_contractName d) label None)))"
| "parseUint J d label _ = Inl (Sdk (invalidContractResponse J (dp_contractName d) label None))"

fun parseBooleanValue :: "js_env \<Rightarrow> deployment \<Rightarrow> string \<Rightarrow> jsval \<Rightarrow> thrown + bool" where
  "parseBooleanValue J d label (JBool b) = Inr b"
| "parseBooleanValue J d label _ = Inl (Sdk (invalidContractResponse J (dp_contractName d) label None))"

fun parseHashValue :: "js_env \<Rightarrow> deployment \<Rightarrow> string \<Rightarrow> jsval \<Rightarrow> thrown + string" where
  "parseHashValue J d label (JStr s) =
     (if rx_test hash_ci_rx s then Inr (toLowerCase s)
      else Inl (Sdk (invalidContractResponse J (dp_contractName d) label None)))"
| "parseHashValue J d label _ = Inl (Sdk (invalidContractResponse J (dp_contractName d) label None))"

fun parseAddressValue :: "js_env \<Rightarrow> viem \<Rightarrow> deployment \<Rightarrow> string \<Rightarrow> jsval \<Rightarrow> thrown + string" where
  "parseAddressValue J V d label (JStr s) =
     (case getAddress V s of
        Inr a \<Rightarrow> Inr a
      | Inl _ \<Rightarrow> Inl (Sdk (invalidContractResponse J (dp_contractName d) label None)))"
| "parseAddressValue J V d label _ = Inl (Sdk (invalidContractResponse J (dp_contractName d) label None))"

definition assertUint64 :: "int \<Rightarrow> string \<Rightarrow> js_exn + int" where
  "assertUint64 v label =
     (if v < 0 \<or> v > 0xffffffffffffffff then Inl (RangeError (''Torium '' @ label @ '' must fit in a uint64.'')) else Inr v)"

section \<open>Verified code\<close>

lemma liftP_returns [returns_simps]: "liftP r w = (Inr y, w') \<longleftrightarrow> r = Inr y \<and> w' = w"
  by (auto simp: liftP_def)

lemma checkCode_Inr:
  assumes "checkCode J K d expected codeValue = Inr actual"
  shows "\<exists>c. codeValue = JStr c \<and> c \<noteq> ''0x'' \<and> cv_isHex K c \<and> actual = cv_keccak256 K c \<and> actual = toLowerCase expected"
  using assms by (cases codeValue) (auto simp: checkCode_def split: if_splits)

text \<open>
  C22: A deployment is reported as verified only when it pins a hash and the endpoint answered its address with code, not
  empty, whose Keccak hash is the pinned one up to case; the report names that very deployment and hash.
\<close>

theorem verified_code_is_pinned:
  assumes "fst (verifyToriumContractDeployment E K d opts w) = Inr r"
  shows "\<exists>expected c w1 w2.
     dp_runtimeCodeKeccak256 d = Some expected \<and>
     callExt E ''getCode'' [JObj [(''address'', JStr (dp_address d))]] w1 = (Inr (JStr c), w2) \<and>
     c \<noteq> ''0x'' \<and> cv_isHex K c \<and> cv_keccak256 K c = toLowerCase expected \<and>
     r = \<lparr>ve_contractName = dp_contractName d, ve_address = dp_address d,
          ve_implementationVersion = dp_implementationVersion d, ve_runtimeCodeKeccak256 = toLowerCase expected\<rparr>"
proof -
  obtain a sig v1 v2 where act: "verifyAction E K d a sig v1 = (Inr r, v2)"
    using runToriumReadAction_success [OF assms [unfolded verifyToriumContractDeployment_def]] by blast
  then obtain expected where e: "dp_runtimeCodeKeccak256 d = Some expected"
    by (auto simp: verifyAction_def returns_simps split: option.splits)
  obtain w1 w2 v actual where "callExt E ''getCode'' [JObj [(''address'', JStr (dp_address d))]] w1 = (Inr v, w2)"
    "checkCode (ev_js E) K d expected v = Inr actual"
    "r = \<lparr>ve_contractName = dp_contractName d, ve_address = dp_address d,
          ve_implementationVersion = dp_implementationVersion d, ve_runtimeCodeKeccak256 = actual\<rparr>"
    using act unfolding verifyAction_def e option.case returns_simps by metis
  with e show ?thesis using checkCode_Inr by metis
qed

text \<open>Sample functions for witnesses: a fixed hash, and encoders that accept everything.\<close>

definition sample_hash :: string where
  "sample_hash = ''0x'' @ replicate 64 CHR ''a''"

definition sample_contracts :: contract_viem where
  "sample_contracts =
     \<lparr>cv_viem = sample_viem\<lparr>getAddress := Inr\<rparr>, cv_isHex = (\<lambda>s. take 2 s = ''0x''), cv_keccak256 = (\<lambda>s. sample_hash), cv_toBytes = id,
      cv_encodeAbi = (\<lambda>types args. Inr ''0x00''), cv_encodeFunction = (\<lambda>contract f args. Inr ''0x00''),
      cv_decodeError = (\<lambda>contract bytes. Inl (PlainError ''no match''))\<rparr>"

lemma sample_hash_not_zero [simp]: "sample_hash \<noteq> zeroHash"
  by (simp add: sample_hash_def zeroHash_def numeral_eq_Suc)

lemma sample_hash_shape: "rx_test hash_ci_rx sample_hash" "toLowerCase sample_hash = sample_hash"
  by (simp_all add: hash_ci_rx_iff hex_prefixed_def sample_hash_def list_all_iff char_class_defs toLowerCase_def live_chars)

definition code_env :: env where
  "code_env = sample_env\<lparr>ev_call := (\<lambda>n name args. (1, Inr (JStr ''0x6001'')))\<rparr>"

definition code_deployment :: deployment where
  "code_deployment =
     \<lparr>dp_contractName = ''toriumCreate2Factory'', dp_address = wallet_address, dp_implementationVersion = ''1.0.0'',
      dp_runtimeCodeKeccak256 = Some sample_hash\<rparr>"

definition code_report :: code_verification where
  "code_report =
     \<lparr>ve_contractName = ''toriumCreate2Factory'', ve_address = wallet_address, ve_implementationVersion = ''1.0.0'',
      ve_runtimeCodeKeccak256 = sample_hash\<rparr>"

lemma code_verified: "fst (verifyToriumContractDeployment code_env sample_contracts code_deployment sample_options w) = Inr code_report"
proof -
  have "labelValid (Some ''verifyToriumContractDeployment'')" "labelValid (Some ''eth_getCode'')" "labelValid None"
    unfolding labelValid_Some by (code_simp, code_simp, simp add: labelValid_def)
  then have c: "validateExecutionContext (ev_js code_env)
      ((contractContext ''verifyToriumContractDeployment'' ''eth_getCode'' None)\<lparr>cx_kind := Read\<rparr>) = Inr ()"
    by (simp add: validateExecutionContext_def contractContext_def)
  have "fst (verifyAction code_env sample_contracts code_deployment 1 None v) = Inr code_report" for v
    by (simp add: verifyAction_def bindP_def throwAborted_def abortedAt_def returnP_def code_deployment_def callExt_def code_env_def
        checkCode_def sample_contracts_def sample_hash_shape liftSdk_def liftP_def code_report_def)
  then show ?thesis
    unfolding verifyToriumContractDeployment_def runToriumReadAction_def by (rule runAction_first [OF c])
qed

theorem verified_code_is_pinned_witness:
  "\<exists>c. cv_keccak256 sample_contracts c = ve_runtimeCodeKeccak256 code_report \<and> dp_runtimeCodeKeccak256 code_deployment = Some sample_hash"
  using verified_code_is_pinned [OF code_verified [of sample_world]] by (auto simp: code_report_def code_deployment_def)

end
