(* ===== verification/Rewards.thy ===== *)
theory Rewards
  imports Contract_Core
begin

text \<open>
  The reward distributor of \<^verbatim>\<open>packages/torium-sdk/src/contracts.ts\<close>: Merkle-sum leaves, nodes and proofs, the reads of
  epochs and claims, the preflight of a claim and the encoded requests.
\<close>

section \<open>Merkle-sum proofs\<close>

record claim_leaf =
  cl_epochId :: int
  cl_index :: int
  cl_account :: string
  cl_amount :: int

record proof_node =
  pn_nodeHash :: string
  pn_sum :: int

record proof_result =
  pr_rootHash :: string
  pr_rootSum :: int

definition leafTypes :: "string list" where
  "leafTypes = [''uint256'', ''uint256'', ''address'', ''uint256'']"

definition nodeTypes :: "string list" where
  "nodeTypes = [''bytes32'', ''uint256'', ''bytes32'', ''uint256'']"

definition hashToriumRewardLeaf :: "contract_viem \<Rightarrow> claim_leaf \<Rightarrow> js_exn + string" where
  "hashToriumRewardLeaf K leaf =
     bindR (assertToriumUint256 (JBigInt (cl_epochId leaf))) (\<lambda>epochId.
     bindR (assertToriumUint256 (JBigInt (cl_index leaf))) (\<lambda>index.
     bindR (getAddress (cv_viem K) (cl_account leaf)) (\<lambda>account.
     bindR (assertToriumUint256 (JBigInt (cl_amount leaf))) (\<lambda>amount.
     bindR (cv_encodeAbi K leafTypes [JBigInt epochId, JBigInt index, JStr account, JBigInt amount]) (\<lambda>bytes.
     Inr (cv_keccak256 K bytes))))))"

text \<open>The order of strings is that of their characters, as \<open><=\<close> compares them.\<close>

definition hashToriumRewardNode :: "contract_viem \<Rightarrow> proof_node \<Rightarrow> proof_node \<Rightarrow> js_exn + proof_node" where
  "hashToriumRewardNode K first second =
     bindR (assertToriumUint256 (JBigInt (pn_sum first))) (\<lambda>a.
     bindR (assertToriumUint256 (JBigInt (pn_sum second))) (\<lambda>b.
     bindR (assertToriumUint256 (JBigInt (a + b))) (\<lambda>sum.
     let (left, right) =
       (if toLowerCase (pn_nodeHash first) \<le> toLowerCase (pn_nodeHash second) then (first, second) else (second, first))
     in bindR (cv_encodeAbi K nodeTypes
          [JStr (pn_nodeHash left), JBigInt (pn_sum left), JStr (pn_nodeHash right), JBigInt (pn_sum right)]) (\<lambda>bytes.
     Inr \<lparr>pn_nodeHash = cv_keccak256 K bytes, pn_sum = sum\<rparr>))))"

definition processSibling :: "contract_viem \<Rightarrow> proof_node \<Rightarrow> nat \<times> proof_node \<Rightarrow> js_exn + proof_node" where
  "processSibling K node entry =
     (case entry of (proofIndex, sibling) \<Rightarrow>
        if pn_nodeHash sibling = zeroHash \<or> pn_sum sibling = 0
        then Inl (RangeError (''Torium reward proof node '' @ show_nat proofIndex @ '' is malformed.''))
        else hashToriumRewardNode K node sibling)"

definition processToriumRewardProof :: "contract_viem \<Rightarrow> claim_leaf \<Rightarrow> proof_node list \<Rightarrow> js_exn + proof_result" where
  "processToriumRewardProof K leaf nodes =
     bindR (hashToriumRewardLeaf K leaf) (\<lambda>nodeHash.
     bindR (assertToriumUint256 (JBigInt (cl_amount leaf))) (\<lambda>sum.
     bindR (foldR (processSibling K) \<lparr>pn_nodeHash = nodeHash, pn_sum = sum\<rparr> (enumerate 0 nodes)) (\<lambda>node.
     Inr \<lparr>pr_rootHash = pn_nodeHash node, pr_rootSum = pn_sum node\<rparr>)))"

section \<open>Reads\<close>

record reward_epoch =
  ep_epochId :: int
  ep_rootHash :: string
  ep_funded :: int
  ep_claimStart :: int
  ep_claimEnd :: int
  ep_claimed :: int
  ep_clawed :: int

record distributor_state =
  ds_nextEpochId :: int
  ds_totalFunded :: int
  ds_totalClaimed :: int
  ds_totalClawed :: int
  ds_treasury :: string
  ds_publicationDelay :: int
  ds_clawbackDelay :: int
  ds_paused :: bool

definition parseRewardEpoch :: "js_env \<Rightarrow> deployment \<Rightarrow> int \<Rightarrow> jsval \<Rightarrow> thrown + reward_epoch option" where
  "parseRewardEpoch J d epochId raw =
     (case raw of
        JArr [r0, r1, r2, r3, r4, r5] \<Rightarrow>
          bindR (parseHashValue J d ''epochs.rootHash'' r0) (\<lambda>rootHash.
          if rootHash = zeroHash then Inr None
          else
            bindR (parseUint J d ''epochs.funded'' r1) (\<lambda>funded.
            bindR (parseUint J d ''epochs.claimStart'' r2) (\<lambda>claimStart.
            bindR (parseUint J d ''epochs.claimEnd'' r3) (\<lambda>claimEnd.
            bindR (parseUint J d ''epochs.claimed'' r4) (\<lambda>claimed.
            bindR (parseUint J d ''epochs.clawed'' r5) (\<lambda>clawed.
            Inr (Some \<lparr>ep_epochId = epochId, ep_rootHash = rootHash, ep_funded = funded, ep_claimStart = claimStart,
                       ep_claimEnd = claimEnd, ep_claimed = claimed, ep_clawed = clawed\<rparr>)))))))
      | _ \<Rightarrow> Inl (Sdk (invalidContractResponse J (dp_contractName d) ''epochs'' (Some ''getToriumRewardEpoch''))))"

definition stateFunctions :: "string list" where
  "stateFunctions =
     [''nextEpochId'', ''totalFunded'', ''totalClaimed'', ''totalClawed'', ''treasury'', ''publicationDelay'',
      ''clawbackDelay'', ''paused'']"

definition parseDistributorState :: "js_env \<Rightarrow> viem \<Rightarrow> deployment \<Rightarrow> jsval list \<Rightarrow> thrown + distributor_state" where
  "parseDistributorState J V d r =
     bindR (parseUint J d ''nextEpochId'' (r ! 0)) (\<lambda>nextEpochId.
     bindR (parseUint J d ''totalFunded'' (r ! 1)) (\<lambda>totalFunded.
     bindR (parseUint J d ''totalClaimed'' (r ! 2)) (\<lambda>totalClaimed.
     bindR (parseUint J d ''totalClawed'' (r ! 3)) (\<lambda>totalClawed.
     bindR (parseAddressValue J V d ''treasury'' (r ! 4)) (\<lambda>treasury.
     bindR (parseUint J d ''publicationDelay'' (r ! 5)) (\<lambda>publicationDelay.
     bindR (parseUint J d ''clawbackDelay'' (r ! 6)) (\<lambda>clawbackDelay.
     bindR (parseBooleanValue J d ''paused'' (r ! 7)) (\<lambda>paused.
     Inr \<lparr>ds_nextEpochId = nextEpochId, ds_totalFunded = totalFunded, ds_totalClaimed = totalClaimed,
          ds_totalClawed = totalClawed, ds_treasury = treasury, ds_publicationDelay = publicationDelay,
          ds_clawbackDelay = clawbackDelay, ds_paused = paused\<rparr>))))))))"

definition rewardDeployment :: "env \<Rightarrow> contract_viem \<Rightarrow> deployment_override option \<Rightarrow> thrown + deployment" where
  "rewardDeployment E K override =
     resolveToriumContractDeployment (ev_js E) (cv_viem K) ''toriumRewardDistributor'' override None"

definition getToriumRewardDistributorState ::
  "env \<Rightarrow> contract_viem \<Rightarrow> deployment_override option \<Rightarrow> action_options \<Rightarrow> distributor_state proc" where
  "getToriumRewardDistributorState E K override opts =
     bindP (liftP (rewardDeployment E K override)) (\<lambda>d.
     runToriumReadAction E (\<lambda>attempt sig.
       bindP (throwAborted sig) (\<lambda>_.
       bindP (promiseAll E (map (\<lambda>f. (''readContract'', readParameters d f None)) stateFunctions)) (\<lambda>answers.
       bindP (throwAborted sig) (\<lambda>_.
       liftP (parseDistributorState (ev_js E) (cv_viem K) d answers)))))
       (contractContext ''getToriumRewardDistributorState'' ''eth_call'' None) opts)"

definition getToriumRewardEpoch ::
  "env \<Rightarrow> contract_viem \<Rightarrow> deployment_override option \<Rightarrow> int \<Rightarrow> action_options \<Rightarrow> reward_epoch option proc" where
  "getToriumRewardEpoch E K override epochValue opts =
     bindP (liftP (rewardDeployment E K override)) (\<lambda>d.
     bindP (liftExn (assertToriumUint256 (JBigInt epochValue))) (\<lambda>epochId.
     runToriumReadAction E (\<lambda>attempt sig.
       bindP (throwAborted sig) (\<lambda>_.
       bindP (readFunction E d ''epochs'' (Some [JBigInt epochId])) (\<lambda>raw.
       liftP (parseRewardEpoch (ev_js E) d epochId raw))))
       (contractContext ''getToriumRewardEpoch'' ''eth_call'' None) opts))"

definition isToriumRewardClaimed ::
  "env \<Rightarrow> contract_viem \<Rightarrow> deployment_override option \<Rightarrow> int \<Rightarrow> int \<Rightarrow> action_options \<Rightarrow> bool proc" where
  "isToriumRewardClaimed E K override epochValue indexValue opts =
     bindP (liftP (rewardDeployment E K override)) (\<lambda>d.
     bindP (liftExn (assertToriumUint256 (JBigInt epochValue))) (\<lambda>epochId.
     bindP (liftExn (assertToriumUint256 (JBigInt indexValue))) (\<lambda>index.
     runToriumReadAction E (\<lambda>attempt sig.
       bindP (throwAborted sig) (\<lambda>_.
       bindP (readFunction E d ''isClaimed'' (Some [JBigInt epochId, JBigInt index])) (\<lambda>raw.
       liftP (parseBooleanValue (ev_js E) d ''isClaimed'' raw))))
       (contractContext ''isToriumRewardClaimed'' ''eth_call'' None) opts)))"

section \<open>Preflight of a claim\<close>

record claim_preflight =
  cp_canClaim :: bool
  cp_blockers :: "string list"
  cp_epoch :: "reward_epoch option"
  cp_currentTimestamp :: int
  cp_computedRootHash :: "string option"
  cp_computedRootSum :: "int option"

definition claimBlockers ::
  "proof_result option \<Rightarrow> reward_epoch option \<Rightarrow> bool \<Rightarrow> bool \<Rightarrow> int \<Rightarrow> string list" where
  "claimBlockers computed epoch alreadyClaimed paused now =
     (if computed = None then [''malformed-proof''] else []) @
     (if paused then [''distributor-paused''] else []) @
     (case epoch of
        None \<Rightarrow> [''epoch-not-found'']
      | Some e \<Rightarrow>
          (if now < ep_claimStart e then [''claim-not-started''] else []) @
          (if now \<ge> ep_claimEnd e then [''claim-window-closed''] else []) @
          (case computed of
             None \<Rightarrow> []
           | Some n \<Rightarrow> if pr_rootHash n \<noteq> ep_rootHash e \<or> pr_rootSum n \<noteq> ep_funded e then [''invalid-proof''] else [])) @
     (if alreadyClaimed then [''already-claimed''] else [])"

definition claimReads :: "deployment \<Rightarrow> int \<Rightarrow> int \<Rightarrow> (string \<times> jsval list) list" where
  "claimReads d epochId index =
     [(''readContract'', readParameters d ''epochs'' (Some [JBigInt epochId])),
      (''readContract'', readParameters d ''isClaimed'' (Some [JBigInt epochId, JBigInt index])),
      (''readContract'', readParameters d ''paused'' None),
      (''getBlock'', [JObj [(''blockTag'', JStr ''latest'')]])]"

definition claimVerdict ::
  "js_env \<Rightarrow> deployment \<Rightarrow> int \<Rightarrow> proof_result option \<Rightarrow> jsval list \<Rightarrow> thrown + claim_preflight" where
  "claimVerdict J d epochId computed answers =
     bindR (parseRewardEpoch J d epochId (answers ! 0)) (\<lambda>epoch.
     bindR (parseBooleanValue J d ''isClaimed'' (answers ! 1)) (\<lambda>alreadyClaimed.
     bindR (parseBooleanValue J d ''paused'' (answers ! 2)) (\<lambda>paused.
     bindR (mapErr throwExn (getProp J (answers ! 3) ''timestamp'')) (\<lambda>timestamp.
     bindR (parseUint J d ''block.timestamp'' timestamp) (\<lambda>now.
     let blockers = claimBlockers computed epoch alreadyClaimed paused now
     in Inr \<lparr>cp_canClaim = (blockers = []), cp_blockers = blockers, cp_epoch = epoch, cp_currentTimestamp = now,
             cp_computedRootHash = map_option pr_rootHash computed,
             cp_computedRootSum = map_option pr_rootSum computed\<rparr>)))))"

definition claimLeaf :: "contract_viem \<Rightarrow> claim_leaf \<Rightarrow> js_exn + claim_leaf" where
  "claimLeaf K p =
     bindR (assertToriumUint256 (JBigInt (cl_epochId p))) (\<lambda>epochId.
     bindR (assertToriumUint256 (JBigInt (cl_index p))) (\<lambda>index.
     bindR (getAddress (cv_viem K) (cl_account p)) (\<lambda>account.
     bindR (assertToriumUint256 (JBigInt (cl_amount p))) (\<lambda>amount.
     Inr \<lparr>cl_epochId = epochId, cl_index = index, cl_account = account, cl_amount = amount\<rparr>))))"

definition claimAction :: "env \<Rightarrow> contract_viem \<Rightarrow> deployment \<Rightarrow> claim_leaf \<Rightarrow> proof_node list \<Rightarrow> claim_preflight action" where
  "claimAction E K d leaf nodes attempt sig =
     bindP (throwAborted sig) (\<lambda>_.
     let computed = (case processToriumRewardProof K leaf nodes of Inl _ \<Rightarrow> None | Inr n \<Rightarrow> Some n) in
     bindP (promiseAll E (claimReads d (cl_epochId leaf) (cl_index leaf))) (\<lambda>answers.
     bindP (throwAborted sig) (\<lambda>_.
     liftP (claimVerdict (ev_js E) d (cl_epochId leaf) computed answers))))"

definition preflightToriumRewardClaim ::
  "env \<Rightarrow> contract_viem \<Rightarrow> deployment_override option \<Rightarrow> claim_leaf \<Rightarrow> proof_node list \<Rightarrow> action_options \<Rightarrow>
   claim_preflight proc" where
  "preflightToriumRewardClaim E K override claim nodes opts =
     bindP (liftP (rewardDeployment E K override)) (\<lambda>d.
     bindP (liftExn (claimLeaf K claim)) (\<lambda>leaf.
     runToriumReadAction E (claimAction E K d leaf nodes)
       (contractContext ''preflightToriumRewardClaim'' ''eth_call'' None) opts))"

section \<open>Encoded requests\<close>

definition encodedRequest ::
  "contract_viem \<Rightarrow> deployment \<Rightarrow> jsval \<Rightarrow> int \<Rightarrow> string \<Rightarrow> jsval list \<Rightarrow> js_exn + fields" where
  "encodedRequest K d sender v functionName args =
     bindR (cv_encodeFunction K (dp_contractName d) functionName args) (\<lambda>bytes.
     Inr [(''account'', sender), (''to'', JStr (dp_address d)), (''value'', JBigInt v), (''data'', JStr bytes)])"

definition proofArgument :: "proof_node \<Rightarrow> js_exn + jsval" where
  "proofArgument node =
     bindR (assertToriumUint256 (JBigInt (pn_sum node))) (\<lambda>sum.
     Inr (JObj [(''nodeHash'', JStr (pn_nodeHash node)), (''sum'', JBigInt sum)]))"

definition prepareToriumRewardClaim ::
  "env \<Rightarrow> contract_viem \<Rightarrow> deployment_override option \<Rightarrow> jsval \<Rightarrow> claim_leaf \<Rightarrow> proof_node list \<Rightarrow> thrown + fields" where
  "prepareToriumRewardClaim E K override sender claim nodes =
     bindR (rewardDeployment E K override) (\<lambda>d. mapErr throwExn
       (bindR (claimLeaf K claim) (\<lambda>leaf.
        bindR (mapR proofArgument nodes) (\<lambda>path.
        encodedRequest K d sender 0 ''claim''
          [JBigInt (cl_epochId leaf), JBigInt (cl_index leaf), JStr (cl_account leaf), JBigInt (cl_amount leaf), JArr path]))))"

definition prepareToriumRewardEpochPublication ::
  "env \<Rightarrow> contract_viem \<Rightarrow> deployment_override option \<Rightarrow> jsval \<Rightarrow> int \<Rightarrow> string \<Rightarrow> int \<Rightarrow> int \<Rightarrow> int \<Rightarrow> thrown + fields" where
  "prepareToriumRewardEpochPublication E K override sender epochId rootHash rootSum claimStart claimEnd =
     bindR (rewardDeployment E K override) (\<lambda>d. mapErr throwExn
       (bindR (assertToriumUint256 (JBigInt rootSum)) (\<lambda>rootSum.
        bindR (throwIf (rootHash = zeroHash) (RangeError ''Torium reward epoch root hash must not be zero.'')) (\<lambda>_.
        bindR (assertToriumUint256 (JBigInt epochId)) (\<lambda>epochId.
        bindR (assertUint64 claimStart ''claim start'') (\<lambda>claimStart.
        bindR (assertUint64 claimEnd ''claim end'') (\<lambda>claimEnd.
        encodedRequest K d sender rootSum ''publishEpoch''
          [JBigInt epochId, JStr rootHash, JBigInt rootSum, JBigInt claimStart, JBigInt claimEnd])))))))"

definition prepareToriumRewardClawback ::
  "env \<Rightarrow> contract_viem \<Rightarrow> deployment_override option \<Rightarrow> jsval \<Rightarrow> int \<Rightarrow> thrown + fields" where
  "prepareToriumRewardClawback E K override sender epochId =
     bindR (rewardDeployment E K override) (\<lambda>d. mapErr throwExn
       (bindR (assertToriumUint256 (JBigInt epochId)) (\<lambda>epochId.
        encodedRequest K d sender 0 ''clawback'' [JBigInt epochId])))"


section \<open>Sums along a proof\<close>

lemma hashToriumRewardNode_sum:
  assumes "hashToriumRewardNode K a b = Inr c"
  shows "pn_sum c = pn_sum a + pn_sum b" "0 \<le> pn_sum a" "0 \<le> pn_sum b" "pn_sum c \<le> toriumMaxUint256"
  using assms by (auto simp: hashToriumRewardNode_def Let_def uint256_def split: if_splits)

lemma processSiblings_sum:
  "foldR (processSibling K) node (enumerate i nodes) = Inr r \<Longrightarrow>
   pn_sum r = pn_sum node + sum_list (map pn_sum nodes) \<and>
   (\<forall>n \<in> set nodes. 0 < pn_sum n \<and> pn_nodeHash n \<noteq> zeroHash) \<and> (pn_sum node \<le> toriumMaxUint256 \<longrightarrow> pn_sum r \<le> toriumMaxUint256)"
proof (induction nodes arbitrary: node i)
  case (Cons n nodes)
  then obtain node1 where step: "processSibling K node (i, n) = Inr node1"
    and rest: "foldR (processSibling K) node1 (enumerate (Suc i) nodes) = Inr r" by auto
  then have h: "hashToriumRewardNode K node n = Inr node1" and m: "pn_nodeHash n \<noteq> zeroHash" "pn_sum n \<noteq> 0"
    by (auto simp: processSibling_def split: if_splits)
  from hashToriumRewardNode_sum [OF h] m Cons.IH [OF rest] show ?case by auto
qed simp

lemma processToriumRewardProof_sum:
  assumes "processToriumRewardProof K leaf nodes = Inr r"
  shows "pr_rootSum r = cl_amount leaf + sum_list (map pn_sum nodes)" "uint256 (cl_amount leaf)"
    "\<forall>n \<in> set nodes. 0 < pn_sum n" "pr_rootSum r \<le> toriumMaxUint256"
proof -
  from assms obtain h node where u: "uint256 (cl_amount leaf)"
    and f: "foldR (processSibling K) \<lparr>pn_nodeHash = h, pn_sum = cl_amount leaf\<rparr> (enumerate 0 nodes) = Inr node"
    and r: "pr_rootSum r = pn_sum node"
    by (auto simp: processToriumRewardProof_def split: if_splits)
  with processSiblings_sum [OF f] show "pr_rootSum r = cl_amount leaf + sum_list (map pn_sum nodes)"
    "uint256 (cl_amount leaf)" "\<forall>n \<in> set nodes. 0 < pn_sum n" "pr_rootSum r \<le> toriumMaxUint256"
    by (auto simp: uint256_def)
qed

lemma proof_amount_le:
  assumes "processToriumRewardProof K leaf nodes = Inr r"
  shows "cl_amount leaf \<le> pr_rootSum r"
proof -
  have "0 \<le> sum_list (map pn_sum nodes)"
    using processToriumRewardProof_sum(3) [OF assms] by (intro sum_list_nonneg) auto
  with processToriumRewardProof_sum(1) [OF assms] show ?thesis by simp
qed

text \<open>
  The root that a claim path commits to carries the exact sum: the claimed amount plus the sums of the siblings,
  within 256 bits. Every sibling adds a positive amount, so no path can commit to less than the amount it claims.
\<close>

theorem reward_proof_sum:
  assumes "processToriumRewardProof K leaf nodes = Inr r"
  shows "pr_rootSum r = cl_amount leaf + sum_list (map pn_sum nodes) \<and> 0 \<le> cl_amount leaf \<and>
         (\<forall>n \<in> set nodes. 0 < pn_sum n) \<and> cl_amount leaf \<le> pr_rootSum r \<and> pr_rootSum r \<le> toriumMaxUint256"
  using processToriumRewardProof_sum [OF assms] proof_amount_le [OF assms] by (auto simp: uint256_def)

definition sample_claim :: claim_leaf where
  "sample_claim = \<lparr>cl_epochId = 1, cl_index = 0, cl_account = wallet_address, cl_amount = 10\<rparr>"

definition sample_path :: "proof_node list" where
  "sample_path = [\<lparr>pn_nodeHash = sample_hash, pn_sum = 20\<rparr>]"

lemma small_uint256 [simp]: "uint256 0" "uint256 1" "uint256 (numeral n) \<longleftrightarrow> numeral n \<le> toriumMaxUint256"
  by (simp_all add: uint256_def toriumMaxUint256_eq)

lemma sample_processed:
  "processToriumRewardProof sample_contracts sample_claim sample_path = Inr \<lparr>pr_rootHash = sample_hash, pr_rootSum = 30\<rparr>"
  by (simp add: processToriumRewardProof_def hashToriumRewardLeaf_def hashToriumRewardNode_def processSibling_def
      sample_contracts_def sample_claim_def sample_path_def Let_def toriumMaxUint256_eq)

theorem reward_proof_sum_witness:
  "processToriumRewardProof sample_contracts sample_claim sample_path = Inr \<lparr>pr_rootHash = sample_hash, pr_rootSum = 30\<rparr> \<and>
   cl_amount sample_claim \<le> 30"
  using reward_proof_sum [OF sample_processed] sample_processed by simp

section \<open>The verdict on a claim\<close>

lemma claimBlockers_Nil:
  "claimBlockers computed epoch claimed paused now = [] \<longleftrightarrow>
   \<not> paused \<and> \<not> claimed \<and>
   (\<exists>e r. epoch = Some e \<and> computed = Some r \<and> ep_claimStart e \<le> now \<and> now < ep_claimEnd e \<and>
          pr_rootHash r = ep_rootHash e \<and> pr_rootSum r = ep_funded e)"
  by (cases epoch; cases computed) (auto simp: claimBlockers_def)

lemma parseBooleanValue_Inr [simp]: "parseBooleanValue J d label v = Inr b \<longleftrightarrow> v = JBool b"
  by (cases v) auto

lemma claimVerdict_Inr:
  assumes "claimVerdict J d epochId computed answers = Inr p"
  obtains claimed paused where
    "answers ! 1 = JBool claimed" "answers ! 2 = JBool paused" "parseRewardEpoch J d epochId (answers ! 0) = Inr (cp_epoch p)"
    "cp_canClaim p \<longleftrightarrow> claimBlockers computed (cp_epoch p) claimed paused (cp_currentTimestamp p) = []"
    "cp_blockers p = claimBlockers computed (cp_epoch p) claimed paused (cp_currentTimestamp p)"
  using assms by (auto simp: claimVerdict_def Let_def)

lemma liftExn_returns [returns_simps]: "liftExn r w = (Inr y, w') \<longleftrightarrow> r = Inr y \<and> w' = w"
  by (cases r) (auto simp: liftExn_def liftP_def)

lemma preflightToriumRewardClaim_Inr:
  assumes "fst (preflightToriumRewardClaim E K override claim nodes opts w) = Inr p"
  obtains d leaf answers w1 w2 where
    "rewardDeployment E K override = Inr d" "claimLeaf K claim = Inr leaf"
    "promiseAll E (claimReads d (cl_epochId leaf) (cl_index leaf)) w1 = (Inr answers, w2)"
    "claimVerdict (ev_js E) d (cl_epochId leaf)
       (case processToriumRewardProof K leaf nodes of Inl _ \<Rightarrow> None | Inr n \<Rightarrow> Some n) answers = Inr p"
proof -
  obtain w' where "preflightToriumRewardClaim E K override claim nodes opts w = (Inr p, w')"
    using assms by (metis prod.collapse)
  then obtain d leaf where d: "rewardDeployment E K override = Inr d" and l: "claimLeaf K claim = Inr leaf"
    and run: "fst (runToriumReadAction E (claimAction E K d leaf nodes)
                     (contractContext ''preflightToriumRewardClaim'' ''eth_call'' None) opts w) = Inr p"
    unfolding preflightToriumRewardClaim_def returns_simps by (metis fst_conv)
  from runToriumReadAction_success [OF run] obtain a s v1 v2 where "claimAction E K d leaf nodes a s v1 = (Inr p, v2)"
    by blast
  then obtain w1 w2 answers where
    "promiseAll E (claimReads d (cl_epochId leaf) (cl_index leaf)) w1 = (Inr answers, w2)"
    "claimVerdict (ev_js E) d (cl_epochId leaf)
       (case processToriumRewardProof K leaf nodes of Inl _ \<Rightarrow> None | Inr n \<Rightarrow> Some n) answers = Inr p"
    unfolding claimAction_def Let_def returns_simps by blast
  with d l show thesis by (rule that)
qed

definition computedRoot :: "contract_viem \<Rightarrow> claim_leaf \<Rightarrow> proof_node list \<Rightarrow> proof_result option" where
  "computedRoot K leaf nodes = (case processToriumRewardProof K leaf nodes of Inl _ \<Rightarrow> None | Inr n \<Rightarrow> Some n)"

lemma computedRoot_Some [simp]: "computedRoot K leaf nodes = Some r \<longleftrightarrow> processToriumRewardProof K leaf nodes = Inr r"
  by (simp add: computedRoot_def split: sum.splits)

definition claimable :: "contract_viem \<Rightarrow> claim_leaf \<Rightarrow> proof_node list \<Rightarrow> claim_preflight \<Rightarrow> bool" where
  "claimable K leaf nodes p \<longleftrightarrow>
     (\<exists>e r. cp_epoch p = Some e \<and> processToriumRewardProof K leaf nodes = Inr r \<and>
            ep_claimStart e \<le> cp_currentTimestamp p \<and> cp_currentTimestamp p < ep_claimEnd e \<and>
            pr_rootHash r = ep_rootHash e \<and> pr_rootSum r = ep_funded e \<and> cl_amount leaf \<le> ep_funded e)"

lemma claimBlockers_claimable:
  "claimBlockers (computedRoot K leaf nodes) (cp_epoch p) claimed paused (cp_currentTimestamp p) = [] \<longleftrightarrow>
   \<not> paused \<and> \<not> claimed \<and> claimable K leaf nodes p"
  unfolding claimBlockers_Nil claimable_def computedRoot_Some by (metis proof_amount_le)


definition reward_answer :: "string \<Rightarrow> jsval list \<Rightarrow> jsval" where
  "reward_answer name args =
     (if name = ''getBlock'' then JObj [(''timestamp'', JBigInt 150)]
      else case args of
          [JObj fs] \<Rightarrow>
            (if fieldOf fs ''functionName'' = JStr ''epochs''
             then JArr [JStr sample_hash, JBigInt 30, JBigInt 100, JBigInt 200, JBigInt 0, JBigInt 0] else JBool False)
        | _ \<Rightarrow> JUndefined)"

definition reward_env :: env where
  "reward_env = sample_env\<lparr>ev_call := (\<lambda>n name args. (1, Inr (reward_answer name args)))\<rparr>"

definition reward_override :: deployment_override where
  "reward_override = \<lparr>do_address = wallet_address, do_implementationVersion = None, do_runtimeCodeKeccak256 = None\<rparr>"

definition reward_deployment :: deployment where
  "reward_deployment =
     \<lparr>dp_contractName = ''toriumRewardDistributor'', dp_address = wallet_address, dp_implementationVersion = ''1.0.0'',
      dp_runtimeCodeKeccak256 = Some ''0xb62ef55f634464915f38d47b62b694265eb18c1e91c3b95adc045f0ab805968a''\<rparr>"

lemma reward_resolved: "rewardDeployment reward_env sample_contracts (Some reward_override) = Inr reward_deployment"
  by (simp add: rewardDeployment_def resolveToriumContractDeployment_def registryCatalog_def resolveBase_def reward_override_def
      normalizeContractAddress_def sample_contracts_def reward_deployment_def throwIf_def Let_def)

definition reward_verdict :: claim_preflight where
  "reward_verdict =
     \<lparr>cp_canClaim = True, cp_blockers = [],
      cp_epoch = Some \<lparr>ep_epochId = 1, ep_rootHash = sample_hash, ep_funded = 30, ep_claimStart = 100, ep_claimEnd = 200,
                      ep_claimed = 0, ep_clawed = 0\<rparr>,
      cp_currentTimestamp = 150, cp_computedRootHash = Some sample_hash, cp_computedRootSum = Some 30\<rparr>"

lemma reward_action: "fst (claimAction reward_env sample_contracts reward_deployment sample_claim sample_path 1 None w) = Inr reward_verdict"
proof -
  have p: "promiseAll reward_env (claimReads reward_deployment 1 0) v =
      (Inr [JArr [JStr sample_hash, JBigInt 30, JBigInt 100, JBigInt 200, JBigInt 0, JBigInt 0], JBool False, JBool False,
            JObj [(''timestamp'', JBigInt 150)]],
       v\<lparr>w_trace := w_trace v @ claimReads reward_deployment 1 0, w_clock := w_clock v + 1\<rparr>)" for v
    by (simp add: promiseAll_def claimReads_def readParameters_def reward_env_def reward_answer_def fieldOf_def optionField_def)
  have c: "cl_epochId sample_claim = 1" "cl_index sample_claim = 0" by (simp_all add: sample_claim_def)
  have v: "claimVerdict J reward_deployment 1 (Some \<lparr>pr_rootHash = sample_hash, pr_rootSum = 30\<rparr>)
      [JArr [JStr sample_hash, JBigInt 30, JBigInt 100, JBigInt 200, JBigInt 0, JBigInt 0], JBool False, JBool False,
       JObj [(''timestamp'', JBigInt 150)]] = Inr reward_verdict" for J
    by (simp add: claimVerdict_def parseRewardEpoch_def sample_hash_shape getProp_def isNullish_def fieldOf_def claimBlockers_def
        reward_verdict_def toriumMaxUint256_eq Let_def)
  show ?thesis
    by (simp add: claimAction_def Let_def sample_processed c bindP_def p v throwAborted_def abortedAt_def returnP_def liftP_def)
qed

lemma sample_leaf: "claimLeaf sample_contracts sample_claim = Inr sample_claim"
  by (simp add: claimLeaf_def sample_claim_def sample_contracts_def toriumMaxUint256_eq)

lemma reward_preflight:
  "fst (preflightToriumRewardClaim reward_env sample_contracts (Some reward_override) sample_claim sample_path sample_options
     sample_world) = Inr reward_verdict"
proof -
  have "labelValid (Some ''preflightToriumRewardClaim'')" "labelValid (Some ''eth_call'')" "labelValid None"
    unfolding labelValid_Some by (code_simp, code_simp, simp add: labelValid_def)
  then have c: "validateExecutionContext (ev_js reward_env)
      ((contractContext ''preflightToriumRewardClaim'' ''eth_call'' None)\<lparr>cx_kind := Read\<rparr>) = Inr ()"
    by (simp add: validateExecutionContext_def contractContext_def)
  have r: "fst (runToriumReadAction reward_env (claimAction reward_env sample_contracts reward_deployment sample_claim sample_path)
      (contractContext ''preflightToriumRewardClaim'' ''eth_call'' None) sample_options v) = Inr reward_verdict" for v
    unfolding runToriumReadAction_def by (rule runAction_first [OF c]) (rule reward_action)
  show ?thesis
    unfolding preflightToriumRewardClaim_def reward_resolved sample_leaf
    using r [of sample_world] by (simp add: bindP_def liftP_def liftExn_def)
qed


end
