(* ===== verification/Attestations.thy ===== *)
theory Attestations
  imports Rewards "HOL-Library.Log_Nat"
begin

text \<open>
  The attestation registry of \<^verbatim>\<open>packages/torium-sdk/src/contracts.ts\<close>: the hashes of a payload, the reads of attestations,
  the preflights of an attestation and of a revocation, and the encoded requests.
\<close>

section \<open>Payloads and their hashes\<close>

definition toriumAttestationStatuses :: "string list" where
  "toriumAttestationStatuses = [''missing'', ''active'', ''superseded'', ''revoked'']"

record attestation_payload =
  pl_schemaId :: string
  pl_schemaVersion :: jsnum
  pl_subject :: string
  pl_referenceHash :: "string option"
  pl_contentHash :: string
  pl_metadataHash :: string
  pl_metadataUriHash :: string

definition hashToriumAttestationUtf8 :: "contract_viem \<Rightarrow> string \<Rightarrow> string" where
  "hashToriumAttestationUtf8 K v = cv_keccak256 K (cv_toBytes K v)"

definition validateToriumAttestationPayload :: "attestation_payload \<Rightarrow> js_exn + unit" where
  "validateToriumAttestationPayload p =
     bindR (throwIf (pl_schemaId p = zeroHash) (RangeError ''Torium attestation schema ID must not be zero.'')) (\<lambda>_.
     bindR (throwIf (\<not> num_isInteger (pl_schemaVersion p) \<or> num_lt (pl_schemaVersion p) (Fin 1) \<or>
                     num_lt (Fin 0xffffffff) (pl_schemaVersion p))
       (RangeError ''Torium attestation schema version must be a uint32 from 1 upward.'')) (\<lambda>_.
     bindR (throwIf (pl_subject p = zeroHash) (RangeError ''Torium attestation subject must not be zero.'')) (\<lambda>_.
     bindR (throwIf (pl_contentHash p = zeroHash) (RangeError ''Torium attestation content hash must not be zero.'')) (\<lambda>_.
     bindR (throwIf (pl_metadataHash p = zeroHash) (RangeError ''Torium attestation metadata hash must not be zero.'')) (\<lambda>_.
     throwIf (pl_metadataUriHash p = zeroHash) (RangeError ''Torium attestation metadata URI hash must not be zero.''))))))"

definition payloadArguments :: "attestation_payload \<Rightarrow> jsval list" where
  "payloadArguments p =
     [JStr (pl_schemaId p), JNum (pl_schemaVersion p), JStr (pl_subject p), JStr (orElse (pl_referenceHash p) zeroHash),
      JStr (pl_contentHash p), JStr (pl_metadataHash p), JStr (pl_metadataUriHash p)]"

definition computeToriumAttestationCommitment :: "contract_viem \<Rightarrow> attestation_payload \<Rightarrow> string \<Rightarrow> js_exn + string" where
  "computeToriumAttestationCommitment K p supersedes =
     bindR (validateToriumAttestationPayload p) (\<lambda>_.
     bindR (cv_encodeAbi K ([''bytes32'', ''uint32''] @ replicate 6 ''bytes32'') (payloadArguments p @ [JStr supersedes])) (\<lambda>bytes.
     Inr (cv_keccak256 K bytes)))"

definition computeToriumAttestationReplayKey :: "contract_viem \<Rightarrow> string \<Rightarrow> attestation_payload \<Rightarrow> js_exn + string" where
  "computeToriumAttestationReplayKey K issuer p =
     bindR (validateToriumAttestationPayload p) (\<lambda>_.
     bindR (getAddress (cv_viem K) issuer) (\<lambda>address.
     bindR (cv_encodeAbi K ([''address'', ''bytes32'', ''uint32''] @ replicate 5 ''bytes32'') (JStr address # payloadArguments p)) (\<lambda>bytes.
     Inr (cv_keccak256 K bytes))))"

text \<open>\<open>BigInt\<close> of a chain id, which the interface declares a number or a big integer; nothing else is converted here.\<close>

fun chainBigInt :: "jsval \<Rightarrow> js_exn + int" where
  "chainBigInt (JBigInt v) = Inr v"
| "chainBigInt (JNum x) =
     (if num_isInteger x then Inr (num_int x)
      else Inl (RangeError ''The number cannot be converted to a BigInt because it is not an integer''))"
| "chainBigInt _ = Inl (TypeError ''Cannot convert value to a BigInt'')"

definition computeToriumAttestationId ::
  "contract_viem \<Rightarrow> jsval \<Rightarrow> string \<Rightarrow> string \<Rightarrow> int \<Rightarrow> string \<Rightarrow> js_exn + string" where
  "computeToriumAttestationId K chainId registry issuer issuerNonce commitment =
     bindR (chainBigInt chainId) (\<lambda>n.
     bindR (assertToriumUint256 (JBigInt n)) (\<lambda>chain.
     bindR (getAddress (cv_viem K) registry) (\<lambda>registryAddress.
     bindR (getAddress (cv_viem K) issuer) (\<lambda>issuerAddress.
     bindR (assertToriumUint256 (JBigInt issuerNonce)) (\<lambda>nonce.
     bindR (cv_encodeAbi K [''uint256'', ''address'', ''address'', ''uint256'', ''bytes32'']
       [JBigInt chain, JStr registryAddress, JStr issuerAddress, JBigInt nonce, JStr commitment]) (\<lambda>bytes.
     Inr (cv_keccak256 K bytes)))))))"

section \<open>Answers of the registry\<close>

record attestation =
  at_attestationId :: string
  at_status :: string
  at_schemaId :: string
  at_schemaVersion :: jsnum
  at_issuer :: string
  at_issuerNonce :: int
  at_subject :: string
  at_referenceHash :: string
  at_contentHash :: string
  at_metadataHash :: string
  at_metadataUriHash :: string
  at_supersedes :: string
  at_supersededBy :: string
  at_createdAt :: int
  at_revokedAt :: int
  at_supersededAt :: int
  at_revocationReasonHash :: string

text \<open>
  \<open>Number\<close> of a nonnegative big integer below \<open>2 ^ 256\<close>: the nearest value with 53 significant bits, the even one of two.
\<close>

definition bigToNumber :: "int \<Rightarrow> jsnum" where
  "bigToNumber v =
     (if v < 2 ^ 53 then Fin (of_int v)
      else let e = floorlog 2 (nat v) - 53; unit = 2 ^ e; q = v div unit; r = 2 * (v mod unit)
           in Fin (of_int (if r > unit \<or> r = unit \<and> odd q then (q + 1) * unit else q * unit)))"

definition parseAttestation :: "js_env \<Rightarrow> viem \<Rightarrow> deployment \<Rightarrow> string \<Rightarrow> string \<Rightarrow> jsval \<Rightarrow> thrown + attestation" where
  "parseAttestation J V d attestationId status raw =
     (if \<not> isObjectLike raw
      then Inl (Sdk (invalidContractResponse J (dp_contractName d) ''getAttestation'' (Some ''getToriumAttestation'')))
      else
        let get = fieldOf (toRecord J raw);
            hash = (\<lambda>k. parseHashValue J d (''attestation.'' @ k) (get k));
            uint = (\<lambda>k. parseUint J d (''attestation.'' @ k) (get k)) in
        bindR (uint ''schemaVersion'') (\<lambda>schemaVersion.
        bindR (hash ''schemaId'') (\<lambda>schemaId.
        bindR (parseAddressValue J V d ''attestation.issuer'' (get ''issuer'')) (\<lambda>issuer.
        bindR (uint ''issuerNonce'') (\<lambda>issuerNonce.
        bindR (hash ''subject'') (\<lambda>subject.
        bindR (hash ''referenceHash'') (\<lambda>referenceHash.
        bindR (hash ''contentHash'') (\<lambda>contentHash.
        bindR (hash ''metadataHash'') (\<lambda>metadataHash.
        bindR (hash ''metadataUriHash'') (\<lambda>metadataUriHash.
        bindR (hash ''supersedes'') (\<lambda>supersedes.
        bindR (hash ''supersededBy'') (\<lambda>supersededBy.
        bindR (uint ''createdAt'') (\<lambda>createdAt.
        bindR (uint ''revokedAt'') (\<lambda>revokedAt.
        bindR (uint ''supersededAt'') (\<lambda>supersededAt.
        bindR (hash ''revocationReasonHash'') (\<lambda>revocationReasonHash.
        Inr \<lparr>at_attestationId = attestationId, at_status = status, at_schemaId = schemaId,
             at_schemaVersion = bigToNumber schemaVersion, at_issuer = issuer, at_issuerNonce = issuerNonce,
             at_subject = subject, at_referenceHash = referenceHash, at_contentHash = contentHash,
             at_metadataHash = metadataHash, at_metadataUriHash = metadataUriHash, at_supersedes = supersedes,
             at_supersededBy = supersededBy, at_createdAt = createdAt, at_revokedAt = revokedAt,
             at_supersededAt = supersededAt, at_revocationReasonHash = revocationReasonHash\<rparr>))))))))))))))))"

text \<open>An index outside the list of statuses, negative ones included, reads \<open>undefined\<close>.\<close>

definition statusAt :: "int \<Rightarrow> string option" where
  "statusAt i = (if 0 \<le> i \<and> i < int (length toriumAttestationStatuses) then Some (toriumAttestationStatuses ! nat i) else None)"

definition parseAttestationStatus :: "js_env \<Rightarrow> deployment \<Rightarrow> jsval \<Rightarrow> thrown + string" where
  "parseAttestationStatus J d raw =
     (case statusAt (case raw of
          JNum x \<Rightarrow> if num_isInteger x then num_int x else -1
        | JBigInt v \<Rightarrow> v
        | _ \<Rightarrow> -1) of
        Some status \<Rightarrow> Inr status
      | None \<Rightarrow> Inl (Sdk (invalidContractResponse J (dp_contractName d) ''statusOf'' (Some ''getToriumAttestationStatus''))))"

section \<open>Reads\<close>

definition attestationDeployment :: "env \<Rightarrow> contract_viem \<Rightarrow> deployment_override option \<Rightarrow> thrown + deployment" where
  "attestationDeployment E K override =
     resolveToriumContractDeployment (ev_js E) (cv_viem K) ''toriumAttestationRegistry'' override None"

definition readStatus :: "env \<Rightarrow> deployment \<Rightarrow> string \<Rightarrow> string proc" where
  "readStatus E d attestationId =
     bindP (readFunction E d ''statusOf'' (Some [JStr attestationId])) (\<lambda>raw.
     liftP (parseAttestationStatus (ev_js E) d raw))"

definition readAttestation :: "env \<Rightarrow> contract_viem \<Rightarrow> deployment \<Rightarrow> string \<Rightarrow> string \<Rightarrow> attestation proc" where
  "readAttestation E K d attestationId status =
     bindP (readFunction E d ''getAttestation'' (Some [JStr attestationId])) (\<lambda>raw.
     liftP (parseAttestation (ev_js E) (cv_viem K) d attestationId status raw))"

definition getToriumAttestationStatus ::
  "env \<Rightarrow> contract_viem \<Rightarrow> deployment_override option \<Rightarrow> string \<Rightarrow> action_options \<Rightarrow> string proc" where
  "getToriumAttestationStatus E K override attestationId opts =
     bindP (liftP (attestationDeployment E K override)) (\<lambda>d.
     runToriumReadAction E (\<lambda>attempt sig. bindP (throwAborted sig) (\<lambda>_. readStatus E d attestationId))
       (contractContext ''getToriumAttestationStatus'' ''eth_call'' None) opts)"

definition isToriumAttestationActive ::
  "env \<Rightarrow> contract_viem \<Rightarrow> deployment_override option \<Rightarrow> string \<Rightarrow> action_options \<Rightarrow> bool proc" where
  "isToriumAttestationActive E K override attestationId opts =
     bindP (getToriumAttestationStatus E K override attestationId opts) (\<lambda>status. returnP (status = ''active''))"

definition getToriumAttestation ::
  "env \<Rightarrow> contract_viem \<Rightarrow> deployment_override option \<Rightarrow> string \<Rightarrow> action_options \<Rightarrow> attestation option proc" where
  "getToriumAttestation E K override attestationId opts =
     bindP (liftP (attestationDeployment E K override)) (\<lambda>d.
     runToriumReadAction E (\<lambda>attempt sig.
       bindP (throwAborted sig) (\<lambda>_.
       bindP (readStatus E d attestationId) (\<lambda>status.
       if status = ''missing'' then returnP None
       else
         bindP (throwAborted sig) (\<lambda>_.
         bindP (readAttestation E K d attestationId status) (\<lambda>a. returnP (Some a))))))
       (contractContext ''getToriumAttestation'' ''eth_call'' None) opts)"

definition verifyToriumAttestation ::
  "env \<Rightarrow> contract_viem \<Rightarrow> deployment_override option \<Rightarrow> string \<Rightarrow> string \<Rightarrow> string \<Rightarrow> action_options \<Rightarrow> bool proc" where
  "verifyToriumAttestation E K override attestationId expectedIssuer expectedCommitment opts =
     bindP (liftP (attestationDeployment E K override)) (\<lambda>d.
     runToriumReadAction E (\<lambda>attempt sig.
       bindP (throwAborted sig) (\<lambda>_.
       bindP (liftExn (getAddress (cv_viem K) expectedIssuer)) (\<lambda>issuer.
       bindP (readFunction E d ''verify'' (Some [JStr attestationId, JStr issuer, JStr expectedCommitment])) (\<lambda>raw.
       liftP (parseBooleanValue (ev_js E) d ''verify'' raw)))))
       (contractContext ''verifyToriumAttestation'' ''eth_call'' None) opts)"

section \<open>Preflight of an attestation\<close>

record attestation_preflight =
  ap_canAttest :: bool
  ap_blockers :: "string list"
  ap_replayKey :: string
  ap_predictedIssuerNonce :: int
  ap_predictedCommitment :: string
  ap_predictedAttestationId :: string

definition priorBlockers :: "attestation \<Rightarrow> string \<Rightarrow> attestation_payload \<Rightarrow> string list" where
  "priorBlockers prior issuer payload =
     (if at_issuer prior \<noteq> issuer then [''supersedes-issuer-mismatch''] else []) @
     (if at_schemaId prior \<noteq> pl_schemaId payload then [''supersedes-schema-mismatch''] else []) @
     (if at_subject prior \<noteq> pl_subject payload then [''supersedes-subject-mismatch''] else [])"

definition supersedesBlockers ::
  "env \<Rightarrow> contract_viem \<Rightarrow> deployment \<Rightarrow> string \<Rightarrow> attestation_payload \<Rightarrow> string \<Rightarrow> signal \<Rightarrow> string list proc" where
  "supersedesBlockers E K d issuer payload supersedes sig =
     (if supersedes = zeroHash then returnP []
      else
        bindP (readStatus E d supersedes) (\<lambda>status.
        bindP (throwAborted sig) (\<lambda>_.
        if status = ''missing'' then returnP [''supersedes-not-found'']
        else if status \<noteq> ''active'' then returnP [''supersedes-not-active'']
        else
          bindP (readAttestation E K d supersedes status) (\<lambda>prior.
          bindP (throwAborted sig) (\<lambda>_.
          returnP (priorBlockers prior issuer payload))))))"

definition attestationReads :: "deployment \<Rightarrow> string \<Rightarrow> string \<Rightarrow> (string \<times> jsval list) list" where
  "attestationReads d replayKey issuer =
     [(''readContract'', readParameters d ''usedPayloads'' (Some [JStr replayKey])),
      (''readContract'', readParameters d ''issuerNonces'' (Some [JStr issuer])),
      (''getChainId'', [])]"

definition attestationVerdict ::
  "js_env \<Rightarrow> contract_viem \<Rightarrow> deployment \<Rightarrow> string \<Rightarrow> attestation_payload \<Rightarrow> string \<Rightarrow> string \<Rightarrow> string list \<Rightarrow> jsval \<Rightarrow> jsval \<Rightarrow>
   thrown + attestation_preflight" where
  "attestationVerdict J K d issuer payload supersedes replayKey blockers rawNonce chainId =
     bindR (parseUint J d ''issuerNonces'' rawNonce) (\<lambda>nonce.
     mapErr throwExn
       (bindR (computeToriumAttestationCommitment K payload supersedes) (\<lambda>commitment.
        bindR (computeToriumAttestationId K chainId (dp_address d) issuer (nonce + 1) commitment) (\<lambda>attestationId.
        Inr \<lparr>ap_canAttest = (blockers = []), ap_blockers = blockers, ap_replayKey = replayKey,
             ap_predictedIssuerNonce = nonce + 1, ap_predictedCommitment = commitment,
             ap_predictedAttestationId = attestationId\<rparr>))))"

definition attestationAction ::
  "env \<Rightarrow> contract_viem \<Rightarrow> deployment \<Rightarrow> string \<Rightarrow> attestation_payload \<Rightarrow> string \<Rightarrow> string \<Rightarrow> attestation_preflight action" where
  "attestationAction E K d issuer payload supersedes replayKey attempt sig =
     bindP (throwAborted sig) (\<lambda>_.
     bindP (promiseAll E (attestationReads d replayKey issuer)) (\<lambda>answers.
     bindP (throwAborted sig) (\<lambda>_.
     bindP (liftP (parseBooleanValue (ev_js E) d ''usedPayloads'' (answers ! 0))) (\<lambda>used.
     bindP (supersedesBlockers E K d issuer payload supersedes sig) (\<lambda>more.
     liftP (attestationVerdict (ev_js E) K d issuer payload supersedes replayKey
       ((if used then [''duplicate-payload''] else []) @ more) (answers ! 1) (answers ! 2)))))))"

definition preflightToriumAttestation ::
  "env \<Rightarrow> contract_viem \<Rightarrow> deployment_override option \<Rightarrow> string \<Rightarrow> attestation_payload \<Rightarrow> string option \<Rightarrow> action_options \<Rightarrow>
   attestation_preflight proc" where
  "preflightToriumAttestation E K override issuerValue payload supersedesValue opts =
     bindP (liftP (attestationDeployment E K override)) (\<lambda>d.
     bindP (liftExn (getAddress (cv_viem K) issuerValue)) (\<lambda>issuer.
     bindP (liftExn (computeToriumAttestationReplayKey K issuer payload)) (\<lambda>replayKey.
     runToriumReadAction E (attestationAction E K d issuer payload (orElse supersedesValue zeroHash) replayKey)
       (contractContext ''preflightToriumAttestation'' ''eth_call'' None) opts)))"

section \<open>Preflight of a revocation\<close>

record revocation_preflight =
  rp_canRevoke :: bool
  rp_blockers :: "string list"
  rp_status :: string

definition revocationAction ::
  "env \<Rightarrow> contract_viem \<Rightarrow> deployment \<Rightarrow> string \<Rightarrow> string \<Rightarrow> revocation_preflight action" where
  "revocationAction E K d attestationId issuer attempt sig =
     bindP (throwAborted sig) (\<lambda>_.
     bindP (readStatus E d attestationId) (\<lambda>status.
     bindP (throwAborted sig) (\<lambda>_.
     bindP (if status = ''missing'' then returnP [''attestation-not-found'']
            else if status \<noteq> ''active'' then returnP [''attestation-not-active'']
            else bindP (readAttestation E K d attestationId status) (\<lambda>a.
                 returnP (if at_issuer a \<noteq> issuer then [''issuer-mismatch''] else []))) (\<lambda>blockers.
     returnP \<lparr>rp_canRevoke = (blockers = []), rp_blockers = blockers, rp_status = status\<rparr>))))"

definition preflightToriumAttestationRevocation ::
  "env \<Rightarrow> contract_viem \<Rightarrow> deployment_override option \<Rightarrow> string \<Rightarrow> string \<Rightarrow> action_options \<Rightarrow> revocation_preflight proc" where
  "preflightToriumAttestationRevocation E K override attestationId issuerValue opts =
     bindP (liftP (attestationDeployment E K override)) (\<lambda>d.
     bindP (liftExn (getAddress (cv_viem K) issuerValue)) (\<lambda>issuer.
     runToriumReadAction E (revocationAction E K d attestationId issuer)
       (contractContext ''preflightToriumAttestationRevocation'' ''eth_call'' None) opts))"

section \<open>Encoded requests\<close>

definition prepareToriumAttestation ::
  "env \<Rightarrow> contract_viem \<Rightarrow> deployment_override option \<Rightarrow> jsval \<Rightarrow> attestation_payload \<Rightarrow> string option \<Rightarrow> thrown + fields" where
  "prepareToriumAttestation E K override sender payload supersedes =
     bindR (attestationDeployment E K override) (\<lambda>d. mapErr throwExn
       (bindR (validateToriumAttestationPayload payload) (\<lambda>_.
        encodedRequest K d sender 0 ''attest'' (payloadArguments payload @ [JStr (orElse supersedes zeroHash)]))))"

definition prepareToriumAttestationRevocation ::
  "env \<Rightarrow> contract_viem \<Rightarrow> deployment_override option \<Rightarrow> jsval \<Rightarrow> string \<Rightarrow> string \<Rightarrow> thrown + fields" where
  "prepareToriumAttestationRevocation E K override sender attestationId revocationReasonHash =
     bindR (attestationDeployment E K override) (\<lambda>d. mapErr throwExn
       (bindR (throwIf (revocationReasonHash = zeroHash)
          (RangeError ''Torium attestation revocation reason hash must not be zero.'')) (\<lambda>_.
        encodedRequest K d sender 0 ''revoke'' [JStr attestationId, JStr revocationReasonHash])))"


section \<open>What an admitted attestation satisfies\<close>

lemma parseHashValue_lower: "parseHashValue J d label v = Inr h \<Longrightarrow> toLowerCase h = h"
  by (cases v) (auto split: if_splits)

lemma parseAttestation_lower:
  assumes "parseAttestation J V d i status raw = Inr a"
  shows "toLowerCase (at_schemaId a) = at_schemaId a" "toLowerCase (at_subject a) = at_subject a"
  using assms unfolding parseAttestation_def Let_def
  by (auto split: if_splits dest: parseHashValue_lower)

lemma readAttestation_returns:
  assumes "readAttestation E K d i status w = (Inr a, w')"
  shows "toLowerCase (at_schemaId a) = at_schemaId a" "toLowerCase (at_subject a) = at_subject a"
  using assms parseAttestation_lower unfolding readAttestation_def returns_simps by blast+

definition supersedable :: "env \<Rightarrow> contract_viem \<Rightarrow> deployment \<Rightarrow> string \<Rightarrow> attestation_payload \<Rightarrow> string \<Rightarrow> bool" where
  "supersedable E K d issuer payload supersedes \<longleftrightarrow>
     (\<exists>prior v1 v2 v3 v4. readStatus E d supersedes v1 = (Inr ''active'', v2) \<and>
        readAttestation E K d supersedes ''active'' v3 = (Inr prior, v4) \<and>
        at_issuer prior = issuer \<and> at_schemaId prior = pl_schemaId payload \<and> at_subject prior = pl_subject payload)"

lemma priorBlockers_Nil:
  "priorBlockers prior issuer payload = [] \<longleftrightarrow>
   at_issuer prior = issuer \<and> at_schemaId prior = pl_schemaId payload \<and> at_subject prior = pl_subject payload"
  by (simp add: priorBlockers_def)

lemma supersedesBlockers_Nil:
  assumes "supersedesBlockers E K d issuer payload supersedes sig w = (Inr [], w')" "supersedes \<noteq> zeroHash"
  shows "supersedable E K d issuer payload supersedes"
proof -
  obtain status w1 w2 where s: "readStatus E d supersedes w = (Inr status, w1)"
    and r: "(if status = ''missing'' then returnP [''supersedes-not-found'']
        else if status \<noteq> ''active'' then returnP [''supersedes-not-active'']
        else bindP (readAttestation E K d supersedes status) (\<lambda>prior.
             bindP (throwAborted sig) (\<lambda>_. returnP (priorBlockers prior issuer payload)))) w2 = (Inr [], w')"
    using assms unfolding supersedesBlockers_def by (auto simp: returns_simps)
  have a: "status = ''active''" using r by (auto simp: returns_simps split: if_splits)
  then obtain prior w3 where "readAttestation E K d supersedes ''active'' w2 = (Inr prior, w3)"
    "priorBlockers prior issuer payload = []" using r by (auto simp: returns_simps)
  with s a show ?thesis unfolding supersedable_def priorBlockers_Nil by blast
qed

lemma preflightToriumAttestation_Inr:
  assumes "fst (preflightToriumAttestation E K override issuerValue payload supersedesValue opts w) = Inr p"
  obtains d issuer replayKey answers used more w1 w2 w3 w4 sig where
    "attestationDeployment E K override = Inr d" "getAddress (cv_viem K) issuerValue = Inr issuer"
    "computeToriumAttestationReplayKey K issuer payload = Inr replayKey"
    "promiseAll E (attestationReads d replayKey issuer) w1 = (Inr answers, w2)" "answers ! 0 = JBool used"
    "supersedesBlockers E K d issuer payload (orElse supersedesValue zeroHash) sig w3 = (Inr more, w4)"
    "attestationVerdict (ev_js E) K d issuer payload (orElse supersedesValue zeroHash) replayKey
       ((if used then [''duplicate-payload''] else []) @ more) (answers ! 1) (answers ! 2) = Inr p"
proof -
  obtain w' where "preflightToriumAttestation E K override issuerValue payload supersedesValue opts w = (Inr p, w')"
    using assms by (metis prod.collapse)
  then obtain d issuer replayKey where d: "attestationDeployment E K override = Inr d"
    "getAddress (cv_viem K) issuerValue = Inr issuer" "computeToriumAttestationReplayKey K issuer payload = Inr replayKey"
    and run: "fst (runToriumReadAction E (attestationAction E K d issuer payload (orElse supersedesValue zeroHash) replayKey)
                (contractContext ''preflightToriumAttestation'' ''eth_call'' None) opts w) = Inr p"
    unfolding preflightToriumAttestation_def returns_simps by (metis fst_conv)
  from runToriumReadAction_success [OF run] obtain a sig v1 v2 where
    act: "attestationAction E K d issuer payload (orElse supersedesValue zeroHash) replayKey a sig v1 = (Inr p, v2)" by blast
  obtain w1 w2 w3 w4 answers used more where
    "promiseAll E (attestationReads d replayKey issuer) w1 = (Inr answers, w2)" "answers ! 0 = JBool used"
    "supersedesBlockers E K d issuer payload (orElse supersedesValue zeroHash) sig w3 = (Inr more, w4)"
    "attestationVerdict (ev_js E) K d issuer payload (orElse supersedesValue zeroHash) replayKey
       ((if used then [''duplicate-payload''] else []) @ more) (answers ! 1) (answers ! 2) = Inr p"
    using act unfolding attestationAction_def returns_simps parseBooleanValue_Inr by blast
  with d show thesis by (rule that)
qed

lemma attestationVerdict_Inr:
  assumes "attestationVerdict J K d issuer payload supersedes replayKey blockers rawNonce chainId = Inr p"
  shows "ap_canAttest p \<longleftrightarrow> blockers = []" "ap_blockers p = blockers" "ap_replayKey p = replayKey"
    "parseUint J d ''issuerNonces'' rawNonce = Inr (ap_predictedIssuerNonce p - 1)"
    "computeToriumAttestationCommitment K payload supersedes = Inr (ap_predictedCommitment p)"
    "computeToriumAttestationId K chainId (dp_address d) issuer (ap_predictedIssuerNonce p) (ap_predictedCommitment p) =
       Inr (ap_predictedAttestationId p)"
proof -
  from assms obtain nonce c i where v: "parseUint J d ''issuerNonces'' rawNonce = Inr nonce"
    "computeToriumAttestationCommitment K payload supersedes = Inr c"
    "computeToriumAttestationId K chainId (dp_address d) issuer (nonce + 1) c = Inr i"
    and p: "p = \<lparr>ap_canAttest = (blockers = []), ap_blockers = blockers, ap_replayKey = replayKey,
             ap_predictedIssuerNonce = nonce + 1, ap_predictedCommitment = c, ap_predictedAttestationId = i\<rparr>"
    unfolding attestationVerdict_def by (auto simp: mapErr_Inr)
  from v show "ap_canAttest p \<longleftrightarrow> blockers = []" "ap_blockers p = blockers" "ap_replayKey p = replayKey"
    "parseUint J d ''issuerNonces'' rawNonce = Inr (ap_predictedIssuerNonce p - 1)"
    "computeToriumAttestationCommitment K payload supersedes = Inr (ap_predictedCommitment p)"
    "computeToriumAttestationId K chainId (dp_address d) issuer (ap_predictedIssuerNonce p) (ap_predictedCommitment p) =
       Inr (ap_predictedAttestationId p)" by (simp_all add: p)
qed


text \<open>
  C23: An attestation preflight that returns predicts the identity the registry will assign, from the next nonce of the
  issuer, the commitment of the payload and the chain, and it admits the attestation only when the payload is unused and
  what it supersedes, if anything, is an active attestation of the same issuer, schema and subject.
\<close>

theorem attestation_preflight_sound:
  assumes "fst (preflightToriumAttestation E K override issuerValue payload supersedesValue opts w) = Inr p"
  shows "\<exists>d issuer answers used w1 w2.
     attestationDeployment E K override = Inr d \<and> getAddress (cv_viem K) issuerValue = Inr issuer \<and>
     computeToriumAttestationReplayKey K issuer payload = Inr (ap_replayKey p) \<and>
     promiseAll E (attestationReads d (ap_replayKey p) issuer) w1 = (Inr answers, w2) \<and>
     answers ! 0 = JBool used \<and>
     parseUint (ev_js E) d ''issuerNonces'' (answers ! 1) = Inr (ap_predictedIssuerNonce p - 1) \<and>
     computeToriumAttestationCommitment K payload (orElse supersedesValue zeroHash) = Inr (ap_predictedCommitment p) \<and>
     computeToriumAttestationId K (answers ! 2) (dp_address d) issuer (ap_predictedIssuerNonce p) (ap_predictedCommitment p) =
       Inr (ap_predictedAttestationId p) \<and>
     (ap_canAttest p \<longleftrightarrow> ap_blockers p = []) \<and>
     (ap_canAttest p \<longrightarrow> \<not> used \<and> (orElse supersedesValue zeroHash = zeroHash \<or>
        supersedable E K d issuer payload (orElse supersedesValue zeroHash)))"
proof -
  obtain d issuer replayKey answers used more w1 w2 w3 w4 sig where
    r: "attestationDeployment E K override = Inr d" "getAddress (cv_viem K) issuerValue = Inr issuer"
    "computeToriumAttestationReplayKey K issuer payload = Inr replayKey"
    "promiseAll E (attestationReads d replayKey issuer) w1 = (Inr answers, w2)" "answers ! 0 = JBool used"
    and s: "supersedesBlockers E K d issuer payload (orElse supersedesValue zeroHash) sig w3 = (Inr more, w4)"
    and v: "attestationVerdict (ev_js E) K d issuer payload (orElse supersedesValue zeroHash) replayKey
       ((if used then [''duplicate-payload''] else []) @ more) (answers ! 1) (answers ! 2) = Inr p"
    by (rule preflightToriumAttestation_Inr [OF assms])
  note f = attestationVerdict_Inr [OF v]
  have b: "(if used then [''duplicate-payload''] else []) @ more = [] \<longleftrightarrow> \<not> used \<and> more = []" by simp
  have "ap_canAttest p \<longrightarrow> \<not> used \<and> (orElse supersedesValue zeroHash = zeroHash \<or>
        supersedable E K d issuer payload (orElse supersedesValue zeroHash))"
    using f(1) [unfolded b] supersedesBlockers_Nil [of E K d issuer payload "orElse supersedesValue zeroHash" sig w3 w4] s
    by blast
  moreover have "ap_canAttest p \<longleftrightarrow> ap_blockers p = []" unfolding f(1,2) by simp
  ultimately show ?thesis using r f(4,5,6) unfolding f(3) [symmetric] by blast
qed

text \<open>
  C40: A payload whose schema id or subject is not spelled in lower case can never supersede an attestation: the preflight
  compares it with the lower-case answer of the registry, so it reports a mismatch also for the very same value.
\<close>

theorem upper_case_never_supersedes:
  assumes "fst (preflightToriumAttestation E K override issuerValue payload (Some supersedes) opts w) = Inr p"
    and "supersedes \<noteq> zeroHash"
    and "toLowerCase (pl_schemaId payload) \<noteq> pl_schemaId payload \<or> toLowerCase (pl_subject payload) \<noteq> pl_subject payload"
  shows "\<not> ap_canAttest p"
proof
  assume c: "ap_canAttest p"
  obtain d issuer replayKey used more w3 w4 sig v1 v2 where
    s: "supersedesBlockers E K d issuer payload supersedes sig w3 = (Inr more, w4)"
    and v: "attestationVerdict (ev_js E) K d issuer payload supersedes replayKey
       ((if used then [''duplicate-payload''] else []) @ more) v1 v2 = Inr p"
    by (rule preflightToriumAttestation_Inr [OF assms(1), unfolded option.case])
  have "more = []" using attestationVerdict_Inr(1) [OF v] c by simp
  then have "supersedable E K d issuer payload supersedes" using s supersedesBlockers_Nil assms(2) by blast
  with assms(3) readAttestation_returns show False unfolding supersedable_def by metis
qed

section \<open>Sample attestations\<close>

definition attestation_answer :: "string \<Rightarrow> jsval list \<Rightarrow> jsval" where
  "attestation_answer name args =
     (if name = ''getChainId'' then JInt 5525330
      else case args of
          [JObj fs] \<Rightarrow>
            (if fieldOf fs ''functionName'' = JStr ''usedPayloads'' then JBool False
             else if fieldOf fs ''functionName'' = JStr ''issuerNonces'' then JBigInt 4
             else if fieldOf fs ''functionName'' = JStr ''statusOf'' then JBigInt 1
             else JObj ((''issuer'', JStr wallet_address) #
                    map (\<lambda>k. (k, JBigInt 1)) [''schemaVersion'', ''issuerNonce'', ''createdAt'', ''revokedAt'', ''supersededAt''] @
                    map (\<lambda>k. (k, JStr sample_hash)) [''schemaId'', ''subject'', ''referenceHash'', ''contentHash'',
                      ''metadataHash'', ''metadataUriHash'', ''supersedes'', ''supersededBy'', ''revocationReasonHash'']))
        | _ \<Rightarrow> JUndefined)"

definition attestation_env :: env where
  "attestation_env = sample_env\<lparr>ev_call := (\<lambda>n name args. (1, Inr (attestation_answer name args)))\<rparr>"

definition sample_payload :: "string \<Rightarrow> attestation_payload" where
  "sample_payload schema =
     \<lparr>pl_schemaId = schema, pl_schemaVersion = Fin 1, pl_subject = sample_hash, pl_referenceHash = None,
      pl_contentHash = sample_hash, pl_metadataHash = sample_hash, pl_metadataUriHash = sample_hash\<rparr>"

definition registry_deployment :: deployment where
  "registry_deployment =
     \<lparr>dp_contractName = ''toriumAttestationRegistry'', dp_address = wallet_address, dp_implementationVersion = ''1.0.0'',
      dp_runtimeCodeKeccak256 = Some ''0x5b116d7520ab2a3f5129d62096841e0def2df8d82ad5c9bfb82ec189bca10705''\<rparr>"

definition sample_attestation_preflight :: "string \<Rightarrow> attestation_preflight" where
  "sample_attestation_preflight schema =
     (let blockers = (if sample_hash \<noteq> schema then [''supersedes-schema-mismatch''] else []) in
      \<lparr>ap_canAttest = (blockers = []), ap_blockers = blockers, ap_replayKey = sample_hash, ap_predictedIssuerNonce = 5,
       ap_predictedCommitment = sample_hash, ap_predictedAttestationId = sample_hash\<rparr>)"

lemma registry_resolved: "attestationDeployment attestation_env sample_contracts (Some reward_override) = Inr registry_deployment"
  by (simp add: attestationDeployment_def resolveToriumContractDeployment_def registryCatalog_def resolveBase_def
      reward_override_def normalizeContractAddress_def sample_contracts_def registry_deployment_def throwIf_def Let_def)

lemma sample_payload_valid: "schema \<noteq> zeroHash \<Longrightarrow> validateToriumAttestationPayload (sample_payload schema) = Inr ()"
  by (simp add: validateToriumAttestationPayload_def sample_payload_def)

lemma sample_hashes:
  assumes "schema \<noteq> zeroHash"
  shows "computeToriumAttestationReplayKey sample_contracts wallet_address (sample_payload schema) = Inr sample_hash"
    "computeToriumAttestationCommitment sample_contracts (sample_payload schema) supersedes = Inr sample_hash"
    "computeToriumAttestationId sample_contracts (JInt 5525330) wallet_address wallet_address 5 sample_hash = Inr sample_hash"
  using sample_payload_valid [OF assms]
  by (simp_all add: computeToriumAttestationReplayKey_def computeToriumAttestationCommitment_def computeToriumAttestationId_def
      sample_contracts_def toriumMaxUint256_eq)

lemma attestation_call:
  "callExt attestation_env name args w =
     (Inr (attestation_answer name args), w\<lparr>w_clock := w_clock w + 1, w_trace := w_trace w @ [(name, args)]\<rparr>)"
  by (simp add: callExt_def attestation_env_def)

lemma sample_prior:
  "\<exists>prior. parseAttestation J (cv_viem sample_contracts) registry_deployment supersedes ''active''
     (attestation_answer ''readContract'' (readParameters registry_deployment ''getAttestation'' (Some [JStr supersedes]))) = Inr prior \<and>
     at_issuer prior = wallet_address \<and> at_schemaId prior = sample_hash \<and> at_subject prior = sample_hash"
  by (simp add: parseAttestation_def Let_def attestation_answer_def readParameters_def optionField_def fieldOf_def
      sample_hash_shape sample_contracts_def)

lemma sample_supersedes:
  assumes "supersedes \<noteq> zeroHash"
  shows "fst (supersedesBlockers attestation_env sample_contracts registry_deployment wallet_address (sample_payload schema) supersedes
     None w) = Inr (if sample_hash \<noteq> schema then [''supersedes-schema-mismatch''] else [])"
proof -
  obtain prior where p: "parseAttestation (ev_js attestation_env) (cv_viem sample_contracts) registry_deployment supersedes ''active''
     (attestation_answer ''readContract'' (readParameters registry_deployment ''getAttestation'' (Some [JStr supersedes]))) = Inr prior"
    "at_issuer prior = wallet_address" "at_schemaId prior = sample_hash" "at_subject prior = sample_hash"
    using sample_prior by blast
  have s: "attestation_answer ''readContract'' (readParameters registry_deployment ''statusOf'' (Some [JStr supersedes])) = JBigInt 1"
    by (simp add: attestation_answer_def readParameters_def optionField_def fieldOf_def)
  have st: "parseAttestationStatus J registry_deployment (JBigInt 1) = Inr ''active''" for J
    by (simp add: parseAttestationStatus_def statusAt_def toriumAttestationStatuses_def)
  show ?thesis
    using assms p
    by (simp add: supersedesBlockers_def readStatus_def readAttestation_def readFunction_def bindP_def attestation_call s st
        liftP_def throwAborted_def abortedAt_def returnP_def priorBlockers_def sample_payload_def)
qed

lemma sample_attestation_action:
  assumes "supersedes \<noteq> zeroHash" "schema \<noteq> zeroHash"
  shows "fst (attestationAction attestation_env sample_contracts registry_deployment wallet_address (sample_payload schema) supersedes
     sample_hash 1 None w) = Inr (sample_attestation_preflight schema)"
proof -
  have p: "promiseAll attestation_env (attestationReads registry_deployment sample_hash wallet_address) v =
      (Inr [JBool False, JBigInt 4, JInt 5525330],
       v\<lparr>w_trace := w_trace v @ attestationReads registry_deployment sample_hash wallet_address, w_clock := w_clock v + 1\<rparr>)" for v
    by (simp add: promiseAll_def attestationReads_def readParameters_def attestation_env_def attestation_answer_def fieldOf_def
        optionField_def)
  have v: "attestationVerdict J sample_contracts registry_deployment wallet_address (sample_payload schema) supersedes sample_hash
      (if sample_hash \<noteq> schema then [''supersedes-schema-mismatch''] else []) (JBigInt 4) (JInt 5525330) =
      Inr (sample_attestation_preflight schema)" for J
    using sample_hashes [OF assms(2)]
    by (simp add: attestationVerdict_def sample_attestation_preflight_def toriumMaxUint256_eq Let_def registry_deployment_def)
  obtain w' where s: "supersedesBlockers attestation_env sample_contracts registry_deployment wallet_address (sample_payload schema) supersedes
     None (w\<lparr>w_trace := w_trace w @ attestationReads registry_deployment sample_hash wallet_address, w_clock := w_clock w + 1\<rparr>) =
     (Inr (if sample_hash \<noteq> schema then [''supersedes-schema-mismatch''] else []), w')"
    using sample_supersedes [OF assms(1)] by (metis prod.collapse)
  show ?thesis
    using s by (simp add: attestationAction_def bindP_def p throwAborted_def abortedAt_def returnP_def liftP_def v [simplified])
qed

lemma sample_attestation_run:
  assumes "supersedes \<noteq> zeroHash" "schema \<noteq> zeroHash"
  shows "fst (preflightToriumAttestation attestation_env sample_contracts (Some reward_override) wallet_address
     (sample_payload schema) (Some supersedes) sample_options sample_world) = Inr (sample_attestation_preflight schema)"
proof -
  have "labelValid (Some ''preflightToriumAttestation'')" "labelValid (Some ''eth_call'')" "labelValid None"
    unfolding labelValid_Some by (code_simp, code_simp, simp add: labelValid_def)
  then have c: "validateExecutionContext (ev_js attestation_env)
      ((contractContext ''preflightToriumAttestation'' ''eth_call'' None)\<lparr>cx_kind := Read\<rparr>) = Inr ()"
    by (simp add: validateExecutionContext_def contractContext_def)
  have r: "fst (runToriumReadAction attestation_env (attestationAction attestation_env sample_contracts registry_deployment
      wallet_address (sample_payload schema) supersedes sample_hash)
      (contractContext ''preflightToriumAttestation'' ''eth_call'' None) sample_options v) = Inr (sample_attestation_preflight schema)" for v
    unfolding runToriumReadAction_def by (rule runAction_first [OF c]) (rule sample_attestation_action [OF assms])
  have g: "getAddress (cv_viem sample_contracts) wallet_address = Inr wallet_address" by (simp add: sample_contracts_def)
  show ?thesis
    unfolding preflightToriumAttestation_def registry_resolved g
    using r [of sample_world] sample_hashes(1) [OF assms(2)] by (simp add: bindP_def liftP_def liftExn_def)
qed

theorem attestation_preflight_sound_witness:
  "ap_canAttest (sample_attestation_preflight sample_hash) \<and>
   (\<exists>d. supersedable attestation_env sample_contracts d wallet_address (sample_payload sample_hash) sample_hash)"
proof -
  have c: "ap_canAttest (sample_attestation_preflight sample_hash)" by (simp add: sample_attestation_preflight_def)
  moreover have "getAddress (cv_viem sample_contracts) wallet_address = Inr wallet_address" by (simp add: sample_contracts_def)
  ultimately show ?thesis
    using attestation_preflight_sound [OF sample_attestation_run [OF sample_hash_not_zero sample_hash_not_zero]] by auto
qed

definition upper_hash :: string where
  "upper_hash = ''0x'' @ replicate 64 CHR ''A''"

theorem upper_case_never_supersedes_witness:
  "toLowerCase upper_hash = sample_hash \<and>
   fst (preflightToriumAttestation attestation_env sample_contracts (Some reward_override) wallet_address
     (sample_payload upper_hash) (Some sample_hash) sample_options sample_world) = Inr (sample_attestation_preflight upper_hash) \<and>
   \<not> ap_canAttest (sample_attestation_preflight upper_hash)"
proof -
  have l: "toLowerCase upper_hash = sample_hash" by (simp add: upper_hash_def sample_hash_def toLowerCase_def live_chars)
  have n: "upper_hash \<noteq> zeroHash" "toLowerCase upper_hash \<noteq> upper_hash"
    unfolding l by (simp_all add: upper_hash_def zeroHash_def sample_hash_def numeral_eq_Suc)
  note r = sample_attestation_run [OF sample_hash_not_zero n(1)]
  have "toLowerCase (pl_schemaId (sample_payload upper_hash)) \<noteq> pl_schemaId (sample_payload upper_hash)"
    using n(2) by (simp add: sample_payload_def)
  with upper_case_never_supersedes [OF r sample_hash_not_zero] l r show ?thesis by blast
qed

end
