(* ===== verification/Reward_Tree.thy ===== *)
theory Reward_Tree
  imports Rewards Torium_Json "HOL-Library.Multiset"
begin

text \<open>
  The tree of \<^verbatim>\<open>contracts/scripts/generate-reward-fixture.mjs\<close>: normalised claims, the complete Merkle-sum tree over
  their leaves, the proofs read off it, and the agreement with the proofs that the SDK accepts.

  The array of \<open>2 n - 1\<close> nodes is a list of optional nodes, empty where the code has not written yet.
\<close>

section \<open>Nodes\<close>

record tree_node =
  tn_hash :: string
  tn_sum :: int

record reward_claim =
  rc_index :: int
  rc_account :: string
  rc_amount :: int

definition UINT256_MAX :: int where
  "UINT256_MAX = push_bit 256 1 - 1"

definition leafHash :: "contract_viem \<Rightarrow> int \<Rightarrow> reward_claim \<Rightarrow> js_exn + string" where
  "leafHash K epochId claim =
     bindR (cv_encodeAbi K leafTypes
       [JBigInt epochId, JBigInt (rc_index claim), JStr (rc_account claim), JBigInt (rc_amount claim)]) (\<lambda>bytes.
     Inr (cv_keccak256 K bytes))"

text \<open>\<open>Buffer.from\<close> reads pairs of hexadecimal digits and stops at the first that is none.\<close>

fun hexPairs :: "string \<Rightarrow> nat list" where
  "hexPairs (a # b # s) = (if is_hex a \<and> is_hex b then (16 * hex_val a + hex_val b) # hexPairs s else [])"
| "hexPairs _ = []"

definition hexBytes :: "string \<Rightarrow> nat list" where
  "hexBytes v = hexPairs (drop 2 v)"

definition compareHash :: "string \<Rightarrow> string \<Rightarrow> int" where
  "compareHash left right =
     (if hexBytes left < hexBytes right then -1 else if hexBytes left = hexBytes right then 0 else 1)"

definition checkedAdd :: "int \<Rightarrow> int \<Rightarrow> string \<Rightarrow> js_exn + int" where
  "checkedAdd left right label =
     (if left + right > UINT256_MAX then Inl (PlainError (label @ '' exceeds uint256'')) else Inr (left + right))"

definition combine :: "contract_viem \<Rightarrow> tree_node \<Rightarrow> tree_node \<Rightarrow> js_exn + tree_node" where
  "combine K first second =
     (let order = compareHash (tn_hash first) (tn_hash second) in
      bindR (throwIf (order = 0 \<and> tn_sum first \<noteq> tn_sum second)
        (PlainError ''ambiguous equal node hashes carry different sums'')) (\<lambda>_.
      let (left, right) = (if order \<le> 0 then (first, second) else (second, first)) in
      bindR (checkedAdd (tn_sum left) (tn_sum right) ''Merkle parent sum'') (\<lambda>sum.
      bindR (cv_encodeAbi K nodeTypes
        [JStr (tn_hash left), JBigInt (tn_sum left), JStr (tn_hash right), JBigInt (tn_sum right)]) (\<lambda>bytes.
      Inr \<lparr>tn_hash = cv_keccak256 K bytes, tn_sum = sum\<rparr>))))"

section \<open>The tree\<close>

type_synonym tree_leaf = "reward_claim \<times> tree_node"
type_synonym tree_array = "tree_node option list"

definition sortLeaves :: "tree_leaf list \<Rightarrow> tree_leaf list" where
  "sortLeaves leaves = sort_key (\<lambda>l. hexBytes (tn_hash (snd l))) leaves"

fun adjacentEqual :: "string list \<Rightarrow> bool" where
  "adjacentEqual (a # b # s) \<longleftrightarrow> a = b \<or> adjacentEqual (b # s)"
| "adjacentEqual _ \<longleftrightarrow> False"

definition placeLeaf :: "tree_array \<times> (string \<times> nat) list \<Rightarrow> nat \<times> tree_leaf \<Rightarrow> tree_array \<times> (string \<times> nat) list" where
  "placeLeaf state entry =
     (case (state, entry) of ((tree, indexes), (position, (claim, node))) \<Rightarrow>
        let treeIndex = length tree - 1 - position
        in (tree[treeIndex := Some node], (show_int (rc_index claim), treeIndex) # indexes))"

definition nodeAt :: "tree_array \<Rightarrow> nat \<Rightarrow> js_exn + tree_node" where
  "nodeAt tree i =
     (if i < length tree then
        (case tree ! i of None \<Rightarrow> Inl (TypeError ''Cannot read properties of undefined'') | Some n \<Rightarrow> Inr n)
      else Inl (TypeError ''Cannot read properties of undefined''))"

fun fillParents :: "contract_viem \<Rightarrow> nat \<Rightarrow> tree_array \<Rightarrow> js_exn + tree_array" where
  "fillParents K 0 tree = Inr tree"
| "fillParents K (Suc index) tree =
     bindR (nodeAt tree (2 * index + 1)) (\<lambda>first.
     bindR (nodeAt tree (2 * index + 2)) (\<lambda>second.
     bindR (combine K first second) (\<lambda>node.
     fillParents K index (tree[index := Some node]))))"

function pathFrom :: "tree_array \<Rightarrow> nat \<Rightarrow> js_exn + tree_node list" where
  "pathFrom tree index =
     (if index = 0 then Inr []
      else bindR (nodeAt tree (if index mod 2 = 0 then index - 1 else index + 1)) (\<lambda>sibling.
           bindR (pathFrom tree ((index - 1) div 2)) (\<lambda>rest. Inr (sibling # rest))))"
  by auto
termination
  by (relation "measure snd") auto

declare pathFrom.simps [simp del]

record merkle_tree =
  mt_root :: tree_node
  mt_proofs :: "(string \<times> tree_node list) list"

definition proofOf :: "tree_array \<Rightarrow> (string \<times> nat) list \<Rightarrow> tree_leaf \<Rightarrow> js_exn + string \<times> tree_node list" where
  "proofOf tree indexes leaf =
     (let key = show_int (rc_index (fst leaf)) in
      case map_of indexes key of
        None \<Rightarrow> Inr (key, [])
      | Some index \<Rightarrow> bindR (pathFrom tree index) (\<lambda>path. Inr (key, path)))"

definition buildMerkleSumTree :: "contract_viem \<Rightarrow> tree_leaf list \<Rightarrow> js_exn + merkle_tree" where
  "buildMerkleSumTree K leaves =
     (let sorted = sortLeaves leaves; n = length sorted in
      bindR (throwIf (adjacentEqual (map (tn_hash o snd) sorted))
        (PlainError ''distinct claims produced an ambiguous duplicate leaf hash'')) (\<lambda>_.
      bindR (throwIf (n = 0) (RangeError ''Invalid array length'')) (\<lambda>_.
      let (tree, indexes) = foldl placeLeaf (replicate (2 * n - 1) None, []) (enumerate 0 sorted) in
      bindR (fillParents K (n - 1) tree) (\<lambda>tree.
      bindR (mapR (proofOf tree indexes) leaves) (\<lambda>proofs.
      bindR (nodeAt tree 0) (\<lambda>root.
      Inr \<lparr>mt_root = root, mt_proofs = rev proofs\<rparr>))))))"

section \<open>The fixture\<close>

record fixture_claim =
  fc_claim :: reward_claim
  fc_leafHash :: string
  fc_leafSum :: int
  fc_proof :: "tree_node list"

record fixture =
  fx_epochId :: int
  fx_merkleRoot :: string
  fx_rootSum :: int
  fx_claimCount :: nat
  fx_claims :: "fixture_claim list"

definition fixtureLeaf :: "contract_viem \<Rightarrow> int \<Rightarrow> reward_claim \<Rightarrow> js_exn + tree_leaf" where
  "fixtureLeaf K epochId claim =
     bindR (leafHash K epochId claim) (\<lambda>h. Inr (claim, \<lparr>tn_hash = h, tn_sum = rc_amount claim\<rparr>))"

definition fixtureClaim :: "(string \<times> tree_node list) list \<Rightarrow> tree_leaf \<Rightarrow> js_exn + fixture_claim" where
  "fixtureClaim proofs leaf =
     (case map_of proofs (show_int (rc_index (fst leaf))) of
        None \<Rightarrow> Inl (TypeError ''Cannot read properties of undefined'')
      | Some path \<Rightarrow> Inr \<lparr>fc_claim = fst leaf, fc_leafHash = tn_hash (snd leaf), fc_leafSum = tn_sum (snd leaf),
                         fc_proof = path\<rparr>)"

definition buildFixture :: "contract_viem \<Rightarrow> int \<Rightarrow> reward_claim list \<Rightarrow> js_exn + fixture" where
  "buildFixture K epochId claims =
     bindR (mapR (fixtureLeaf K epochId) claims) (\<lambda>leaves.
     bindR (buildMerkleSumTree K leaves) (\<lambda>tree.
     bindR (mapR (fixtureClaim (mt_proofs tree)) leaves) (\<lambda>entries.
     Inr \<lparr>fx_epochId = epochId, fx_merkleRoot = tn_hash (mt_root tree), fx_rootSum = tn_sum (mt_root tree),
          fx_claimCount = length claims, fx_claims = entries\<rparr>)))"


section \<open>Sums in a complete tree\<close>

text \<open>What a Merkle-sum hasher promises of sums, and what follows for a complete array of its nodes.\<close>

locale sum_combiner =
  fixes comb :: "'n \<Rightarrow> 'n \<Rightarrow> js_exn + 'n" and weight :: "'n \<Rightarrow> int"
  assumes comb_weight: "comb a b = Inr c \<Longrightarrow> weight c = weight a + weight b"
begin

definition heap :: "(nat \<Rightarrow> 'n) \<Rightarrow> nat \<Rightarrow> bool" where
  "heap t m \<longleftrightarrow> (\<forall>i < m. comb (t (2 * i + 1)) (t (2 * i + 2)) = Inr (t i))"

lemma heap_root: "heap t m \<Longrightarrow> weight (t 0) = (\<Sum>i = m..2 * m. weight (t i))"
proof (induction m)
  case (Suc m)
  then have IH: "weight (t 0) = (\<Sum>i = m..2 * m. weight (t i))" by (simp add: heap_def)
  have w: "weight (t m) = weight (t (2 * m + 1)) + weight (t (2 * m + 2))"
    using Suc.prems comb_weight by (simp add: heap_def)
  have "(\<Sum>i = Suc m..2 * Suc m. weight (t i)) =
      (\<Sum>i = Suc m..2 * m. weight (t i)) + weight (t (2 * m + 1)) + weight (t (2 * m + 2))"
    by simp
  also have "\<dots> = (\<Sum>i = m..2 * m. weight (t i))"
    using w by (simp add: sum.atLeast_Suc_atMost [of m "2 * m"])
  finally show ?case using IH by simp
qed simp

end

lemma checkedAdd_Inr [simp]: "checkedAdd a b label = Inr c \<longleftrightarrow> c = a + b \<and> a + b \<le> UINT256_MAX"
  by (auto simp: checkedAdd_def)

lemma combine_Inr:
  "combine K a b = Inr c \<longleftrightarrow>
   (compareHash (tn_hash a) (tn_hash b) = 0 \<longrightarrow> tn_sum a = tn_sum b) \<and> tn_sum a + tn_sum b \<le> UINT256_MAX \<and>
   (\<exists>bytes. (if compareHash (tn_hash a) (tn_hash b) \<le> 0
       then cv_encodeAbi K nodeTypes [JStr (tn_hash a), JBigInt (tn_sum a), JStr (tn_hash b), JBigInt (tn_sum b)]
       else cv_encodeAbi K nodeTypes [JStr (tn_hash b), JBigInt (tn_sum b), JStr (tn_hash a), JBigInt (tn_sum a)]) = Inr bytes \<and>
     c = \<lparr>tn_hash = cv_keccak256 K bytes, tn_sum = tn_sum a + tn_sum b\<rparr>)"
  by (auto simp: combine_def Let_def throwIf_def bindR_Inr_iff add.commute split: if_splits)

interpretation generated: sum_combiner "combine K" tn_sum for K
  by unfold_locales (auto simp: combine_Inr)

interpretation rebuilt: sum_combiner "hashToriumRewardNode K" pn_sum for K
  by unfold_locales (rule hashToriumRewardNode_sum)

section \<open>The orders of hashes agree\<close>

definition lower_hash :: "string \<Rightarrow> bool" where
  "lower_hash s \<longleftrightarrow> length s = 66 \<and> take 2 s = ''0x'' \<and> list_all is_hex_lower (drop 2 s)"

lemma hex_val_mono:
  assumes "is_hex_lower c" "is_hex_lower d"
  shows "hex_val c < hex_val d \<longleftrightarrow> c < d" "hex_val c = hex_val d \<longleftrightarrow> c = d"
  using assms hex_char_hex_val [of c] hex_char_hex_val [of d]
  by (auto simp: hex_val_def char_class_defs less_char_def)

lemma hexPairs_order:
  "list_all is_hex_lower s \<Longrightarrow> list_all is_hex_lower t \<Longrightarrow> length s = length t \<Longrightarrow> even (length s) \<Longrightarrow>
   (hexPairs s < hexPairs t \<longleftrightarrow> s < t) \<and> (hexPairs s = hexPairs t \<longleftrightarrow> s = t)"
proof (induction s arbitrary: t rule: hexPairs.induct)
  case (1 a b s)
  then obtain c d t' where t: "t = c # d # t'" by (cases t; cases "tl t") auto
  note h = 1(2-5) [unfolded t]
  have l: "is_hex_lower x \<Longrightarrow> is_hex x" for x by (simp add: is_hex_def)
  have v: "is_hex_lower x \<Longrightarrow> hex_val x < 16" for x using l hex_val_lt by blast
  have e: "16 * p + q < 16 * r + u \<longleftrightarrow> p < r \<or> p = r \<and> q < u" "16 * p + q = 16 * r + u \<longleftrightarrow> p = r \<and> q = u"
    if "q < 16" "u < 16" for p q r u :: nat
    using that by (cases p r rule: linorder_cases; simp)+
  have IH: "(hexPairs s < hexPairs t' \<longleftrightarrow> s < t') \<and> (hexPairs s = hexPairs t' \<longleftrightarrow> s = t')"
    using 1(1) [of t'] h l by auto
  have k: "is_hex_lower a" "is_hex_lower b" "is_hex_lower c" "is_hex_lower d" using h by simp_all
  show ?case
    using IH unfolding t
    by (simp add: k l e v hex_val_mono [OF k(1,3)] hex_val_mono [OF k(2,4)]) blast
qed auto

lemma compareHash_lower:
  assumes "lower_hash s" "lower_hash t"
  shows "compareHash s t \<le> 0 \<longleftrightarrow> s \<le> t" "compareHash s t = 0 \<longleftrightarrow> s = t"
proof -
  have p: "s = ''0x'' @ drop 2 s" "t = ''0x'' @ drop 2 t"
    using assms append_take_drop_id [of 2 s] append_take_drop_id [of 2 t] by (simp_all add: lower_hash_def)
  have "(hexPairs (drop 2 s) < hexPairs (drop 2 t) \<longleftrightarrow> drop 2 s < drop 2 t) \<and>
        (hexPairs (drop 2 s) = hexPairs (drop 2 t) \<longleftrightarrow> drop 2 s = drop 2 t)"
    using assms by (intro hexPairs_order) (auto simp: lower_hash_def)
  moreover have "s < t \<longleftrightarrow> drop 2 s < drop 2 t" "s = t \<longleftrightarrow> drop 2 s = drop 2 t"
    by (subst p(1), subst p(2), simp)+
  ultimately show "compareHash s t \<le> 0 \<longleftrightarrow> s \<le> t" "compareHash s t = 0 \<longleftrightarrow> s = t"
    by (auto simp: compareHash_def hexBytes_def le_less)
qed

lemma lower_hash_toLowerCase: "lower_hash s \<Longrightarrow> toLowerCase s = s"
proof -
  assume s: "lower_hash s"
  have "s = ''0x'' @ drop 2 s" using s append_take_drop_id [of 2 s] by (simp add: lower_hash_def)
  then have "toLowerCase s = toLowerCase ''0x'' @ toLowerCase (drop 2 s)" by (metis toLowerCase_append)
  also have "\<dots> = ''0x'' @ drop 2 s" unfolding toLowerCase_0x using s by (simp add: toLowerCase_id lower_hash_def)
  finally show ?thesis using \<open>s = ''0x'' @ drop 2 s\<close> by simp
qed

definition toProofNode :: "tree_node \<Rightarrow> proof_node" where
  "toProofNode n = \<lparr>pn_nodeHash = tn_hash n, pn_sum = tn_sum n\<rparr>"

definition good_node :: "tree_node \<Rightarrow> bool" where
  "good_node n \<longleftrightarrow> lower_hash (tn_hash n) \<and> 0 < tn_sum n"

lemma combine_agrees:
  assumes "combine K a b = Inr c" "good_node a" "good_node b"
  shows "hashToriumRewardNode K (toProofNode a) (toProofNode b) = Inr (toProofNode c)"
    "hashToriumRewardNode K (toProofNode b) (toProofNode a) = Inr (toProofNode c)"
proof -
  have h: "lower_hash (tn_hash a)" "lower_hash (tn_hash b)" and s: "0 < tn_sum a" "0 < tn_sum b"
    using assms(2,3) by (simp_all add: good_node_def)
  have u: "uint256 (tn_sum a)" "uint256 (tn_sum b)" "uint256 (tn_sum a + tn_sum b)" "uint256 (tn_sum b + tn_sum a)"
    using assms(1) s by (auto simp: combine_Inr uint256_def UINT256_MAX_def toriumMaxUint256_def)
  note lower = lower_hash_toLowerCase [OF h(1)] lower_hash_toLowerCase [OF h(2)]
  show "hashToriumRewardNode K (toProofNode a) (toProofNode b) = Inr (toProofNode c)"
    using assms(1) u lower
    by (auto simp: combine_Inr compareHash_lower [OF h] hashToriumRewardNode_def toProofNode_def split: if_splits)
  show "hashToriumRewardNode K (toProofNode b) (toProofNode a) = Inr (toProofNode c)"
    using assms(1) u lower
    by (auto simp: combine_Inr compareHash_lower [OF h] hashToriumRewardNode_def toProofNode_def add.commute split: if_splits)
qed


section \<open>Filling the array\<close>

lemma nodeAt_Inr [simp]: "nodeAt tree i = Inr n \<longleftrightarrow> i < length tree \<and> tree ! i = Some n"
  by (auto simp: nodeAt_def split: option.splits)

lemma fillParents_keeps:
  "fillParents K m tree = Inr tree' \<Longrightarrow> length tree' = length tree \<and> (\<forall>i \<ge> m. tree' ! i = tree ! i)"
proof (induction K m tree arbitrary: tree' rule: fillParents.induct)
  case (2 K index tree)
  then obtain node where "fillParents K index (tree[index := Some node]) = Inr tree'"
    and IH: "length tree' = length (tree[index := Some node]) \<and> (\<forall>i \<ge> index. tree' ! i = tree[index := Some node] ! i)"
    by (auto elim!: bindR_InrE simp del: nodeAt_Inr)
  then show ?case by auto
qed simp

lemma fillParents_parent:
  assumes "fillParents K m tree = Inr tree'" "i < m" "m \<le> length tree"
  shows "\<exists>a b c. 2 * i + 2 < length tree' \<and> tree' ! (2 * i + 1) = Some a \<and> tree' ! (2 * i + 2) = Some b \<and>
           tree' ! i = Some c \<and> combine K a b = Inr c"
  using assms
proof (induction K m tree arbitrary: tree' rule: fillParents.induct)
  case (2 K index tree)
  from 2(2) obtain a b node where a: "nodeAt tree (2 * index + 1) = Inr a" and b: "nodeAt tree (2 * index + 2) = Inr b"
    and c: "combine K a b = Inr node" and rest: "fillParents K index (tree[index := Some node]) = Inr tree'"
    by (auto elim!: bindR_InrE simp del: nodeAt_Inr)
  note k = fillParents_keeps [OF rest]
  show ?case
  proof (cases "i = index")
    case True
    with a b c k 2(4) show ?thesis by auto
  next
    case False
    with 2(1) [OF a b c rest] 2(3,4) show ?thesis by auto
  qed
qed simp

text \<open>An array whose inner nodes combine their children and whose leaves are good.\<close>

definition full_tree :: "contract_viem \<Rightarrow> nat \<Rightarrow> tree_array \<Rightarrow> (nat \<Rightarrow> tree_node) \<Rightarrow> bool" where
  "full_tree K n tree t \<longleftrightarrow>
     0 < n \<and> length tree = 2 * n - 1 \<and> (\<forall>i < 2 * n - 1. tree ! i = Some (t i)) \<and>
     (\<forall>i < n - 1. combine K (t (2 * i + 1)) (t (2 * i + 2)) = Inr (t i)) \<and> (\<forall>i < 2 * n - 1. good_node (t i))"

lemma combine_good:
  "combine K a b = Inr c \<Longrightarrow> good_node a \<Longrightarrow> good_node b \<Longrightarrow> (\<And>x. lower_hash (cv_keccak256 K x)) \<Longrightarrow> good_node c"
  by (auto simp: combine_Inr good_node_def)

lemma fillParents_full:
  assumes fill: "fillParents K (n - 1) tree = Inr tree'" and n: "0 < n" "length tree = 2 * n - 1"
    and leaves: "\<And>i. n - 1 \<le> i \<Longrightarrow> i < 2 * n - 1 \<Longrightarrow> \<exists>x. tree ! i = Some x \<and> good_node x"
    and hash: "\<And>x. lower_hash (cv_keccak256 K x)"
  shows "full_tree K n tree' (\<lambda>i. the (tree' ! i))"
proof -
  note keep = fillParents_keeps [OF fill]
  have par: "\<exists>a b c. tree' ! (2 * i + 1) = Some a \<and> tree' ! (2 * i + 2) = Some b \<and> tree' ! i = Some c \<and> combine K a b = Inr c"
    if "i < n - 1" for i using fillParents_parent [OF fill that] n by fastforce
  have good: "\<exists>x. tree' ! i = Some x \<and> good_node x" if "i < 2 * n - 1" for i
    using that
  proof (induction "2 * n - 1 - i" arbitrary: i rule: less_induct)
    case less
    show ?case
    proof (cases "i < n - 1")
      case True
      then obtain a b c where abc: "tree' ! (2 * i + 1) = Some a" "tree' ! (2 * i + 2) = Some b" "tree' ! i = Some c"
        "combine K a b = Inr c" using par by blast
      have "good_node a" "good_node b" using less(1) [of "2 * i + 1"] less(1) [of "2 * i + 2"] True abc by auto
      with abc combine_good hash show ?thesis by blast
    next
      case False
      with keep leaves [of i] less(2) show ?thesis by simp
    qed
  qed
  show ?thesis
    unfolding full_tree_def
  proof (intro conjI allI impI)
    show "0 < n" "length tree' = 2 * n - 1" using n keep by simp_all
  next
    fix i assume "i < 2 * n - 1" then show "tree' ! i = Some (the (tree' ! i))" "good_node (the (tree' ! i))"
      using good by fastforce+
  next
    fix i assume "i < n - 1"
    then show "combine K (the (tree' ! (2 * i + 1))) (the (tree' ! (2 * i + 2))) = Inr (the (tree' ! i))"
      using par by fastforce
  qed
qed

lemma full_tree_root_sum:
  assumes "full_tree K n tree t"
  shows "tn_sum (t 0) = (\<Sum>i = n - 1..<2 * n - 1. tn_sum (t i))"
proof -
  have "{n - 1..2 * (n - 1)} = {n - 1..<2 * n - 1}" using assms by (auto simp: full_tree_def)
  moreover have "tn_sum (t 0) = (\<Sum>i = n - 1..2 * (n - 1). tn_sum (t i))"
    using assms by (intro generated.heap_root [of K]) (simp add: generated.heap_def full_tree_def)
  ultimately show ?thesis by simp
qed

section \<open>Paths to the root\<close>

lemma path_verifies:
  assumes full: "full_tree K n tree t"
  shows "k < 2 * n - 1 \<Longrightarrow> pathFrom tree k = Inr path \<Longrightarrow> (\<forall>x \<in> set path. tn_hash x \<noteq> zeroHash) \<Longrightarrow>
    foldR (processSibling K) (toProofNode (t k)) (enumerate j (map toProofNode path)) = Inr (toProofNode (t 0))"
proof (induction k arbitrary: path j rule: less_induct)
  case (less k)
  show ?case
  proof (cases "k = 0")
    case True with less(3) show ?thesis by (simp add: pathFrom.simps [of tree])
  next
    case False
    define p where "p = (k - 1) div 2"
    define s where "s = (if k mod 2 = 0 then k - 1 else k + 1)"
    have pk: "p < k" "p < n - 1" "p < 2 * n - 1" and s: "s < 2 * n - 1" and
      kids: "k = 2 * p + 2 \<and> s = 2 * p + 1 \<or> k = 2 * p + 1 \<and> s = 2 * p + 2"
      using False less(2) unfolding p_def s_def by (presburger+)
    from less(3) False obtain rest where path: "path = t s # rest" and rest: "pathFrom tree p = Inr rest"
      using full s by (subst (asm) pathFrom.simps) (auto simp: full_tree_def p_def s_def split: if_splits)
    have c: "combine K (t (2 * p + 1)) (t (2 * p + 2)) = Inr (t p)" and g: "good_node (t k)" "good_node (t s)"
      using full pk s less(2) by (simp_all add: full_tree_def)
    have "hashToriumRewardNode K (toProofNode (t k)) (toProofNode (t s)) = Inr (toProofNode (t p))"
      using kids c g combine_agrees by metis
    then have "processSibling K (toProofNode (t k)) (j, toProofNode (t s)) = Inr (toProofNode (t p))"
      using g less(4) by (simp add: processSibling_def toProofNode_def path good_node_def)
    with less(1) [OF pk(1,3) rest] less(4) show ?thesis by (simp add: path)
  qed
qed

lemma path_good:
  assumes full: "full_tree K n tree t"
  shows "k < 2 * n - 1 \<Longrightarrow> pathFrom tree k = Inr path \<Longrightarrow> list_all good_node path"
proof (induction k arbitrary: path rule: less_induct)
  case (less k)
  show ?case
  proof (cases "k = 0")
    case True with less(3) show ?thesis by (simp add: pathFrom.simps [of tree])
  next
    case False
    define s where "s = (if k mod 2 = 0 then k - 1 else k + 1)"
    have p: "(k - 1) div 2 < k" "(k - 1) div 2 < 2 * n - 1" and s: "s < 2 * n - 1"
      using False less(2) unfolding s_def by presburger+
    from less(3) False obtain rest where "path = t s # rest" and "pathFrom tree ((k - 1) div 2) = Inr rest"
      using full s by (subst (asm) pathFrom.simps) (auto simp: full_tree_def s_def split: if_splits)
    moreover have "good_node (t s)" using full s by (simp add: full_tree_def)
    ultimately show ?thesis using less(1) [OF p] by simp
  qed
qed

section \<open>Placing the leaves\<close>

lemma foldl_placeLeaf_indexes:
  "p + length xs \<le> length tree \<Longrightarrow>
   snd (foldl placeLeaf (tree, I) (enumerate p xs)) =
     rev (map (\<lambda>(j, l). (show_int (rc_index (fst l)), length tree - 1 - j)) (enumerate p xs)) @ I"
proof (induction xs arbitrary: p tree I)
  case (Cons x xs)
  then show ?case by (simp add: placeLeaf_def Let_def split: prod.splits)
qed simp

lemma foldl_placeLeaf_tree:
  "p + length xs \<le> length tree \<Longrightarrow>
   length (fst (foldl placeLeaf (tree, I) (enumerate p xs))) = length tree \<and>
   (\<forall>j < length xs. fst (foldl placeLeaf (tree, I) (enumerate p xs)) ! (length tree - 1 - (p + j)) = Some (snd (xs ! j))) \<and>
   (\<forall>i < length tree. i \<ge> length tree - p \<longrightarrow> fst (foldl placeLeaf (tree, I) (enumerate p xs)) ! i = tree ! i)"
proof (induction xs arbitrary: p tree I)
  case (Cons x xs)
  define tree1 where "tree1 = tree[length tree - 1 - p := Some (snd x)]"
  define I1 where "I1 = (show_int (rc_index (fst x)), length tree - 1 - p) # I"
  have step: "foldl placeLeaf (tree, I) (enumerate p (x # xs)) = foldl placeLeaf (tree1, I1) (enumerate (Suc p) xs)"
    by (simp add: placeLeaf_def Let_def tree1_def I1_def split: prod.splits)
  have l: "length tree1 = length tree" by (simp add: tree1_def)
  have IH: "length (fst (foldl placeLeaf (tree1, I1) (enumerate (Suc p) xs))) = length tree"
    "\<And>j. j < length xs \<Longrightarrow>
       fst (foldl placeLeaf (tree1, I1) (enumerate (Suc p) xs)) ! (length tree - 1 - (Suc p + j)) = Some (snd (xs ! j))"
    "\<And>i. i < length tree \<Longrightarrow> i \<ge> length tree - Suc p \<Longrightarrow>
       fst (foldl placeLeaf (tree1, I1) (enumerate (Suc p) xs)) ! i = tree1 ! i"
    using Cons.IH [of "Suc p" tree1 I1] Cons.prems l by auto
  show ?case
    unfolding step
  proof (intro conjI allI impI)
    fix j assume j: "j < length (x # xs)"
    show "fst (foldl placeLeaf (tree1, I1) (enumerate (Suc p) xs)) ! (length tree - 1 - (p + j)) = Some (snd ((x # xs) ! j))"
    proof (cases j)
      case 0
      then show ?thesis using IH(3) [of "length tree - 1 - p"] Cons.prems by (simp add: tree1_def)
    next
      case (Suc j')
      then show ?thesis using IH(2) [of j'] j by simp
    qed
  next
    fix i assume "i < length tree" "length tree - p \<le> i"
    then show "fst (foldl placeLeaf (tree1, I1) (enumerate (Suc p) xs)) ! i = tree ! i"
      using IH(3) [of i] Cons.prems by (simp add: tree1_def)
  qed (rule IH(1))
qed simp


lemma show_int_inj: "show_int i = show_int j \<longleftrightarrow> i = j"
  by (metis read_show_int)

lemma sortLeaves_mset [simp]: "mset (sortLeaves leaves) = mset leaves"
  by (simp add: sortLeaves_def)

lemma sortLeaves_length [simp]: "length (sortLeaves leaves) = length leaves" "set (sortLeaves leaves) = set leaves"
  by (simp_all add: sortLeaves_def)

text \<open>What \<open>buildMerkleSumTree\<close> computed when it returned: the filled array, its index and its proofs.\<close>

lemma buildMerkleSumTree_Inr:
  assumes "buildMerkleSumTree K leaves = Inr mt"
  obtains tree where
    "0 < length leaves"
    "fillParents K (length leaves - 1)
       (fst (foldl placeLeaf (replicate (2 * length leaves - 1) None, []) (enumerate 0 (sortLeaves leaves)))) = Inr tree"
    "mapR (proofOf tree (snd (foldl placeLeaf (replicate (2 * length leaves - 1) None, []) (enumerate 0 (sortLeaves leaves)))))
       leaves = Inr (rev (mt_proofs mt))"
    "nodeAt tree 0 = Inr (mt_root mt)"
  using assms unfolding buildMerkleSumTree_def Let_def
  by (auto simp: throwIf_def bindR_Inr_iff split: if_splits prod.splits simp del: nodeAt_Inr)

lemma sum_from_end: "(\<Sum>i = n - 1..<2 * n - 1. f i) = (\<Sum>j < n. f (2 * n - 2 - j))" for f :: "nat \<Rightarrow> int"
  by (rule sum.reindex_bij_witness [of _ "\<lambda>j. 2 * n - 2 - j" "\<lambda>i. 2 * n - 2 - i"]) (auto intro!: arg_cong [of _ _ f])

lemma sum_nth_mset:
  fixes f :: "'a \<Rightarrow> int"
  assumes "mset xs = mset ys"
  shows "(\<Sum>j < length xs. f (xs ! j)) = sum_list (map f ys)"
proof -
  have "(\<Sum>j < length xs. f (xs ! j)) = sum_list (map f xs)"
    by (simp add: sum_list_sum_nth atLeast0LessThan)
  also have "\<dots> = sum_list (map f ys)" by (metis assms mset_map sum_mset_sum_list)
  finally show ?thesis .
qed

lemma tree_of_leaves:
  assumes fill: "fillParents K (n - 1) (fst placed) = Inr tree"
    and placed: "placed = foldl placeLeaf (replicate (2 * n - 1) None, []) (enumerate 0 ls)"
    and n: "n = length ls" "0 < n" and good: "\<And>l. l \<in> set ls \<Longrightarrow> good_node (snd l)"
    and hash: "\<And>x. lower_hash (cv_keccak256 K x)"
  shows "full_tree K n tree (\<lambda>i. the (tree ! i))" "\<And>j. j < n \<Longrightarrow> the (tree ! (2 * n - 2 - j)) = snd (ls ! j)"
proof -
  have le: "0 + length ls \<le> length (replicate (2 * n - 1) (None :: tree_node option))" using n by simp
  have len: "length (fst placed) = 2 * n - 1"
    using foldl_placeLeaf_tree [OF le, of "[]"] by (simp add: placed)
  have at: "fst placed ! (2 * n - 2 - j) = Some (snd (ls ! j))" if "j < n" for j
    using foldl_placeLeaf_tree [OF le, of "[]"] that n by (simp add: placed numeral_2_eq_2)
  have leaf: "\<exists>x. fst placed ! i = Some x \<and> good_node x" if "n - 1 \<le> i" "i < 2 * n - 1" for i
  proof -
    have j: "2 * n - 2 - i < n" "2 * n - 2 - (2 * n - 2 - i) = i" using that n by auto
    have "ls ! (2 * n - 2 - i) \<in> set ls" using j(1) n by (intro nth_mem) simp
    then show ?thesis using at [OF j(1)] good j(2) by auto
  qed
  show "full_tree K n tree (\<lambda>i. the (tree ! i))" by (rule fillParents_full [OF fill n(2) len leaf hash])
  show "the (tree ! (2 * n - 2 - j)) = snd (ls ! j)" if "j < n" for j
  proof -
    have "n - 1 \<le> 2 * n - 2 - j" using that by simp
    then have "tree ! (2 * n - 2 - j) = fst placed ! (2 * n - 2 - j)" using fillParents_keeps [OF fill] by blast
    with at [OF that] show ?thesis by simp
  qed
qed

lemma placed_index:
  assumes placed: "placed = foldl placeLeaf (replicate (2 * n - 1) None, []) (enumerate 0 ls)"
    and n: "n = length ls" "0 < n" and keys: "distinct (map (rc_index o fst) ls)" and j: "j < n" "ls ! j = l"
  shows "map_of (snd placed) (show_int (rc_index (fst l))) = Some (2 * n - 2 - j)"
proof -
  let ?e = "\<lambda>(j, l). (show_int (rc_index (fst l)), 2 * n - 1 - 1 - j)"
  have s: "snd placed = rev (map ?e (enumerate 0 ls))"
    using foldl_placeLeaf_indexes [of 0 ls "replicate (2 * n - 1) None" "[]"] n by (simp add: placed)
  have f: "map fst (map ?e (enumerate 0 ls)) = map (show_int o (rc_index o fst)) ls"
    by (intro nth_equalityI) (simp_all add: nth_enumerate_eq)
  have "distinct (map fst (snd placed))"
    unfolding s rev_map [symmetric] distinct_rev f using keys by (simp add: distinct_map inj_on_def show_int_inj)
  moreover have "(j, l) \<in> set (enumerate 0 ls)" using j n by (simp add: in_set_enumerate_eq)
  then have "(show_int (rc_index (fst l)), 2 * n - 2 - j) \<in> set (snd placed)" unfolding s by force
  ultimately show ?thesis by (rule map_of_is_SomeI)
qed

lemma proofs_lookup:
  assumes proofs: "mapR (proofOf tree indexes) leaves = Inr (rev proofs)" and keys: "distinct (map (rc_index o fst) leaves)"
    and l: "l \<in> set leaves" and idx: "map_of indexes (show_int (rc_index (fst l))) = Some index"
  shows "\<exists>path. proofOf tree indexes l = Inr (show_int (rc_index (fst l)), path) \<and> pathFrom tree index = Inr path \<and>
           map_of proofs (show_int (rc_index (fst l))) = Some path"
proof -
  have all: "list_all2 (\<lambda>l e. proofOf tree indexes l = Inr e) leaves (rev proofs)" using proofs by (simp add: mapR_Inr_iff)
  obtain i where i: "i < length leaves" "leaves ! i = l" using l by (auto simp: in_set_conv_nth)
  define e where "e = rev proofs ! i"
  have e: "e \<in> set proofs" "proofOf tree indexes l = Inr e"
    using list_all2_nthD [OF all i(1)] list_all2_lengthD [OF all] i nth_mem [of i "rev proofs"]
    by (simp_all add: e_def)
  with idx obtain path where path: "e = (show_int (rc_index (fst l)), path)" "pathFrom tree index = Inr path"
    by (auto simp: proofOf_def Let_def)
  have k: "fst x = show_int (rc_index (fst m))" if "proofOf tree indexes m = Inr x" for m x
    using that by (auto simp: proofOf_def Let_def split: option.splits)
  have "map fst (rev proofs) = map (show_int o (rc_index o fst)) leaves"
    using list_all2_lengthD [OF all] by (intro nth_equalityI) (simp_all add: k [OF list_all2_nthD [OF all]])
  then have "distinct (map fst (rev proofs))" using keys by (simp add: distinct_map inj_on_def show_int_inj)
  then have "distinct (map fst proofs)" by (simp add: rev_map [symmetric])
  with e path show ?thesis by (auto intro: map_of_is_SomeI)
qed

lemma buildMerkleSumTree_sound:
  assumes build: "buildMerkleSumTree K leaves = Inr mt" and keys: "distinct (map (rc_index o fst) leaves)"
    and good: "\<And>l. l \<in> set leaves \<Longrightarrow> good_node (snd l)" and hash: "\<And>x. lower_hash (cv_keccak256 K x)"
  shows "tn_sum (mt_root mt) = sum_list (map (tn_sum o snd) leaves)"
    "\<And>l. l \<in> set leaves \<Longrightarrow> \<exists>path. map_of (mt_proofs mt) (show_int (rc_index (fst l))) = Some path \<and>
       list_all good_node path \<and> ((\<forall>x \<in> set path. tn_hash x \<noteq> zeroHash) \<longrightarrow>
        foldR (processSibling K) (toProofNode (snd l)) (enumerate 0 (map toProofNode path)) = Inr (toProofNode (mt_root mt)))"
    "good_node (mt_root mt)"
proof -
  define n where "n = length leaves"
  define ls where "ls = sortLeaves leaves"
  define placed where "placed = foldl placeLeaf (replicate (2 * n - 1) None, []) (enumerate 0 ls)"
  have n: "n = length ls" by (simp add: n_def ls_def)
  obtain tree where pos: "0 < n" and fill: "fillParents K (n - 1) (fst placed) = Inr tree"
    and proofs: "mapR (proofOf tree (snd placed)) leaves = Inr (rev (mt_proofs mt))" and root: "nodeAt tree 0 = Inr (mt_root mt)"
    using buildMerkleSumTree_Inr [OF build] unfolding n_def ls_def placed_def by blast
  have g: "good_node (snd l)" if "l \<in> set ls" for l using that good by (simp add: ls_def)
  have full: "full_tree K n tree (\<lambda>i. the (tree ! i))" by (rule tree_of_leaves(1) [OF fill placed_def n pos g hash])
  have at: "the (tree ! (2 * n - 2 - j)) = snd (ls ! j)" if "j < n" for j
    by (rule tree_of_leaves(2) [OF fill placed_def n pos g hash that])
  have r: "the (tree ! 0) = mt_root mt" using root by simp
  have "tn_sum (mt_root mt) = (\<Sum>j < n. tn_sum (the (tree ! (2 * n - 2 - j))))"
    using full_tree_root_sum [OF full] unfolding r sum_from_end .
  also have "\<dots> = (\<Sum>j < n. (tn_sum o snd) (ls ! j))" by (intro sum.cong refl) (simp only: at lessThan_iff o_apply)
  also have "\<dots> = sum_list (map (tn_sum o snd) leaves)" unfolding n by (rule sum_nth_mset) (simp add: ls_def)
  finally show "tn_sum (mt_root mt) = sum_list (map (tn_sum o snd) leaves)" .
  show "good_node (mt_root mt)" using full pos by (simp add: full_tree_def r [symmetric])
  fix l assume l: "l \<in> set leaves"
  let ?key = "show_int (rc_index (fst l))"
  obtain j where j: "j < n" "ls ! j = l" using l n by (metis in_set_conv_nth sortLeaves_length(2) ls_def)
  have idx: "map_of (snd placed) ?key = Some (2 * n - 2 - j)"
  proof (rule placed_index [OF placed_def n pos _ j])
    have "mset (map (rc_index o fst) ls) = mset (map (rc_index o fst) leaves)" by (simp add: ls_def)
    with keys show "distinct (map (rc_index o fst) ls)" by (metis mset_eq_imp_distinct_iff)
  qed
  obtain path where path: "proofOf tree (snd placed) l = Inr (?key, path)" "pathFrom tree (2 * n - 2 - j) = Inr path"
    and m: "map_of (mt_proofs mt) ?key = Some path"
    using proofs_lookup [OF proofs keys l idx] by blast
  have k: "2 * n - 2 - j < 2 * n - 1" using pos by simp
  from path_verifies [OF full k path(2), of 0]
  have "(\<forall>x \<in> set path. tn_hash x \<noteq> zeroHash) \<longrightarrow>
        foldR (processSibling K) (toProofNode (snd l)) (enumerate 0 (map toProofNode path)) = Inr (toProofNode (mt_root mt))"
    unfolding r at [OF j(1)] j(2) by blast
  with m path_good [OF full k path(2)] show "\<exists>path. map_of (mt_proofs mt) ?key = Some path \<and>
       list_all good_node path \<and> ((\<forall>x \<in> set path. tn_hash x \<noteq> zeroHash) \<longrightarrow>
        foldR (processSibling K) (toProofNode (snd l)) (enumerate 0 (map toProofNode path)) = Inr (toProofNode (mt_root mt)))"
    by blast
qed

end
