(* ===== verification/Reward_Claims.thy ===== *)
theory Reward_Claims
  imports Reward_Tree
begin

text \<open>
  The claims of \<^verbatim>\<open>contracts/scripts/generate-reward-fixture.mjs\<close>: the checks on the entries of the input, their normal
  form, and the whole fixture as the script writes it.

  An input is a list of JavaScript values, as \<open>JSON.parse\<close> or \<open>Object.fromEntries\<close> build them: an object without
  identity is a plain one.
\<close>

section \<open>Fields of a claim\<close>

definition CLAIM_KEYS :: "string list" where
  "CLAIM_KEYS = [''index'', ''account'', ''amount'']"

definition parseUint256 :: "jsval \<Rightarrow> string \<Rightarrow> bool \<Rightarrow> js_exn + int" where
  "parseUint256 v label positive =
     bindR (case v of
              JNum x \<Rightarrow>
                if \<not> num_isSafeInteger x \<or> num_lt x (Fin 0)
                then Inl (PlainError (label @ '' must be a safe nonnegative integer or canonical decimal string''))
                else Inr (show_int (num_int x))
            | JStr s \<Rightarrow>
                if rx_test canonical_decimal_rx s then Inr s
                else Inl (PlainError (label @ '' must be a canonical nonnegative decimal uint256''))
            | _ \<Rightarrow> Inl (PlainError (label @ '' must be a canonical nonnegative decimal uint256''))) (\<lambda>decimal.
     let parsed = int (read_nat decimal) in
     bindR (throwIf (parsed > UINT256_MAX) (PlainError (label @ '' exceeds uint256''))) (\<lambda>_.
     bindR (throwIf (positive \<and> parsed = 0) (PlainError (label @ '' must be positive''))) (\<lambda>_.
     Inr parsed)))"

text \<open>\<open>/^0x[0-9a-fA-F]{40}$/u\<close>\<close>

definition evm_address_rx :: rx where
  "evm_address_rx = anchored (Sq (lit ''0x'') (rtimes 40 (Cls is_hex)))"

definition zeroAddress :: string where
  "zeroAddress = ''0x'' @ replicate 40 CHR ''0''"

fun exnMessage :: "js_exn \<Rightarrow> string" where
  "exnMessage (TypeError m) = m"
| "exnMessage (RangeError m) = m"
| "exnMessage (SyntaxError m) = m"
| "exnMessage (PlainError m) = m"

definition parseAddress :: "viem \<Rightarrow> jsval \<Rightarrow> string \<Rightarrow> bool \<Rightarrow> js_exn + string" where
  "parseAddress V v label nonzero =
     (case v of
        JStr s \<Rightarrow>
          if \<not> rx_test evm_address_rx s then Inl (PlainError (label @ '' must be a valid EVM address''))
          else if \<not> isAddress V s then Inl (PlainError (label @ '' has an invalid EIP-55 checksum''))
          else
            catchR
              (bindR (getAddress V s) (\<lambda>address.
               bindR (throwIf (nonzero \<and> address = zeroAddress) (PlainError (label @ '' must not be the zero address''))) (\<lambda>_.
               Inr address)))
              (\<lambda>error.
                 if nonzero \<and> toLowerCase s = zeroAddress then Inl (PlainError (label @ '' must not be the zero address''))
                 else if exnMessage error = label @ '' must not be the zero address'' then Inl error
                 else Inl (PlainError (label @ '' has an invalid EIP-55 checksum'')))
      | _ \<Rightarrow> Inl (PlainError (label @ '' must be a valid EVM address'')))"

definition validateExactKeys :: "fields \<Rightarrow> string list \<Rightarrow> string \<Rightarrow> js_exn + unit" where
  "validateExactKeys fs allowed label =
     bindR (foldR (\<lambda>_ key. throwIf (key \<notin> set allowed) (PlainError (label @ ''.'' @ key @ '' is not allowed''))) () (map fst fs)) (\<lambda>_.
     foldR (\<lambda>_ key. throwIf (\<not> hasOwn fs key) (PlainError (label @ ''.'' @ key @ '' is required''))) () allowed)"

section \<open>Normal claims\<close>

record claim_state =
  cs_indexes :: "string list"
  cs_accounts :: "string list"
  cs_claims :: "reward_claim list"

definition normalizeClaim :: "viem \<Rightarrow> claim_state \<Rightarrow> nat \<times> jsval \<Rightarrow> js_exn + claim_state" where
  "normalizeClaim V st entry =
     (case entry of (position, claim) \<Rightarrow>
        let label = ''claim['' @ show_nat position @ '']'' in
        case claim of
          JObj fs \<Rightarrow>
            bindR (validateExactKeys fs CLAIM_KEYS label) (\<lambda>_.
            bindR (parseUint256 (fieldOf fs ''index'') (label @ ''.index'') False) (\<lambda>index.
            bindR (parseAddress V (fieldOf fs ''account'') (label @ ''.account'') True) (\<lambda>account.
            bindR (parseUint256 (fieldOf fs ''amount'') (label @ ''.amount'') True) (\<lambda>amount.
            let indexKey = show_int index; accountKey = toLowerCase account in
            bindR (throwIf (indexKey \<in> set (cs_indexes st))
              (PlainError (label @ ''.index duplicates index '' @ indexKey))) (\<lambda>_.
            bindR (throwIf (accountKey \<in> set (cs_accounts st))
              (PlainError (label @ ''.account duplicates account '' @ account))) (\<lambda>_.
            Inr \<lparr>cs_indexes = indexKey # cs_indexes st, cs_accounts = accountKey # cs_accounts st,
                 cs_claims = cs_claims st @ [\<lparr>rc_index = index, rc_account = account, rc_amount = amount\<rparr>]\<rparr>))))))
        | _ \<Rightarrow> Inl (PlainError (label @ '' must be an object'')))"

definition normalizeClaims :: "viem \<Rightarrow> jsval list \<Rightarrow> js_exn + reward_claim list" where
  "normalizeClaims V claims =
     bindR (throwIf (claims = []) (PlainError ''input must contain at least one claim'')) (\<lambda>_.
     bindR (foldR (normalizeClaim V) \<lparr>cs_indexes = [], cs_accounts = [], cs_claims = []\<rparr> (enumerate 0 claims)) (\<lambda>st.
     Inr (sort_key rc_index (cs_claims st))))"

section \<open>The written payload\<close>

definition treeFormat :: jsval where
  "treeFormat =
     JObj [(''id'', JStr ''torium-merkle-sum-v1''),
           (''leafFields'', JArr (map JStr [''epochId'', ''index'', ''account'', ''amount''])),
           (''leafTypes'', JArr (map JStr [''uint256'', ''uint256'', ''address'', ''uint256''])),
           (''leafHash'', JStr ''keccak256(abi.encode(uint256 epochId,uint256 index,address account,uint256 amount))''),
           (''leafSum'', JStr ''amount''), (''leafOrdering'', JStr ''hash-ascending''),
           (''pairOrdering'', JStr ''hash-ascending''),
           (''parentFields'', JArr (map JStr [''leftHash'', ''leftSum'', ''rightHash'', ''rightSum''])),
           (''parentTypes'', JArr (map JStr [''bytes32'', ''uint256'', ''bytes32'', ''uint256''])),
           (''parentHash'',
             JStr ''keccak256(abi.encode(bytes32 leftHash,uint256 leftSum,bytes32 rightHash,uint256 rightSum))''),
           (''parentSum'', JStr ''checked-leftSum-plus-rightSum''), (''treeLayout'', JStr ''complete-2n-minus-1'')]"

definition claimPayload :: "fixture_claim \<Rightarrow> jsval" where
  "claimPayload c =
     JObj [(''index'', JStr (show_int (rc_index (fc_claim c)))), (''account'', JStr (rc_account (fc_claim c))),
           (''amount'', JStr (show_int (rc_amount (fc_claim c)))), (''leafHash'', JStr (fc_leafHash c)),
           (''leafSum'', JStr (show_int (fc_leafSum c))),
           (''proof'', JArr (map (\<lambda>n. JObj [(''hash'', JStr (tn_hash n)), (''sum'', JStr (show_int (tn_sum n)))]) (fc_proof c)))]"

definition fixturePayload :: "fixture \<Rightarrow> jsval" where
  "fixturePayload f =
     JObj [(''schemaVersion'', JInt 1), (''generatedBy'', JStr ''contracts/scripts/generate-reward-fixture.mjs''),
           (''treeFormat'', treeFormat), (''epochId'', JStr (show_int (fx_epochId f))),
           (''merkleRoot'', JStr (fx_merkleRoot f)), (''rootSum'', JStr (show_int (fx_rootSum f))),
           (''claimCount'', JInt (int (fx_claimCount f))), (''claims'', JArr (map claimPayload (fx_claims f)))]"


section \<open>What a normal list of claims satisfies\<close>

definition valid_claim :: "viem \<Rightarrow> reward_claim \<Rightarrow> bool" where
  "valid_claim V c \<longleftrightarrow>
     uint256 (rc_index c) \<and> uint256 (rc_amount c) \<and> 0 < rc_amount c \<and>
     isAddress V (rc_account c) \<and> getAddress V (rc_account c) = Inr (rc_account c) \<and> rc_account c \<noteq> zeroAddress"

lemma UINT256_MAX_eq: "UINT256_MAX = toriumMaxUint256"
  by (simp add: UINT256_MAX_def toriumMaxUint256_def)

lemma parseUint256_Inr:
  "parseUint256 v label positive = Inr n \<Longrightarrow> uint256 n \<and> (positive \<longrightarrow> 0 < n)"
  unfolding parseUint256_def Let_def
  by (auto simp: bindR_Inr_iff throwIf_def uint256_def UINT256_MAX_eq split: if_splits)

lemma parseAddress_Inr:
  assumes "viem_addresses V" "parseAddress V v label True = Inr a"
  shows "isAddress V a" "getAddress V a = Inr a" "a \<noteq> zeroAddress"
proof -
  obtain s where s: "isAddress V s" "getAddress V s = Inr a" and z: "a \<noteq> zeroAddress"
    using assms(2) by (cases v) (auto simp: parseAddress_def catchR_def throwIf_def split: if_splits sum.splits)
  have "isAddress V a \<and> getAddress V a = getAddress V s"
    using assms(1) s unfolding viem_addresses_def by (metis sum.inject(2))
  with s z show "isAddress V a" "getAddress V a = Inr a" "a \<noteq> zeroAddress" by simp_all
qed

definition claims_ok :: "viem \<Rightarrow> claim_state \<Rightarrow> bool" where
  "claims_ok V st \<longleftrightarrow>
     cs_indexes st = rev (map (show_int o rc_index) (cs_claims st)) \<and>
     cs_accounts st = rev (map (toLowerCase o rc_account) (cs_claims st)) \<and>
     distinct (map rc_index (cs_claims st)) \<and> distinct (map (toLowerCase o rc_account) (cs_claims st)) \<and>
     (\<forall>c \<in> set (cs_claims st). valid_claim V c)"

lemma normalizeClaim_ok:
  assumes V: "viem_addresses V" and ok: "claims_ok V st" and step: "normalizeClaim V st entry = Inr st'"
  shows "claims_ok V st' \<and> length (cs_claims st') = Suc (length (cs_claims st))"
proof -
  from step obtain la li lm vi va vm i a m where
    p: "parseUint256 vi li False = Inr i" "parseAddress V va la True = Inr a" "parseUint256 vm lm True = Inr m"
    and fresh: "show_int i \<notin> set (cs_indexes st)" "toLowerCase a \<notin> set (cs_accounts st)"
    and st': "st' = \<lparr>cs_indexes = show_int i # cs_indexes st, cs_accounts = toLowerCase a # cs_accounts st,
                 cs_claims = cs_claims st @ [\<lparr>rc_index = i, rc_account = a, rc_amount = m\<rparr>]\<rparr>"
    unfolding normalizeClaim_def Let_def
    by (auto simp: throwIf_def split: prod.splits jsval.splits if_splits)
  have "valid_claim V \<lparr>rc_index = i, rc_account = a, rc_amount = m\<rparr>"
    using parseUint256_Inr [OF p(1)] parseUint256_Inr [OF p(3)] parseAddress_Inr [OF V p(2)] by (simp add: valid_claim_def)
  with ok fresh show ?thesis unfolding st' claims_ok_def by (auto simp: image_iff)
qed

lemma normalizeClaims_fold:
  assumes V: "viem_addresses V"
  shows "claims_ok V st \<Longrightarrow> foldR (normalizeClaim V) st xs = Inr st' \<Longrightarrow>
    claims_ok V st' \<and> length (cs_claims st') = length (cs_claims st) + length xs"
proof (induction xs arbitrary: st)
  case (Cons x xs)
  then obtain s1 where "normalizeClaim V st x = Inr s1" "foldR (normalizeClaim V) s1 xs = Inr st'" by auto
  with Cons.IH [of s1] normalizeClaim_ok [OF V Cons.prems(1)] show ?case by fastforce
qed simp

lemma normalizeClaims_Inr:
  assumes V: "viem_addresses V" and n: "normalizeClaims V raw = Inr claims"
  shows "claims \<noteq> []" "length claims = length raw" "sorted (map rc_index claims)" "distinct (map rc_index claims)"
    "distinct (map (toLowerCase o rc_account) claims)" "\<And>c. c \<in> set claims \<Longrightarrow> valid_claim V c"
proof -
  obtain st where ne: "raw \<noteq> []" and st: "foldR (normalizeClaim V) \<lparr>cs_indexes = [], cs_accounts = [], cs_claims = []\<rparr>
      (enumerate 0 raw) = Inr st" and c: "claims = sort_key rc_index (cs_claims st)"
    using n by (auto simp: normalizeClaims_def throwIf_def split: if_splits)
  have ok: "claims_ok V st" "length (cs_claims st) = length raw"
    using normalizeClaims_fold [OF V _ st] by (simp_all add: claims_ok_def)
  have d: "distinct (map f claims) \<longleftrightarrow> distinct (map f (cs_claims st))" for f :: "reward_claim \<Rightarrow> 'x"
    by (rule mset_eq_imp_distinct_iff) (simp add: c)
  show "length claims = length raw" using ok(2) by (simp add: c)
  with ne show "claims \<noteq> []" by auto
  show "sorted (map rc_index claims)" by (simp add: c)
  show "distinct (map rc_index claims)" "distinct (map (toLowerCase o rc_account) claims)"
    unfolding d using ok(1) by (simp_all add: claims_ok_def)
  show "valid_claim V x" if "x \<in> set claims" for x using that ok(1) by (simp add: c claims_ok_def)
qed


section \<open>The fixture and the SDK agree\<close>

definition claimOf :: "int \<Rightarrow> reward_claim \<Rightarrow> claim_leaf" where
  "claimOf epochId c =
     \<lparr>cl_epochId = epochId, cl_index = rc_index c, cl_account = rc_account c, cl_amount = rc_amount c\<rparr>"

lemma fixtureLeaf_sound:
  assumes "fixtureLeaf K epochId c = Inr l" "uint256 epochId" "valid_claim (cv_viem K) c" "\<And>x. lower_hash (cv_keccak256 K x)"
  shows "fst l = c" "good_node (snd l)" "tn_sum (snd l) = rc_amount c"
    "hashToriumRewardLeaf K (claimOf epochId c) = Inr (tn_hash (snd l))"
  using assms
  by (auto simp: fixtureLeaf_def leafHash_def good_node_def valid_claim_def hashToriumRewardLeaf_def claimOf_def)

lemma path_of_leaf:
  assumes "hashToriumRewardLeaf K (claimOf epochId c) = Inr (tn_hash n)" "tn_sum n = rc_amount c" "uint256 (rc_amount c)"
    and "foldR (processSibling K) (toProofNode n) (enumerate 0 nodes) = Inr (toProofNode r)"
  shows "processToriumRewardProof K (claimOf epochId c) nodes = Inr \<lparr>pr_rootHash = tn_hash r, pr_rootSum = tn_sum r\<rparr>"
proof -
  have "toProofNode n = \<lparr>pn_nodeHash = tn_hash n, pn_sum = rc_amount c\<rparr>" by (simp add: toProofNode_def assms(2))
  with assms show ?thesis
    by (simp add: processToriumRewardProof_def claimOf_def) (simp add: toProofNode_def)
qed

lemma fixtureClaim_Inr:
  assumes "fixtureClaim proofs l = Inr x"
  shows "fc_claim x = fst l" "map_of proofs (show_int (rc_index (fst l))) = Some (fc_proof x)"
  using assms by (auto simp: fixtureClaim_def split: option.splits)

lemma buildFixture_sound:
  assumes build: "buildFixture K epochId claims = Inr f" and e: "uint256 epochId"
    and keys: "distinct (map rc_index claims)" and valid: "\<And>c. c \<in> set claims \<Longrightarrow> valid_claim (cv_viem K) c"
    and hash: "\<And>x. lower_hash (cv_keccak256 K x)"
  shows "fx_rootSum f = sum_list (map rc_amount claims)" "map fc_claim (fx_claims f) = claims"
    "\<And>c. c \<in> set (fx_claims f) \<Longrightarrow> \<forall>n \<in> set (fc_proof c). tn_hash n \<noteq> zeroHash \<Longrightarrow>
       processToriumRewardProof K (claimOf epochId (fc_claim c)) (map toProofNode (fc_proof c)) =
         Inr \<lparr>pr_rootHash = fx_merkleRoot f, pr_rootSum = fx_rootSum f\<rparr>"
    "\<And>c. c \<in> set (fx_claims f) \<Longrightarrow> list_all good_node (fc_proof c)" "lower_hash (fx_merkleRoot f)"
proof -
  from build obtain leaves mt entries where l: "mapR (fixtureLeaf K epochId) claims = Inr leaves"
    and mt: "buildMerkleSumTree K leaves = Inr mt" and en: "mapR (fixtureClaim (mt_proofs mt)) leaves = Inr entries"
    and f: "f = \<lparr>fx_epochId = epochId, fx_merkleRoot = tn_hash (mt_root mt), fx_rootSum = tn_sum (mt_root mt),
          fx_claimCount = length claims, fx_claims = entries\<rparr>"
    by (auto simp: buildFixture_def)
  have l2: "list_all2 (\<lambda>c l. fixtureLeaf K epochId c = Inr l) claims leaves"
    and e2: "list_all2 (\<lambda>l x. fixtureClaim (mt_proofs mt) l = Inr x) leaves entries"
    using l en by (simp_all add: mapR_Inr_iff)
  have len: "length leaves = length claims" "length entries = length claims"
    using list_all2_lengthD [OF l2] list_all2_lengthD [OF e2] by simp_all
  have leaf: "fst (leaves ! i) = claims ! i" "good_node (snd (leaves ! i))" "tn_sum (snd (leaves ! i)) = rc_amount (claims ! i)"
    "hashToriumRewardLeaf K (claimOf epochId (claims ! i)) = Inr (tn_hash (snd (leaves ! i)))" if "i < length claims" for i
    using fixtureLeaf_sound [OF list_all2_nthD [OF l2 that] e valid [OF nth_mem [OF that]] hash] by simp_all
  have "map fst leaves = claims" by (intro nth_equalityI) (simp_all add: len leaf)
  then have k: "distinct (map (rc_index o fst) leaves)" using keys by (metis list.map_comp)
  have g: "good_node (snd l)" if "l \<in> set leaves" for l using that leaf(2) len by (auto simp: in_set_conv_nth)
  have am: "map (tn_sum o snd) leaves = map rc_amount claims" by (intro nth_equalityI) (simp_all add: len leaf)
  show "fx_rootSum f = sum_list (map rc_amount claims)" using buildMerkleSumTree_sound(1) [OF mt k g hash] unfolding am by (simp add: f)
  have entry: "fc_claim (entries ! i) = claims ! i"
    "map_of (mt_proofs mt) (show_int (rc_index (fst (leaves ! i)))) = Some (fc_proof (entries ! i))" if "i < length claims" for i
    using fixtureClaim_Inr [OF list_all2_nthD [OF e2, of i]] leaf(1) [OF that] that len by simp_all
  show "map fc_claim (fx_claims f) = claims" by (intro nth_equalityI) (simp_all add: f len entry)
  show "lower_hash (fx_merkleRoot f)" using buildMerkleSumTree_sound(3) [OF mt k g hash] by (simp add: f good_node_def)
  fix c assume c: "c \<in> set (fx_claims f)"
  then obtain i where i: "i < length claims" "c = entries ! i" by (auto simp: f in_set_conv_nth len)
  have m: "leaves ! i \<in> set leaves" using i len by simp
  show "list_all good_node (fc_proof c)"
    using buildMerkleSumTree_sound(2) [OF mt k g hash m] entry(2) [OF i(1)] i(2) by auto
  assume z: "\<forall>n \<in> set (fc_proof c). tn_hash n \<noteq> zeroHash"
  from buildMerkleSumTree_sound(2) [OF mt k g hash m] entry(2) [OF i(1)] z i(2)
  have p: "foldR (processSibling K) (toProofNode (snd (leaves ! i))) (enumerate 0 (map toProofNode (fc_proof c))) =
      Inr (toProofNode (mt_root mt))" by auto
  have u: "uint256 (rc_amount (claims ! i))" using valid [OF nth_mem [OF i(1)]] by (simp add: valid_claim_def)
  show "processToriumRewardProof K (claimOf epochId (fc_claim c)) (map toProofNode (fc_proof c)) =
      Inr \<lparr>pr_rootHash = fx_merkleRoot f, pr_rootSum = fx_rootSum f\<rparr>"
    using path_of_leaf [OF leaf(4,3) [OF i(1)] u p] entry(1) [OF i(1)] i(2) by (simp add: f)
qed

text \<open>
  C7: Every fixture the generator builds from an accepted input is complete: its root carries the sum of all amounts, it
  lists the normal claims in order, and each listed proof, whose nodes the SDK does not reject as malformed, is processed
  by the SDK to the very root and sum of the fixture.
\<close>

theorem fixture_proofs_accepted:
  assumes "viem_addresses (cv_viem K)" "\<And>x. lower_hash (cv_keccak256 K x)" "uint256 epochId"
    and "normalizeClaims (cv_viem K) raw = Inr claims" "buildFixture K epochId claims = Inr f"
  shows "fx_rootSum f = sum_list (map rc_amount claims) \<and> map fc_claim (fx_claims f) = claims \<and>
    (\<forall>c \<in> set (fx_claims f). (\<forall>n \<in> set (fc_proof c). tn_hash n \<noteq> zeroHash) \<longrightarrow>
       processToriumRewardProof K (claimOf epochId (fc_claim c)) (map toProofNode (fc_proof c)) =
         Inr \<lparr>pr_rootHash = fx_merkleRoot f, pr_rootSum = fx_rootSum f\<rparr>)"
proof -
  note n = normalizeClaims_Inr [OF assms(1,4)]
  note s = buildFixture_sound [OF assms(5,3) n(4,6) assms(2)]
  show ?thesis by (intro conjI ballI impI) (rule s; assumption?)+
qed


text \<open>A sample of two claims, with a hash that tells their leaves and their parent apart.\<close>

definition tree_contracts :: contract_viem where
  "tree_contracts = sample_contracts\<lparr>cv_viem := sample_viem,
     cv_encodeAbi := (\<lambda>types args. Inr (case args of [JBigInt e, JBigInt i, a, m] \<Rightarrow> show_int i | _ \<Rightarrow> ''parent'')),
     cv_keccak256 := (\<lambda>s. ''0x'' @ replicate 63 CHR ''a'' @
        [if s = ''0'' then CHR ''b'' else if s = ''1'' then CHR ''c'' else CHR ''d''])\<rparr>"

definition tree_input :: "jsval list" where
  "tree_input =
     [JObj [(''index'', JStr ''1''), (''account'', JStr (''0x'' @ replicate 40 CHR ''2'')), (''amount'', JStr ''20'')],
      JObj [(''index'', JStr ''0''), (''account'', JStr (''0x'' @ replicate 40 CHR ''1'')), (''amount'', JStr ''10'')]]"

definition tree_claims :: "reward_claim list" where
  "tree_claims =
     [\<lparr>rc_index = 0, rc_account = ''0x'' @ replicate 40 CHR ''1'', rc_amount = 10\<rparr>,
      \<lparr>rc_index = 1, rc_account = ''0x'' @ replicate 40 CHR ''2'', rc_amount = 20\<rparr>]"

lemma tree_hash: "lower_hash (cv_keccak256 tree_contracts s)"
  by (simp add: tree_contracts_def lower_hash_def list_all_iff char_class_defs)

lemma tree_viem: "cv_viem tree_contracts = sample_viem"
  by (simp add: tree_contracts_def)

lemma evm_address_rx_iff: "rx_test evm_address_rx s \<longleftrightarrow> address_shape s"
proof -
  have "rx_test evm_address_rx s \<longleftrightarrow> (\<exists>w. s = ''0x'' @ w \<and> length w = 40 \<and> list_all is_hex w)"
    unfolding evm_address_rx_def by (subst rx_test_anchored, simp, simp only: lang_Sq_lit lang_times_Cls) auto
  also have "\<dots> \<longleftrightarrow> address_shape s" unfolding two_char_prefix address_shape_def by auto
  finally show ?thesis .
qed

lemma lower_digits: "lower_char CHR ''1'' = CHR ''1''" "lower_char CHR ''2'' = CHR ''2''"
  by code_simp+

lemma tree_addresses:
  "parseAddress sample_viem (JStr (''0x'' @ replicate 40 CHR ''1'')) label True = Inr (''0x'' @ replicate 40 CHR ''1'')"
  "parseAddress sample_viem (JStr (''0x'' @ replicate 40 CHR ''2'')) label True = Inr (''0x'' @ replicate 40 CHR ''2'')"
  by (simp_all add: parseAddress_def evm_address_rx_iff sample_viem_def address_shape_def list_all_iff char_class_defs
      toLowerCase_def live_chars zeroAddress_def catchR_def lower_digits numeral_eq_Suc)

lemma tree_numbers:
  "parseUint256 (JStr ''0'') label False = Inr 0" "parseUint256 (JStr ''1'') label False = Inr 1"
  "parseUint256 (JStr ''10'') label True = Inr 10" "parseUint256 (JStr ''20'') label True = Inr 20"
  by (simp_all add: parseUint256_def canonical_decimal_def char_class_defs read_nat_def digit_val_def UINT256_MAX_eq
      toriumMaxUint256_eq)

lemma tree_accounts_differ: "toLowerCase (replicate 40 CHR ''1'') \<noteq> toLowerCase (replicate 40 CHR ''2'')"
  by (simp add: toLowerCase_def lower_digits numeral_eq_Suc)

lemma tree_normal: "normalizeClaims sample_viem tree_input = Inr tree_claims"
proof -
  have k: "validateExactKeys [(''index'', a), (''account'', b), (''amount'', c)] CLAIM_KEYS label = Inr ()" for a b c label
    by (simp add: validateExactKeys_def CLAIM_KEYS_def hasOwn_def)
  have f: "fieldOf [(''index'', a), (''account'', b), (''amount'', c)] ''index'' = a"
    "fieldOf [(''index'', a), (''account'', b), (''amount'', c)] ''account'' = b"
    "fieldOf [(''index'', a), (''account'', b), (''amount'', c)] ''amount'' = c" for a b c by (simp_all add: fieldOf_def)
  show ?thesis
    unfolding normalizeClaims_def tree_input_def
    by (simp add: normalizeClaim_def Let_def k f tree_numbers tree_addresses [simplified] tree_accounts_differ
        show_int_inj tree_claims_def del: replicate.simps)
qed

definition tree_leaf_node :: "char \<Rightarrow> int \<Rightarrow> tree_node" where
  "tree_leaf_node c m = \<lparr>tn_hash = ''0x'' @ replicate 63 CHR ''a'' @ [c], tn_sum = m\<rparr>"

definition tree_fixture :: fixture where
  "tree_fixture =
     \<lparr>fx_epochId = 7, fx_merkleRoot = tn_hash (tree_leaf_node CHR ''d'' 30), fx_rootSum = 30, fx_claimCount = 2,
      fx_claims =
        [\<lparr>fc_claim = tree_claims ! 0, fc_leafHash = tn_hash (tree_leaf_node CHR ''b'' 10), fc_leafSum = 10,
          fc_proof = [tree_leaf_node CHR ''c'' 20]\<rparr>,
         \<lparr>fc_claim = tree_claims ! 1, fc_leafHash = tn_hash (tree_leaf_node CHR ''c'' 20), fc_leafSum = 20,
          fc_proof = [tree_leaf_node CHR ''b'' 10]\<rparr>]\<rparr>"

lemma tree_node_hash: "lower_hash (tn_hash (tree_leaf_node c m)) \<longleftrightarrow> is_hex_lower c"
  by (auto simp: tree_leaf_node_def lower_hash_def list_all_iff char_class_defs)

lemma tree_order:
  "compareHash (tn_hash (tree_leaf_node CHR ''b'' m)) (tn_hash (tree_leaf_node CHR ''c'' k)) \<le> 0"
  "\<not> compareHash (tn_hash (tree_leaf_node CHR ''c'' k)) (tn_hash (tree_leaf_node CHR ''b'' m)) \<le> 0"
  "compareHash (tn_hash (tree_leaf_node CHR ''c'' k)) (tn_hash (tree_leaf_node CHR ''b'' m)) \<noteq> 0"
proof -
  have h: "lower_hash (tn_hash (tree_leaf_node CHR ''b'' m))" "lower_hash (tn_hash (tree_leaf_node CHR ''c'' k))"
    by (simp_all add: tree_node_hash char_class_defs)
  have "replicate n CHR ''a'' @ [CHR ''b''] < replicate n CHR ''a'' @ [CHR ''c'']" for n
    by (induction n) (simp_all add: less_char_def)
  then have l: "tn_hash (tree_leaf_node CHR ''b'' m) < tn_hash (tree_leaf_node CHR ''c'' k)"
    unfolding tree_leaf_node_def by (simp del: replicate.simps)
  then show "compareHash (tn_hash (tree_leaf_node CHR ''b'' m)) (tn_hash (tree_leaf_node CHR ''c'' k)) \<le> 0"
    "\<not> compareHash (tn_hash (tree_leaf_node CHR ''c'' k)) (tn_hash (tree_leaf_node CHR ''b'' m)) \<le> 0"
    "compareHash (tn_hash (tree_leaf_node CHR ''c'' k)) (tn_hash (tree_leaf_node CHR ''b'' m)) \<noteq> 0"
    unfolding compareHash_lower [OF h] compareHash_lower [OF h(2,1)] by auto
qed

lemma tree_bytes:
  "hexBytes (tn_hash (tree_leaf_node CHR ''b'' m)) \<le> hexBytes (tn_hash (tree_leaf_node CHR ''c'' k))"
  using tree_order(1) [of m k] by (auto simp: compareHash_def split: if_splits)

lemma tree_leaves:
  "mapR (fixtureLeaf tree_contracts 7) tree_claims =
     Inr [(tree_claims ! 0, tree_leaf_node CHR ''b'' 10), (tree_claims ! 1, tree_leaf_node CHR ''c'' 20)]"
proof -
  have "show_int 0 = ''0''" "show_int 1 = ''1''" by code_simp+
  then show ?thesis
    by (simp add: tree_claims_def fixtureLeaf_def leafHash_def tree_contracts_def tree_leaf_node_def del: replicate.simps)
qed

lemma tree_combined:
  "combine tree_contracts (tree_leaf_node CHR ''c'' 20) (tree_leaf_node CHR ''b'' 10) = Inr (tree_leaf_node CHR ''d'' 30)"
  unfolding combine_Inr
  using tree_order(2,3)
  by (auto simp: tree_contracts_def UINT256_MAX_eq toriumMaxUint256_eq) (simp_all add: tree_leaf_node_def)

lemma tree_built: "buildFixture tree_contracts 7 tree_claims = Inr tree_fixture"
proof -
  let ?b = "tree_leaf_node CHR ''b'' 10" and ?c = "tree_leaf_node CHR ''c'' 20" and ?d = "tree_leaf_node CHR ''d'' 30"
  have s: "sortLeaves [(tree_claims ! 0, ?b), (tree_claims ! 1, ?c)] = [(tree_claims ! 0, ?b), (tree_claims ! 1, ?c)]"
    by (simp add: sortLeaves_def tree_bytes)
  have ne: "tn_hash ?b \<noteq> tn_hash ?c" using tree_order(1,2) by metis
  have ix: "rc_index (tree_claims ! 0) = 0" "rc_index (tree_claims ! 1) = 1" by (simp_all add: tree_claims_def)
  have p: "pathFrom [Some ?d, Some ?c, Some ?b] 2 = Inr [?c]" "pathFrom [Some ?d, Some ?c, Some ?b] 1 = Inr [?b]"
    by (simp_all add: pathFrom.simps [of _ 2] pathFrom.simps [of _ 1] pathFrom.simps [of _ 0] pathFrom.simps [of _ "Suc 0"] nodeAt_def)
  have "buildMerkleSumTree tree_contracts [(tree_claims ! 0, ?b), (tree_claims ! 1, ?c)] =
      Inr \<lparr>mt_root = ?d, mt_proofs = [(show_int 1, [?b]), (show_int 0, [?c])]\<rparr>"
    unfolding buildMerkleSumTree_def s Let_def
    using ne p ix tree_combined
    by (simp add: placeLeaf_def proofOf_def Let_def nodeAt_def show_int_inj numeral_2_eq_2)
  then show ?thesis
    unfolding buildFixture_def tree_leaves
    using ix by (simp add: fixtureClaim_def tree_fixture_def show_int_inj) (simp add: tree_claims_def tree_leaf_node_def)
qed

theorem fixture_proofs_accepted_witness:
  "fx_rootSum tree_fixture = 30 \<and>
   processToriumRewardProof tree_contracts (claimOf 7 (tree_claims ! 0)) [toProofNode (tree_leaf_node CHR ''c'' 20)] =
     Inr \<lparr>pr_rootHash = fx_merkleRoot tree_fixture, pr_rootSum = 30\<rparr>"
proof -
  have e: "uint256 7" by (simp add: toriumMaxUint256_eq)
  have z: "tn_hash (tree_leaf_node CHR ''c'' 20) \<noteq> zeroHash"
    by (simp add: tree_leaf_node_def zeroHash_def numeral_eq_Suc)
  from fixture_proofs_accepted [OF sample_viem_addresses [folded tree_viem] tree_hash e tree_normal [folded tree_viem] tree_built]
  show ?thesis using z by (simp add: tree_fixture_def)
qed


text \<open>
  C25: The two implementations of the node hash are equivalent: on nodes with lower-case hashes and positive sums, the
  generator and the SDK accept the same pairs and compute the same parent, except that the generator alone refuses equal
  hashes with different sums.
\<close>

theorem node_hash_equivalence:
  assumes "good_node a" "good_node b" "tn_hash a = tn_hash b \<longrightarrow> tn_sum a = tn_sum b"
  shows "combine K a b = Inr c \<longleftrightarrow> hashToriumRewardNode K (toProofNode a) (toProofNode b) = Inr (toProofNode c)"
proof
  assume "combine K a b = Inr c"
  then show "hashToriumRewardNode K (toProofNode a) (toProofNode b) = Inr (toProofNode c)"
    using combine_agrees(1) assms(1,2) by blast
next
  assume h: "hashToriumRewardNode K (toProofNode a) (toProofNode b) = Inr (toProofNode c)"
  have l: "lower_hash (tn_hash a)" "lower_hash (tn_hash b)" using assms by (simp_all add: good_node_def)
  note lower = lower_hash_toLowerCase [OF l(1)] lower_hash_toLowerCase [OF l(2)]
  show "combine K a b = Inr c"
    unfolding combine_Inr compareHash_lower [OF l]
    using h assms(3) lower
    by (cases c) (auto simp: hashToriumRewardNode_def toProofNode_def uint256_def UINT256_MAX_eq split: if_splits)
qed

theorem node_hash_equivalence_witness:
  "hashToriumRewardNode tree_contracts (toProofNode (tree_leaf_node CHR ''c'' 20)) (toProofNode (tree_leaf_node CHR ''b'' 10)) =
     Inr (toProofNode (tree_leaf_node CHR ''d'' 30))"
proof -
  have g: "good_node (tree_leaf_node CHR ''c'' 20)" "good_node (tree_leaf_node CHR ''b'' 10)"
    unfolding good_node_def tree_node_hash by (simp_all add: tree_leaf_node_def char_class_defs)
  have "tn_hash (tree_leaf_node CHR ''c'' 20) = tn_hash (tree_leaf_node CHR ''b'' 10) \<longrightarrow>
        tn_sum (tree_leaf_node CHR ''c'' 20) = tn_sum (tree_leaf_node CHR ''b'' 10)"
    by (simp add: tree_leaf_node_def)
  from node_hash_equivalence [OF g this] tree_combined show ?thesis by blast
qed

text \<open>
  C27: The claims that the generator accepts are well typed: there is at least one and as many as entries, indexes and
  amounts are 256-bit values, amounts are positive, accounts are checksummed and not zero, and neither an index nor an
  account, whatever its case, occurs twice. They are ordered by index.
\<close>

theorem normal_claims_typed:
  assumes "viem_addresses V" "normalizeClaims V raw = Inr claims"
  shows "claims \<noteq> [] \<and> length claims = length raw \<and> sorted (map rc_index claims) \<and> distinct (map rc_index claims) \<and>
    distinct (map (toLowerCase o rc_account) claims) \<and> list_all (valid_claim V) claims"
  using normalizeClaims_Inr [OF assms] by (auto simp: list_all_iff)

theorem normal_claims_typed_witness: "list_all (valid_claim sample_viem) tree_claims \<and> length tree_claims = length tree_input"
  using normal_claims_typed [OF sample_viem_addresses tree_normal] by simp

end
