(* ===== verification/Reward_Csv.thy ===== *)
theory Reward_Csv
  imports Js_Values
begin

text \<open>
  The CSV reader of \<^verbatim>\<open>contracts/scripts/generate-reward-fixture.mjs\<close>. A text is the list of its UTF-16 code units, so
  that the check for a byte order mark can be stated.
\<close>

section \<open>The reader\<close>

type_synonym units = "nat list"

abbreviation QUOTE :: nat where "QUOTE \<equiv> 34"
abbreviation COMMA :: nat where "COMMA \<equiv> 44"
abbreviation LF :: nat where "LF \<equiv> 10"
abbreviation CR :: nat where "CR \<equiv> 13"

record csv_state =
  cv_rows :: "units list list"
  cv_row :: "units list"
  cv_field :: units
  cv_quoted :: bool
  cv_closedQuote :: bool

definition finishField :: "csv_state \<Rightarrow> csv_state" where
  "finishField s = s\<lparr>cv_row := cv_row s @ [cv_field s], cv_field := [], cv_closedQuote := False\<rparr>"

definition finishRow :: "csv_state \<Rightarrow> js_exn + csv_state" where
  "finishRow s =
     (let s' = finishField s in
      if list_all (\<lambda>v. v = []) (cv_row s')
      then Inl (PlainError (''CSV row '' @ show_nat (length (cv_rows s') + 1) @ '' must not be blank''))
      else Inr (s'\<lparr>cv_rows := cv_rows s' @ [cv_row s'], cv_row := []\<rparr>))"

fun csvScan :: "csv_state \<Rightarrow> units \<Rightarrow> js_exn + csv_state" where
  "csvScan s [] = Inr s"
| "csvScan s (c # cs) =
     (if cv_quoted s then
        (if c = QUOTE then
           (case cs of
              d # ds \<Rightarrow> if d = QUOTE then csvScan (s\<lparr>cv_field := cv_field s @ [QUOTE]\<rparr>) ds
                        else csvScan (s\<lparr>cv_quoted := False, cv_closedQuote := True\<rparr>) cs
            | [] \<Rightarrow> csvScan (s\<lparr>cv_quoted := False, cv_closedQuote := True\<rparr>) cs)
         else csvScan (s\<lparr>cv_field := cv_field s @ [c]\<rparr>) cs)
      else if cv_closedQuote s \<and> c \<noteq> COMMA \<and> c \<noteq> LF \<and> c \<noteq> CR
        then Inl (PlainError ''CSV contains characters after a closing quote'')
      else if c = QUOTE then
        (if cv_field s \<noteq> [] then Inl (PlainError ''CSV quote must begin at the start of a field'')
         else csvScan (s\<lparr>cv_quoted := True\<rparr>) cs)
      else if c = COMMA then csvScan (finishField s) cs
      else if c = LF then bindR (finishRow s) (\<lambda>s'. csvScan s' cs)
      else if c = CR then
        (if take 1 cs \<noteq> [LF] then Inl (PlainError ''CSV carriage returns must be followed by a newline'')
         else csvScan s cs)
      else csvScan (s\<lparr>cv_field := cv_field s @ [c]\<rparr>) cs)"

declare csvScan.simps(2) [simp del]

definition csvStart :: csv_state where
  "csvStart = \<lparr>cv_rows = [], cv_row = [], cv_field = [], cv_quoted = False, cv_closedQuote = False\<rparr>"

definition csvRows :: "units \<Rightarrow> js_exn + units list list" where
  "csvRows text =
     bindR (throwIf (take 1 text = [0xfeff]) (PlainError ''CSV input must not contain a UTF-8 BOM'')) (\<lambda>_.
     bindR (throwIf (0 \<in> set text) (PlainError ''CSV input must not contain NUL bytes'')) (\<lambda>_.
     bindR (csvScan csvStart text) (\<lambda>s.
     bindR (throwIf (cv_quoted s) (PlainError ''CSV contains an unterminated quoted field'')) (\<lambda>_.
     bindR (if cv_row s \<noteq> [] \<or> cv_field s \<noteq> [] \<or> cv_closedQuote s then finishRow s else Inr s) (\<lambda>s'.
     Inr (cv_rows s'))))))"

section \<open>Reading what a writer writes\<close>

text \<open>A writer: a field is quoted where it is asked for or has to be, and a row ends with or without a carriage return.\<close>

definition special :: "nat \<Rightarrow> bool" where
  "special c \<longleftrightarrow> c = QUOTE \<or> c = COMMA \<or> c = LF \<or> c = CR"

definition escape :: "units \<Rightarrow> units" where
  "escape f = concat (map (\<lambda>c. if c = QUOTE then [QUOTE, QUOTE] else [c]) f)"

definition writeField :: "bool \<times> units \<Rightarrow> units" where
  "writeField qf =
     (if fst qf \<or> list_ex special (snd qf) then QUOTE # escape (snd qf) @ [QUOTE] else snd qf)"

fun writeFields :: "(bool \<times> units) list \<Rightarrow> units" where
  "writeFields [] = []"
| "writeFields [f] = writeField f"
| "writeFields (f # fs) = writeField f @ COMMA # writeFields fs"

definition writeRow :: "bool \<times> (bool \<times> units) list \<Rightarrow> units" where
  "writeRow r = writeFields (snd r) @ (if fst r then [CR, LF] else [LF])"

definition writeCsv :: "(bool \<times> (bool \<times> units) list) list \<Rightarrow> units" where
  "writeCsv rows = concat (map writeRow rows)"

definition csv_row_ok :: "(bool \<times> units) list \<Rightarrow> bool" where
  "csv_row_ok r \<longleftrightarrow> (\<exists>f \<in> set r. snd f \<noteq> []) \<and> (\<forall>f \<in> set r. 0 \<notin> set (snd f))"


lemma csvScan_plain:
  "\<not> list_ex special f \<Longrightarrow> \<not> cv_quoted s \<Longrightarrow> \<not> cv_closedQuote s \<Longrightarrow>
   csvScan s (f @ rest) = csvScan (s\<lparr>cv_field := cv_field s @ f\<rparr>) rest"
proof (induction f arbitrary: s)
  case (Cons c f)
  then show ?case by (simp add: csvScan.simps(2) [of s c] special_def)
qed simp

lemma csvScan_quoted:
  assumes "take 1 rest \<noteq> [QUOTE]"
  shows "cv_quoted s \<Longrightarrow> csvScan s (escape f @ QUOTE # rest) =
    csvScan (s\<lparr>cv_field := cv_field s @ f, cv_quoted := False, cv_closedQuote := True\<rparr>) rest"
proof (induction f arbitrary: s)
  case Nil
  then show ?case using assms by (cases rest) (auto simp: escape_def csvScan.simps(2) [of s])
next
  case (Cons c f)
  then show ?case by (simp add: escape_def csvScan.simps(2) [of s])
qed

text \<open>A written field, then the separator, leaves the field and whether it was quoted.\<close>

definition between :: "csv_state \<Rightarrow> bool" where
  "between s \<longleftrightarrow> cv_field s = [] \<and> \<not> cv_quoted s \<and> \<not> cv_closedQuote s"

lemma csvScan_field:
  assumes "between s" "take 1 rest \<noteq> [QUOTE]"
  shows "\<exists>closed. csvScan s (writeField qf @ rest) = csvScan (s\<lparr>cv_field := snd qf, cv_closedQuote := closed\<rparr>) rest"
proof (cases "fst qf \<or> list_ex special (snd qf)")
  case True
  have "csvScan s (writeField qf @ rest) = csvScan (s\<lparr>cv_quoted := True\<rparr>) (escape (snd qf) @ QUOTE # rest)"
    using True assms(1) by (simp add: writeField_def between_def csvScan.simps(2) [of s])
  also have "\<dots> = csvScan (s\<lparr>cv_field := snd qf, cv_closedQuote := True\<rparr>) rest"
    using csvScan_quoted [OF assms(2), of "s\<lparr>cv_quoted := True\<rparr>" "snd qf"] assms(1) by (cases s) (simp add: between_def)
  finally show ?thesis by blast
next
  case False
  then have "csvScan s (writeField qf @ rest) = csvScan (s\<lparr>cv_field := snd qf, cv_closedQuote := False\<rparr>) rest"
    using csvScan_plain [of "snd qf" s rest] assms(1) by (cases s) (simp add: writeField_def between_def)
  then show ?thesis by blast
qed

lemma csvScan_fields:
  assumes "take 1 rest = [LF] \<or> take 1 rest = [CR]"
  shows "fs \<noteq> [] \<Longrightarrow> between s \<Longrightarrow> \<exists>closed. csvScan s (writeFields fs @ rest) =
    csvScan (s\<lparr>cv_row := cv_row s @ map snd (butlast fs), cv_field := snd (last fs), cv_closedQuote := closed\<rparr>) rest"
proof (induction fs arbitrary: s rule: writeFields.induct)
  case (2 f)
  then show ?case using csvScan_field [of s rest f] assms by auto
next
  case (3 f g fs)
  obtain closed where "csvScan s (writeField f @ COMMA # (writeFields (g # fs) @ rest)) =
      csvScan (s\<lparr>cv_field := snd f, cv_closedQuote := closed\<rparr>) (COMMA # (writeFields (g # fs) @ rest))"
    using csvScan_field [OF 3(3), of "COMMA # (writeFields (g # fs) @ rest)" f] by auto
  also have "\<dots> = csvScan (s\<lparr>cv_row := cv_row s @ [snd f]\<rparr>) (writeFields (g # fs) @ rest)"
    using 3(3) by (cases s) (simp add: csvScan.simps(2) [of _ COMMA] finishField_def between_def)
  finally show ?case using 3(1) [of "s\<lparr>cv_row := cv_row s @ [snd f]\<rparr>"] 3(3) by (simp add: between_def)
qed simp

lemma csvScan_row:
  assumes "between s" "cv_row s = []" "csv_row_ok (snd r)"
  shows "csvScan s (writeRow r @ rest) = csvScan (s\<lparr>cv_rows := cv_rows s @ [map snd (snd r)]\<rparr>) rest"
proof -
  let ?tail = "(if fst r then [CR, LF] else [LF]) @ rest"
  have ne: "snd r \<noteq> []" using assms(3) by (auto simp: csv_row_ok_def)
  obtain closed where "csvScan s (writeFields (snd r) @ ?tail) =
      csvScan (s\<lparr>cv_row := map snd (butlast (snd r)), cv_field := snd (last (snd r)), cv_closedQuote := closed\<rparr>) ?tail"
    using csvScan_fields [of ?tail "snd r" s] ne assms(1,2) by (cases "fst r") auto
  also have "\<dots> = csvScan (s\<lparr>cv_row := map snd (butlast (snd r)), cv_field := snd (last (snd r)), cv_closedQuote := closed\<rparr>)
      (LF # rest)"
    using assms(1) by (simp add: csvScan.simps(2) [of _ CR] between_def)
  also have "\<dots> = csvScan (s\<lparr>cv_rows := cv_rows s @ [map snd (snd r)]\<rparr>) rest"
  proof -
    have m: "map snd (butlast (snd r)) @ [snd (last (snd r))] = map snd (snd r)"
      using ne by (metis append_butlast_last_id list.simps(8,9) map_append)
    have "\<not> list_all (\<lambda>v. v = []) (map snd (snd r))" using assms(3) by (auto simp: csv_row_ok_def list_all_iff)
    then show ?thesis
      using assms(1,2) by (cases s) (simp add: csvScan.simps(2) [of _ LF] finishRow_def finishField_def between_def m Let_def)
  qed
  finally show ?thesis by (simp add: writeRow_def)
qed

lemma csvScan_rows:
  "list_all (csv_row_ok o snd) rows \<Longrightarrow> between s \<Longrightarrow> cv_row s = [] \<Longrightarrow>
   csvScan s (writeCsv rows) = Inr (s\<lparr>cv_rows := cv_rows s @ map (map snd o snd) rows\<rparr>)"
proof (induction rows arbitrary: s)
  case (Cons r rows)
  then show ?case using csvScan_row [of s r "writeCsv rows"] by (simp add: writeCsv_def between_def)
qed (simp add: writeCsv_def)

lemma escape_zero: "0 \<in> set (escape f) \<longleftrightarrow> 0 \<in> set f"
  by (auto simp: escape_def)

lemma writeFields_zero: "(\<forall>f \<in> set fs. 0 \<notin> set (snd f)) \<Longrightarrow> 0 \<notin> set (writeFields fs)"
  by (induction fs rule: writeFields.induct) (auto simp: writeField_def escape_zero)

lemma writeCsv_zero: "list_all (csv_row_ok o snd) rows \<Longrightarrow> 0 \<notin> set (writeCsv rows)"
  using writeFields_zero by (fastforce simp: writeCsv_def writeRow_def list_all_iff csv_row_ok_def split: if_splits)

text \<open>
  C24: The CSV reader inverts every writer: rows that are not blank and hold no NUL, each field quoted or, where it has no
  special character, bare, and each row ended by a newline with or without a carriage return, are read back exactly.
\<close>

theorem csv_round_trip:
  assumes "list_all (csv_row_ok o snd) rows" "take 1 (writeCsv rows) \<noteq> [0xfeff]"
  shows "csvRows (writeCsv rows) = Inr (map (map snd o snd) rows)"
  using csvScan_rows [OF assms(1), of csvStart] writeCsv_zero [OF assms(1)] assms(2)
  by (simp add: csvRows_def csvStart_def between_def)

theorem csv_round_trip_witness:
  "csvRows (writeCsv [(True, [(False, [65, 66]), (True, [])]), (False, [(True, [34, 44, 10]), (False, [49])])]) =
     Inr [[[65, 66], []], [[34, 44, 10], [49]]]"
  by (subst csv_round_trip)
    (simp_all add: csv_row_ok_def writeCsv_def writeRow_def writeField_def special_def)

end
