(* ===== verification/Base64.thy ===== *)
theory Base64
  imports Utils
begin

text \<open>
  Base64 as \<^verbatim>\<open>Buffer\<close> reads and writes it, on texts of the standard alphabet with padding: encoding, decoding, and that
  the canonical texts are exactly the encodings. Bytes are integers, as elsewhere.
\<close>

section \<open>Coding\<close>

definition b64_alphabet :: string where
  "b64_alphabet = ''ABCDEFGHIJKLMNOPQRSTUVWXYZabcdefghijklmnopqrstuvwxyz0123456789+/''"

definition b64_char :: "nat \<Rightarrow> char" where
  "b64_char n = b64_alphabet ! n"

definition b64_val :: "char \<Rightarrow> nat" where
  "b64_val c = length (takeWhile (\<lambda>x. x \<noteq> c) b64_alphabet)"

definition is_b64 :: "char \<Rightarrow> bool" where
  "is_b64 c \<longleftrightarrow> c \<in> set b64_alphabet"

fun toBase64 :: "int list \<Rightarrow> string" where
  "toBase64 (x # y # z # s) =
     [b64_char (nat x div 4), b64_char (nat x mod 4 * 16 + nat y div 16), b64_char (nat y mod 16 * 4 + nat z div 64),
      b64_char (nat z mod 64)] @ toBase64 s"
| "toBase64 [x, y] =
     [b64_char (nat x div 4), b64_char (nat x mod 4 * 16 + nat y div 16), b64_char (nat y mod 16 * 4), CHR ''='']"
| "toBase64 [x] = [b64_char (nat x div 4), b64_char (nat x mod 4 * 16), CHR ''='', CHR ''='']"
| "toBase64 [] = []"

text \<open>The decoder drops the bits of a last group that no byte takes.\<close>

definition b64_first :: "char \<Rightarrow> char \<Rightarrow> int" where
  "b64_first a b = int (b64_val a * 4 + b64_val b div 16)"

definition b64_second :: "char \<Rightarrow> char \<Rightarrow> int" where
  "b64_second b c = int (b64_val b mod 16 * 16 + b64_val c div 4)"

definition b64_third :: "char \<Rightarrow> char \<Rightarrow> int" where
  "b64_third c d = int (b64_val c mod 4 * 64 + b64_val d)"

fun fromBase64 :: "string \<Rightarrow> int list" where
  "fromBase64 (a # b # c # d # s) =
     (if c = CHR ''='' then [b64_first a b]
      else if d = CHR ''='' then [b64_first a b, b64_second b c]
      else [b64_first a b, b64_second b c, b64_third c d] @ fromBase64 s)"
| "fromBase64 _ = []"

section \<open>Decoding inverts encoding\<close>

lemma b64_alphabet_facts: "length b64_alphabet = 64" "distinct b64_alphabet" "CHR ''='' \<notin> set b64_alphabet"
  by (simp_all add: b64_alphabet_def)

lemma takeWhile_nth: "distinct xs \<Longrightarrow> n < length xs \<Longrightarrow> length (takeWhile (\<lambda>x. x \<noteq> xs ! n) xs) = n"
proof (induction xs arbitrary: n)
  case (Cons x xs)
  then show ?case by (cases n) auto
qed simp

lemma b64_val_char [simp]: "n < 64 \<Longrightarrow> b64_val (b64_char n) = n"
  using takeWhile_nth [of b64_alphabet n] b64_alphabet_facts by (simp add: b64_val_def b64_char_def)

lemma b64_char_in [simp]: "n < 64 \<Longrightarrow> is_b64 (b64_char n)"
  using b64_alphabet_facts by (simp add: is_b64_def b64_char_def)

lemma b64_char_not_pad [simp]: "n < 64 \<Longrightarrow> b64_char n \<noteq> CHR ''=''"
  using b64_char_in b64_alphabet_facts unfolding is_b64_def by metis

lemma b64_ranges:
  assumes "0 \<le> x" "x < 256" "0 \<le> y" "y < (256::int)"
  shows "nat x div 4 < 64" "nat x mod 4 * 16 + nat y div 16 < 64" "nat x mod 16 * 4 + nat y div 64 < 64" "nat x mod 64 < 64"
    "nat x mod 4 * 16 < 64" "nat x mod 16 * 4 < 64"
  using assms by auto

lemma b64_bytes:
  assumes "0 \<le> x" "x < 256" "0 \<le> y" "y < (256::int)" "0 \<le> z" "z < 256"
  shows "nat x div 4 * 4 + (nat x mod 4 * 16 + nat y div 16) div 16 = nat x"
    "(nat x mod 4 * 16 + nat y div 16) mod 16 * 16 + (nat y mod 16 * 4 + nat z div 64) div 4 = nat y"
    "(nat y mod 16 * 4 + nat z div 64) mod 4 * 64 + nat z mod 64 = nat z"
    "nat x div 4 * 4 + (nat x mod 4 * 16) div 16 = nat x"
    "(nat x mod 4 * 16 + nat y div 16) mod 16 * 16 + (nat y mod 16 * 4) div 4 = nat y"
proof -
  have d: "nat y div 16 < 16" "nat z div 64 < 4" using assms by auto
  then show "nat x div 4 * 4 + (nat x mod 4 * 16 + nat y div 16) div 16 = nat x"
    "(nat x mod 4 * 16 + nat y div 16) mod 16 * 16 + (nat y mod 16 * 4 + nat z div 64) div 4 = nat y"
    "(nat y mod 16 * 4 + nat z div 64) mod 4 * 64 + nat z mod 64 = nat z"
    "nat x div 4 * 4 + (nat x mod 4 * 16) div 16 = nat x"
    "(nat x mod 4 * 16 + nat y div 16) mod 16 * 16 + (nat y mod 16 * 4) div 4 = nat y"
    by simp_all
qed

lemma b64_group:
  assumes "0 \<le> x" "x < 256" "0 \<le> y" "y < 256" "0 \<le> z" "z < (256::int)"
  shows "b64_first (b64_char (nat x div 4)) (b64_char (nat x mod 4 * 16 + nat y div 16)) = x"
    "b64_second (b64_char (nat x mod 4 * 16 + nat y div 16)) (b64_char (nat y mod 16 * 4 + nat z div 64)) = y"
    "b64_third (b64_char (nat y mod 16 * 4 + nat z div 64)) (b64_char (nat z mod 64)) = z"
    "b64_first (b64_char (nat x div 4)) (b64_char (nat x mod 4 * 16)) = x"
    "b64_second (b64_char (nat x mod 4 * 16 + nat y div 16)) (b64_char (nat y mod 16 * 4)) = y"
  unfolding b64_first_def b64_second_def b64_third_def
    b64_val_char [OF b64_ranges(1) [OF assms(1-4)]] b64_val_char [OF b64_ranges(2) [OF assms(1-4)]]
    b64_val_char [OF b64_ranges(3) [OF assms(3-6)]] b64_val_char [OF b64_ranges(4) [OF assms(5,6,5,6)]]
    b64_val_char [OF b64_ranges(5) [OF assms(1-4)]] b64_val_char [OF b64_ranges(6) [OF assms(3-6)]]
    b64_bytes [OF assms]
  using assms by simp_all

lemma from_to_base64: "byte_list bs \<Longrightarrow> fromBase64 (toBase64 bs) = bs"
proof (induction bs rule: toBase64.induct)
  case (1 x y z s)
  then have b: "0 \<le> x" "x < 256" "0 \<le> y" "y < 256" "0 \<le> z" "z < 256" "byte_list s" by (simp_all add: byte_list_def)
  have p: "b64_char (nat y mod 16 * 4 + nat z div 64) \<noteq> CHR ''=''" "b64_char (nat z mod 64) \<noteq> CHR ''=''"
    by (rule b64_char_not_pad [OF b64_ranges(3) [OF b(3-6)]], rule b64_char_not_pad [OF b64_ranges(4) [OF b(5,6,5,6)]])
  show ?case by (simp only: toBase64.simps fromBase64.simps append.simps p if_False b64_group [OF b(1-6)] 1(1) [OF b(7)])
next
  case (2 x y)
  then have b: "0 \<le> x" "x < 256" "0 \<le> y" "y < 256" by (simp_all add: byte_list_def)
  have p: "b64_char (nat y mod 16 * 4) \<noteq> CHR ''=''" by (rule b64_char_not_pad [OF b64_ranges(6) [OF b(3,4,3,4)]])
  show ?case by (simp only: toBase64.simps fromBase64.simps p if_False if_True refl b64_group [OF b(1-4) b(3,4)])
next
  case (3 x)
  then have b: "0 \<le> x" "x < 256" by (simp_all add: byte_list_def)
  show ?case by (simp only: toBase64.simps fromBase64.simps if_True refl b64_group [OF b(1,2,1,2,1,2)])
qed simp

section \<open>The shape of an encoding\<close>

text \<open>\<open>/^(?:[A-Za-z0-9+/]{4})*(?:[A-Za-z0-9+/]{2}==|[A-Za-z0-9+/]{3}=)?$/u\<close>\<close>

definition base64_rx :: rx where
  "base64_rx =
     anchored (Sq (Star (rtimes 4 (Cls is_b64)))
       (ropt (Alt (Sq (rtimes 2 (Cls is_b64)) (lit ''=='')) (Sq (rtimes 3 (Cls is_b64)) (lit ''='')))))"

lemma base64_rx_lang:
  "rx_test base64_rx s \<longleftrightarrow> (\<exists>v w. s = v @ w \<and> v \<in> stars {u. length u = 4 \<and> list_all is_b64 u} \<and>
     (w = [] \<or> (\<exists>u. length u = 2 \<and> list_all is_b64 u \<and> w = u @ ''=='') \<or>
      (\<exists>u. length u = 3 \<and> list_all is_b64 u \<and> w = u @ ''='')))"
  unfolding base64_rx_def
  by (subst rx_test_anchored, simp, simp only: lang.simps lang_opt lang_times_Cls lang_lit) auto

lemma b64_group_chars:
  assumes "0 \<le> x" "x < 256" "0 \<le> y" "y < 256" "0 \<le> z" "z < (256::int)"
  shows "is_b64 (b64_char (nat x div 4))" "is_b64 (b64_char (nat x mod 4 * 16 + nat y div 16))"
    "is_b64 (b64_char (nat y mod 16 * 4 + nat z div 64))" "is_b64 (b64_char (nat z mod 64))"
    "is_b64 (b64_char (nat x mod 4 * 16))" "is_b64 (b64_char (nat y mod 16 * 4))"
  by (rule b64_char_in, rule b64_ranges; fact assms)+

lemma toBase64_shape: "byte_list bs \<Longrightarrow> rx_test base64_rx (toBase64 bs)"
proof (induction bs rule: toBase64.induct)
  case (1 x y z s)
  then have b: "0 \<le> x" "x < 256" "0 \<le> y" "y < 256" "0 \<le> z" "z < 256" "byte_list s" by (simp_all add: byte_list_def)
  let ?g = "[b64_char (nat x div 4), b64_char (nat x mod 4 * 16 + nat y div 16), b64_char (nat y mod 16 * 4 + nat z div 64),
      b64_char (nat z mod 64)]"
  have g: "?g \<in> {u. length u = 4 \<and> list_all is_b64 u}" by (simp add: b64_group_chars [OF b(1-6)])
  from 1(1) [OF b(7)] obtain v w where v: "toBase64 s = v @ w" "v \<in> stars {u. length u = 4 \<and> list_all is_b64 u}"
    "w = [] \<or> (\<exists>u. length u = 2 \<and> list_all is_b64 u \<and> w = u @ ''=='') \<or>
      (\<exists>u. length u = 3 \<and> list_all is_b64 u \<and> w = u @ ''='')" unfolding base64_rx_lang by blast
  have "toBase64 (x # y # z # s) = (?g @ v) @ w" by (simp only: toBase64.simps v(1) append_assoc)
  with stars.stars_step [OF g v(2)] v(3) show ?case unfolding base64_rx_lang by blast
next
  case (2 x y)
  then have b: "0 \<le> x" "x < 256" "0 \<le> y" "y < 256" by (simp_all add: byte_list_def)
  let ?u = "[b64_char (nat x div 4), b64_char (nat x mod 4 * 16 + nat y div 16), b64_char (nat y mod 16 * 4)]"
  have "length ?u = 3" "list_all is_b64 ?u" "toBase64 [x, y] = [] @ (?u @ ''='')"
    by (simp_all add: b64_group_chars [OF b(1-4) b(3,4)])
  then show ?case unfolding base64_rx_lang using stars.stars_Nil by blast
next
  case (3 x)
  then have b: "0 \<le> x" "x < 256" by (simp_all add: byte_list_def)
  let ?u = "[b64_char (nat x div 4), b64_char (nat x mod 4 * 16)]"
  have "length ?u = 2" "list_all is_b64 ?u" "toBase64 [x] = [] @ (?u @ ''=='')"
    by (simp_all add: b64_group_chars [OF b(1,2,1,2,1,2)])
  then show ?case unfolding base64_rx_lang using stars.stars_Nil by blast
next
  case 4
  show ?case unfolding base64_rx_lang toBase64.simps using stars.stars_Nil by blast
qed

lemma toBase64_length: "length (toBase64 bs) = 4 * ((length bs + 2) div 3)"
proof (induction bs rule: toBase64.induct)
  case (1 x y z s)
  have "(length (x # y # z # s) + 2) div 3 = Suc ((length s + 2) div 3)" by simp
  with 1 show ?case by simp
qed simp_all

end
