(* ===== verification/Signer_Guard.thy ===== *)
theory Signer_Guard
  imports Base64 Errors
begin

text \<open>
  The guard of \<^verbatim>\<open>chain/operator/signer-state-guard.mjs\<close>, which decides whether a stopped validator may take over the signer
  state of another home directory.

  The cryptography of Node and the file system are parameters. A run sees one snapshot of the file system; a file is
  given by the value that \<open>JSON.parse\<close> makes of it, with the keys of every object distinct.
\<close>

section \<open>Parameters\<close>

record guard_crypto =
  gc_sha256 :: "int list \<Rightarrow> int list"
  gc_publicDer :: "int list \<Rightarrow> js_exn + int list"
  gc_verify :: "int list \<Rightarrow> int list \<Rightarrow> int list \<Rightarrow> js_exn + bool"

record file_metadata =
  md_isDirectory :: bool
  md_isFile :: bool
  md_isSymbolicLink :: bool
  md_mode :: nat
  md_size :: nat

record file_system =
  fs_resolve :: "string \<Rightarrow> string"
  fs_lstat :: "string \<Rightarrow> js_exn + file_metadata"
  fs_realpath :: "string \<Rightarrow> js_exn + string"
  fs_readJson :: "string \<Rightarrow> js_exn + jsval"

section \<open>Texts and bytes\<close>

definition maximumFileBytes :: nat where
  "maximumFileBytes = 64 * 1024"

definition maximumHeight :: int where
  "maximumHeight = 9223372036854775807"

definition maximumRound :: int where
  "maximumRound = 2147483647"

definition ed25519Pkcs8SeedPrefix :: "int list" where
  "ed25519Pkcs8SeedPrefix = bytes_of_hex ''302e020100300506032b657004220420''"

definition ed25519SpkiPublicPrefix :: "int list" where
  "ed25519SpkiPublicPrefix = bytes_of_hex ''302a300506032b6570032100''"

text \<open>\<open>toUpperCase\<close>, here only on hexadecimal digits.\<close>

definition upper_hex_char :: "char \<Rightarrow> char" where
  "upper_hex_char c = (if is_lower c then char_of (code c - 32) else c)"

definition upperHex :: "string \<Rightarrow> string" where
  "upperHex s = map upper_hex_char s"

definition upper_hex_digit :: "char \<Rightarrow> bool" where
  "upper_hex_digit c \<longleftrightarrow> is_digit c \<or> 65 \<le> code c \<and> code c \<le> 70"

definition guardError :: "string \<Rightarrow> string \<Rightarrow> js_exn" where
  "guardError label message = PlainError (label @ '' '' @ message)"

definition decodeBoundedBase64 :: "jsval \<Rightarrow> string \<Rightarrow> js_exn + int list" where
  "decodeBoundedBase64 v label =
     (case v of
        JStr s \<Rightarrow>
          if length s < 4 \<or> length s > 16 * 1024 \<or> \<not> rx_test base64_rx s \<or> toBase64 (fromBase64 s) \<noteq> s
          then Inl (guardError label ''must be canonical bounded base64'') else Inr (fromBase64 s)
      | _ \<Rightarrow> Inl (guardError label ''must be canonical bounded base64''))"

definition decodeCanonicalBase64 :: "jsval \<Rightarrow> nat \<Rightarrow> string \<Rightarrow> js_exn + int list" where
  "decodeCanonicalBase64 v bytes label =
     bindR (decodeBoundedBase64 v label) (\<lambda>decoded.
     if length decoded \<noteq> bytes then Inl (guardError label (''must decode to '' @ show_nat bytes @ '' bytes''))
     else Inr decoded)"

text \<open>\<open>/^[0-9A-F]+$/u\<close> and \<open>/^[0-9A-F]{40}$/u\<close>\<close>

definition upper_hex_rx :: rx where
  "upper_hex_rx = anchored (rplus (Cls upper_hex_digit))"

definition consensus_address_rx :: rx where
  "consensus_address_rx = anchored (rtimes 40 (Cls upper_hex_digit))"

definition decodeCanonicalUpperHex :: "jsval \<Rightarrow> string \<Rightarrow> js_exn + int list" where
  "decodeCanonicalUpperHex v label =
     (case v of
        JStr s \<Rightarrow>
          if length s < 2 \<or> length s > 32 * 1024 \<or> odd (length s) \<or> \<not> rx_test upper_hex_rx s \<or>
             upperHex (hex_of_bytes (bytes_of_hex s)) \<noteq> s
          then Inl (guardError label ''must be canonical bounded uppercase hex'') else Inr (bytes_of_hex s)
      | _ \<Rightarrow> Inl (guardError label ''must be canonical bounded uppercase hex''))"

definition parseHeight :: "jsval \<Rightarrow> string \<Rightarrow> js_exn + int" where
  "parseHeight v label =
     (case v of
        JStr s \<Rightarrow>
          if \<not> rx_test canonical_decimal_rx s then Inl (guardError label ''must be a non-negative decimal string'')
          else if int (read_nat s) > maximumHeight then Inl (guardError label ''must fit a non-negative CometBFT int64'')
          else Inr (int (read_nat s))
      | _ \<Rightarrow> Inl (guardError label ''must be a non-negative decimal string''))"

section \<open>Objects of the files\<close>

definition assertExactKeys :: "jsval \<Rightarrow> string list \<Rightarrow> string \<Rightarrow> js_exn + fields" where
  "assertExactKeys v expected label =
     (case v of
        JObj fs \<Rightarrow> if sort (map fst fs) \<noteq> sort expected then Inl (guardError label ''fields differ from the contract'') else Inr fs
      | _ \<Rightarrow> Inl (guardError label ''must be an object''))"

definition assertAllowedKeys :: "jsval \<Rightarrow> string list \<Rightarrow> string list \<Rightarrow> string \<Rightarrow> js_exn + fields" where
  "assertAllowedKeys v required optional label =
     (case v of
        JObj fs \<Rightarrow>
          if list_ex (\<lambda>field. \<not> hasOwn fs field) required \<or> list_ex (\<lambda>field. field \<notin> set (required @ optional)) (map fst fs)
          then Inl (guardError label ''fields differ from the contract'') else Inr fs
      | _ \<Rightarrow> Inl (guardError label ''must be an object''))"

definition deriveEd25519Public :: "guard_crypto \<Rightarrow> int list \<Rightarrow> js_exn + int list" where
  "deriveEd25519Public G seed =
     bindR (gc_publicDer G (ed25519Pkcs8SeedPrefix @ seed)) (\<lambda>der. Inr (drop (length der - 32) der))"

definition ed25519PublicKey :: "int list \<Rightarrow> int list" where
  "ed25519PublicKey publicBytes = ed25519SpkiPublicPrefix @ publicBytes"

text \<open>
  The text that \<open>test\<close> makes of an address that need not be a string: an array with one element has the text of the
  element, and no other value has a text of 40 digits.
\<close>

fun addressText :: "jsval \<Rightarrow> string option" where
  "addressText (JStr s) = Some s"
| "addressText (JArr [v]) = addressText v"
| "addressText _ = None"

definition addressOf :: "guard_crypto \<Rightarrow> int list \<Rightarrow> string" where
  "addressOf G publicBytes = upperHex (hex_of_bytes (take 20 (gc_sha256 G publicBytes)))"

definition validateKey :: "guard_crypto \<Rightarrow> jsval \<Rightarrow> string \<Rightarrow> js_exn + unit" where
  "validateKey G key label =
     bindR (assertExactKeys key [''address'', ''priv_key'', ''pub_key''] label) (\<lambda>fs.
     bindR (assertExactKeys (fieldOf fs ''pub_key'') [''type'', ''value''] (label @ '' public key'')) (\<lambda>pub.
     bindR (assertExactKeys (fieldOf fs ''priv_key'') [''type'', ''value''] (label @ '' private key'')) (\<lambda>priv.
     bindR (throwIf (case addressText (fieldOf fs ''address'') of None \<Rightarrow> True | Some s \<Rightarrow> \<not> rx_test consensus_address_rx s)
       (guardError label ''address must be uppercase 20-byte hex'')) (\<lambda>_.
     bindR (throwIf (fieldOf pub ''type'' \<noteq> JStr ''tendermint/PubKeyEd25519'')
       (guardError label ''public key type is unsupported'')) (\<lambda>_.
     bindR (throwIf (fieldOf priv ''type'' \<noteq> JStr ''tendermint/PrivKeyEd25519'')
       (guardError label ''private key type is unsupported'')) (\<lambda>_.
     bindR (decodeCanonicalBase64 (fieldOf pub ''value'') 32 (label @ '' public key'')) (\<lambda>publicBytes.
     bindR (decodeCanonicalBase64 (fieldOf priv ''value'') 64 (label @ '' private key'')) (\<lambda>privateBytes.
     bindR (throwIf (drop 32 privateBytes \<noteq> publicBytes)
       (guardError label ''public and private key material disagree'')) (\<lambda>_.
     bindR (deriveEd25519Public G (take 32 privateBytes)) (\<lambda>derived.
     bindR (throwIf (derived \<noteq> publicBytes)
       (guardError label ''private-key seed does not derive the public key'')) (\<lambda>_.
     throwIf (JStr (addressOf G publicBytes) \<noteq> fieldOf fs ''address'')
       (guardError label ''address differs from the public key''))))))))))))"

record signer_state =
  st_height :: string
  st_round :: int
  st_step :: int
  st_signature :: jsval
  st_signbytes :: jsval

definition intField :: "jsval \<Rightarrow> int \<Rightarrow> js_exn \<Rightarrow> js_exn + int" where
  "intField v limit error =
     (case v of
        JNum x \<Rightarrow> if \<not> num_isSafeInteger x \<or> num_lt x (Fin 0) \<or> num_lt (Fin (of_int limit)) x then Inl error else Inr (num_int x)
      | _ \<Rightarrow> Inl error)"

definition verifySigned :: "guard_crypto \<Rightarrow> jsval \<Rightarrow> jsval \<Rightarrow> jsval \<Rightarrow> string \<Rightarrow> js_exn + unit" where
  "verifySigned G signature signbytes publicKeyBase64 label =
     bindR (decodeCanonicalBase64 signature 64 (label @ '' signature'')) (\<lambda>signatureBytes.
     bindR (decodeCanonicalUpperHex signbytes (label @ '' signbytes'')) (\<lambda>signBytes.
     bindR (decodeCanonicalBase64 publicKeyBase64 32 (label @ '' public key'')) (\<lambda>publicBytes.
     bindR (gc_verify G signBytes (ed25519PublicKey publicBytes) signatureBytes) (\<lambda>valid.
     throwIf (\<not> valid) (guardError label ''signature does not verify over signbytes'')))))"

definition checkSigned :: "guard_crypto \<Rightarrow> int \<Rightarrow> int \<Rightarrow> int \<Rightarrow> jsval \<Rightarrow> jsval \<Rightarrow> jsval \<Rightarrow> string \<Rightarrow> js_exn + unit" where
  "checkSigned G height rnd step signature signbytes publicKeyBase64 label =
     (if height = 0
      then throwIf (rnd \<noteq> 0 \<or> step \<noteq> 0 \<or> signature \<noteq> JNull)
             (guardError label ''initial state must be (0,0,0) and unsigned'')
      else bindR (throwIf (step < 1 \<or> signature = JNull)
             (guardError label ''signed state requires step 1 through 3'')) (\<lambda>_.
           verifySigned G signature signbytes publicKeyBase64 label))"

definition validateState :: "guard_crypto \<Rightarrow> jsval \<Rightarrow> string \<Rightarrow> jsval \<Rightarrow> js_exn + signer_state" where
  "validateState G v label publicKeyBase64 =
     bindR (assertAllowedKeys v [''height'', ''round'', ''step''] [''signature'', ''signbytes''] label) (\<lambda>fs.
     bindR (parseHeight (fieldOf fs ''height'') (label @ '' height'')) (\<lambda>height.
     bindR (intField (fieldOf fs ''round'') maximumRound
       (guardError label ''round must fit a non-negative CometBFT int32'')) (\<lambda>rnd.
     bindR (intField (fieldOf fs ''step'') 3 (guardError label ''step must be an integer from 0 through 3'')) (\<lambda>step.
     let signature = nullish (fieldOf fs ''signature'') JNull; signbytes = nullish (fieldOf fs ''signbytes'') JNull in
     bindR (throwIf ((signature \<noteq> JNull) \<noteq> (signbytes \<noteq> JNull))
       (guardError label ''signature and signbytes must appear together'')) (\<lambda>_.
     bindR (checkSigned G height rnd step signature signbytes publicKeyBase64 label) (\<lambda>_.
     Inr \<lparr>st_height = (case fieldOf fs ''height'' of JStr s \<Rightarrow> s | _ \<Rightarrow> []), st_round = rnd, st_step = step,
          st_signature = signature, st_signbytes = signbytes\<rparr>))))))"

section \<open>Reading a home\<close>

definition requireRealDirectory :: "file_system \<Rightarrow> string \<Rightarrow> string \<Rightarrow> js_exn + string" where
  "requireRealDirectory F target label =
     bindR (fs_lstat F target) (\<lambda>metadata.
     bindR (throwIf (\<not> md_isDirectory metadata \<or> md_isSymbolicLink metadata)
       (guardError label ''must be a real directory'')) (\<lambda>_.
     bindR (throwIf (md_mode metadata mod 512 \<noteq> 448) (guardError label ''mode must be 0700'')) (\<lambda>_.
     fs_realpath F target)))"

definition readStrictJson :: "file_system \<Rightarrow> string \<Rightarrow> string \<Rightarrow> js_exn + jsval" where
  "readStrictJson F target label =
     bindR (fs_lstat F target) (\<lambda>metadata.
     bindR (throwIf (\<not> md_isFile metadata \<or> md_isSymbolicLink metadata) (guardError label ''must be a regular file'')) (\<lambda>_.
     bindR (throwIf (md_mode metadata mod 512 \<noteq> 384) (guardError label ''mode must be 0600'')) (\<lambda>_.
     bindR (throwIf (md_size metadata < 2 \<or> md_size metadata > maximumFileBytes)
       (guardError label ''size is outside the allowed range'')) (\<lambda>_.
     bindR (mapErr (\<lambda>_. guardError label ''must contain valid JSON'') (fs_readJson F target)) (\<lambda>parsed.
     case parsed of JObj fs \<Rightarrow> Inr parsed | _ \<Rightarrow> Inl (guardError label ''must contain one JSON object''))))))"

text \<open>\<open>path.join\<close> of a real path, which is absolute and normal, and a relative path without dots.\<close>

definition joinPath :: "string \<Rightarrow> string \<Rightarrow> string" where
  "joinPath home relative = (if home = ''/'' then home @ relative else home @ ''/'' @ relative)"

record signer =
  sg_home :: string
  sg_key :: fields
  sg_state :: signer_state
  sg_label :: string

definition subField :: "fields \<Rightarrow> string \<Rightarrow> string \<Rightarrow> jsval" where
  "subField fs k k' = (case fieldOf fs k of JObj gs \<Rightarrow> fieldOf gs k' | _ \<Rightarrow> JUndefined)"

definition readSignerHome :: "guard_crypto \<Rightarrow> file_system \<Rightarrow> jsval \<Rightarrow> string \<Rightarrow> js_exn + signer" where
  "readSignerHome G F homeValue label =
     (case homeValue of
        JStr h \<Rightarrow>
          if h = [] then Inl (guardError label ''signer home is required'')
          else
            bindR (requireRealDirectory F (fs_resolve F h) (label @ '' home'')) (\<lambda>home.
            bindR (requireRealDirectory F (joinPath home ''config'') (label @ '' config'')) (\<lambda>_.
            bindR (requireRealDirectory F (joinPath home ''data'') (label @ '' data'')) (\<lambda>_.
            bindR (readStrictJson F (joinPath home ''config/priv_validator_key.json'') (label @ '' consensus key'')) (\<lambda>key.
            bindR (validateKey G key (label @ '' consensus key'')) (\<lambda>_.
            bindR (readStrictJson F (joinPath home ''data/priv_validator_state.json'') (label @ '' signer state'')) (\<lambda>raw.
            case key of
              JObj fs \<Rightarrow>
                bindR (validateState G raw (label @ '' signer state'') (subField fs ''pub_key'' ''value'')) (\<lambda>state.
                Inr \<lparr>sg_home = home, sg_key = fs, sg_state = state, sg_label = label\<rparr>)
            | _ \<Rightarrow> Inl (guardError label ''must be an object'')))))))
      | _ \<Rightarrow> Inl (guardError label ''signer home is required''))"

section \<open>The decision\<close>

fun compareValues :: "int list \<Rightarrow> int list \<Rightarrow> int" where
  "compareValues (l # ls) (r # rs) = (if l < r then -1 else if l > r then 1 else compareValues ls rs)"
| "compareValues _ _ = 0"

definition positionOf :: "signer_state \<Rightarrow> int list" where
  "positionOf s = [int (read_nat (st_height s)), st_round s, st_step s]"

definition comparePosition :: "signer_state \<Rightarrow> signer_state \<Rightarrow> int" where
  "comparePosition left right = compareValues (positionOf left) (positionOf right)"

definition publicPosition :: "signer_state \<Rightarrow> string \<times> int \<times> int" where
  "publicPosition s = (st_height s, st_round s, st_step s)"

text \<open>The fields of the report that are not constant.\<close>

record restore_report =
  rr_samePosition :: bool
  rr_currentPosition :: "string \<times> int \<times> int"
  rr_candidatePosition :: "string \<times> int \<times> int"
  rr_trustedMaximumHeight :: string

record guard_options =
  go_currentHome :: jsval
  go_candidateHome :: jsval
  go_validatorStopped :: bool
  go_trustedMaximumHeight :: jsval

definition checkCeiling :: "int \<Rightarrow> signer \<Rightarrow> js_exn + unit" where
  "checkCeiling trustedCeiling s =
     throwIf (int (read_nat (st_height (sg_state s))) > trustedCeiling)
       (guardError (sg_label s) ''signer state exceeds trusted maximum height'')"

definition validateSignerRestore :: "guard_crypto \<Rightarrow> file_system \<Rightarrow> guard_options \<Rightarrow> js_exn + restore_report" where
  "validateSignerRestore G F opts =
     bindR (throwIf (\<not> go_validatorStopped opts) (PlainError ''validator-stopped evidence is required'')) (\<lambda>_.
     bindR (parseHeight (go_trustedMaximumHeight opts) ''trusted maximum signer height'') (\<lambda>trustedCeiling.
     bindR (readSignerHome G F (go_currentHome opts) ''current'') (\<lambda>current.
     bindR (readSignerHome G F (go_candidateHome opts) ''candidate'') (\<lambda>candidate.
     bindR (throwIf (sg_home current = sg_home candidate)
       (PlainError ''current and candidate signer homes must differ'')) (\<lambda>_.
     bindR (throwIf (fieldOf (sg_key current) ''address'' \<noteq> fieldOf (sg_key candidate) ''address'' \<or>
                     subField (sg_key current) ''pub_key'' ''type'' \<noteq> subField (sg_key candidate) ''pub_key'' ''type'' \<or>
                     subField (sg_key current) ''pub_key'' ''value'' \<noteq> subField (sg_key candidate) ''pub_key'' ''value'')
       (PlainError ''candidate consensus identity differs from current signer'')) (\<lambda>_.
     bindR (checkCeiling trustedCeiling current) (\<lambda>_.
     bindR (checkCeiling trustedCeiling candidate) (\<lambda>_.
     let comparison = comparePosition (sg_state candidate) (sg_state current) in
     bindR (throwIf (comparison < 0) (PlainError ''candidate signer state is behind current signer state'')) (\<lambda>_.
     bindR (throwIf (comparison = 0 \<and>
                     (st_signbytes (sg_state candidate) \<noteq> st_signbytes (sg_state current) \<or>
                      st_signature (sg_state candidate) \<noteq> st_signature (sg_state current)))
       (PlainError ''same signer position has different sign bytes or signature'')) (\<lambda>_.
     Inr \<lparr>rr_samePosition = (comparison = 0), rr_currentPosition = publicPosition (sg_state current),
          rr_candidatePosition = publicPosition (sg_state candidate), rr_trustedMaximumHeight = show_int trustedCeiling\<rparr>))))))))))"

section \<open>The command line\<close>

definition initialOptions :: guard_options where
  "initialOptions =
     \<lparr>go_currentHome = JNull, go_candidateHome = JNull, go_validatorStopped = False, go_trustedMaximumHeight = JNull\<rparr>"

definition setOption :: "guard_options \<Rightarrow> string \<Rightarrow> string \<Rightarrow> guard_options" where
  "setOption opts option v =
     (if option = ''--current-home'' then opts\<lparr>go_currentHome := JStr v\<rparr>
      else if option = ''--candidate-home'' then opts\<lparr>go_candidateHome := JStr v\<rparr>
      else opts\<lparr>go_trustedMaximumHeight := JStr v\<rparr>)"

fun parseGuardArguments :: "guard_options \<Rightarrow> string list \<Rightarrow> js_exn + guard_options" where
  "parseGuardArguments opts [] = Inr opts"
| "parseGuardArguments opts (option # argv) =
     (if option = ''--validator-stopped'' then parseGuardArguments (opts\<lparr>go_validatorStopped := True\<rparr>) argv
      else if option \<notin> {''--current-home'', ''--candidate-home'', ''--trusted-maximum-height''}
      then Inl (PlainError (''unknown signer-state guard option '' @ option))
      else case argv of
          [] \<Rightarrow> Inl (PlainError (option @ '' requires a path''))
        | v # rest \<Rightarrow>
            if v = [] \<or> take 2 v = ''--'' then Inl (PlainError (option @ '' requires a path''))
            else parseGuardArguments (setOption opts option v) rest)"

definition guardMain :: "guard_crypto \<Rightarrow> file_system \<Rightarrow> string list \<Rightarrow> js_exn + restore_report" where
  "guardMain G F argv = bindR (parseGuardArguments initialOptions argv) (validateSignerRestore G F)"


section \<open>Positions\<close>

text \<open>The order of positions is the lexicographic one.\<close>

lemma compareValues_eq: "length ls = length rs \<Longrightarrow> compareValues ls rs = 0 \<longleftrightarrow> ls = rs"
  by (induction ls rs rule: compareValues.induct) auto

lemma compareValues_less: "length ls = length rs \<Longrightarrow> compareValues ls rs < 0 \<longleftrightarrow> ls < rs"
  by (induction ls rs rule: compareValues.induct) auto

lemma comparePosition_iff:
  "comparePosition a b = 0 \<longleftrightarrow> positionOf a = positionOf b" "comparePosition a b < 0 \<longleftrightarrow> positionOf a < positionOf b"
  unfolding comparePosition_def by (rule compareValues_eq compareValues_less; simp add: positionOf_def)+

section \<open>What an accepted home holds\<close>

lemma decodeBoundedBase64_Inr:
  "decodeBoundedBase64 v label = Inr bs \<Longrightarrow> v = JStr (toBase64 bs)"
  by (cases v) (auto simp: decodeBoundedBase64_def split: if_splits)

lemma decodeCanonicalBase64_Inr:
  "decodeCanonicalBase64 v n label = Inr bs \<Longrightarrow> v = JStr (toBase64 bs) \<and> length bs = n"
  by (auto simp: decodeCanonicalBase64_def dest: decodeBoundedBase64_Inr split: if_splits)

text \<open>A key file of an Ed25519 identity: its parts agree, and the address is that of the public key.\<close>

definition key_ok :: "guard_crypto \<Rightarrow> fields \<Rightarrow> int list \<Rightarrow> bool" where
  "key_ok G fs publicBytes \<longleftrightarrow>
     length publicBytes = 32 \<and> subField fs ''pub_key'' ''value'' = JStr (toBase64 publicBytes) \<and>
     fieldOf fs ''address'' = JStr (addressOf G publicBytes) \<and>
     (\<exists>seed. length seed = 32 \<and> deriveEd25519Public G seed = Inr publicBytes \<and>
        subField fs ''priv_key'' ''value'' = JStr (toBase64 (seed @ publicBytes)))"

lemma assertExactKeys_Inr: "assertExactKeys v ks label = Inr fs \<Longrightarrow> v = JObj fs"
  by (cases v) (auto simp: assertExactKeys_def split: if_splits)

lemma validateKey_Inr:
  assumes "validateKey G (JObj fs) label = Inr u"
  shows "\<exists>publicBytes l. key_ok G fs publicBytes \<and> decodeCanonicalBase64 (subField fs ''pub_key'' ''value'') 32 l = Inr publicBytes"
proof -
  from assms obtain gs pub priv publicBytes privateBytes where
    f: "assertExactKeys (JObj fs) [''address'', ''priv_key'', ''pub_key''] label = Inr gs"
    "assertExactKeys (fieldOf gs ''pub_key'') [''type'', ''value''] (label @ '' public key'') = Inr pub"
    "assertExactKeys (fieldOf gs ''priv_key'') [''type'', ''value''] (label @ '' private key'') = Inr priv"
    and d: "decodeCanonicalBase64 (fieldOf pub ''value'') 32 (label @ '' public key'') = Inr publicBytes"
    "decodeCanonicalBase64 (fieldOf priv ''value'') 64 (label @ '' private key'') = Inr privateBytes"
    and k: "drop 32 privateBytes = publicBytes" "deriveEd25519Public G (take 32 privateBytes) = Inr publicBytes"
    "JStr (addressOf G publicBytes) = fieldOf gs ''address''"
    unfolding validateKey_def by (elim bindR_InrE) (simp only: throwIf_Inr, blast)
  have g: "gs = fs" "fieldOf fs ''pub_key'' = JObj pub" "fieldOf fs ''priv_key'' = JObj priv"
    using assertExactKeys_Inr [OF f(1)] assertExactKeys_Inr [OF f(2)] assertExactKeys_Inr [OF f(3)] by auto
  have p: "privateBytes = take 32 privateBytes @ publicBytes" using k(1) append_take_drop_id [of 32 privateBytes] by simp
  have "length (take 32 privateBytes) = 32" using decodeCanonicalBase64_Inr [OF d(2)] by simp
  moreover have "subField fs ''priv_key'' ''value'' = JStr (toBase64 (take 32 privateBytes @ publicBytes))"
    using decodeCanonicalBase64_Inr [OF d(2)] g(3) p by (simp add: subField_def)
  moreover have v: "subField fs ''pub_key'' ''value'' = fieldOf pub ''value''" using g(2) by (simp add: subField_def)
  moreover have "fieldOf fs ''address'' = JStr (addressOf G publicBytes)" using k(3) g(1) by simp
  ultimately have "key_ok G fs publicBytes"
    using decodeCanonicalBase64_Inr [OF d(1)] k(2) unfolding key_ok_def
    by (intro conjI exI [of _ "take 32 privateBytes"]) simp_all
  with d(1) v show ?thesis by auto
qed

text \<open>A signer state is the initial one, or carries a signature of the key over its sign bytes.\<close>

definition state_ok :: "guard_crypto \<Rightarrow> int list \<Rightarrow> signer_state \<Rightarrow> bool" where
  "state_ok G publicBytes s \<longleftrightarrow>
     canonical_decimal (st_height s) \<and> int (read_nat (st_height s)) \<le> maximumHeight \<and>
     0 \<le> st_round s \<and> st_round s \<le> maximumRound \<and> 0 \<le> st_step s \<and> st_step s \<le> 3 \<and>
     (if read_nat (st_height s) = 0
      then st_round s = 0 \<and> st_step s = 0 \<and> st_signature s = JNull \<and> st_signbytes s = JNull
      else 1 \<le> st_step s \<and>
        (\<exists>signature signBytes. st_signature s = JStr (toBase64 signature) \<and> length signature = 64 \<and>
           decodeCanonicalUpperHex (st_signbytes s) [] = Inr signBytes \<and>
           gc_verify G signBytes (ed25519PublicKey publicBytes) signature = Inr True))"

lemma parseHeight_Inr:
  "parseHeight v label = Inr h \<Longrightarrow> \<exists>s. v = JStr s \<and> canonical_decimal s \<and> h = int (read_nat s) \<and> h \<le> maximumHeight"
  by (cases v) (auto simp: parseHeight_def split: if_splits)

lemma intField_Inr: "intField v limit e = Inr n \<Longrightarrow> 0 \<le> n \<and> n \<le> limit"
proof -
  assume i: "intField v limit e = Inr n"
  then obtain x where x: "num_isSafeInteger x" "\<not> num_lt x (Fin 0)" "\<not> num_lt (Fin (of_int limit)) x" "n = num_int x"
    by (cases v) (auto simp: intField_def split: if_splits)
  from x(1) obtain m where "x = NInt m" by (rule num_isSafeIntegerE)
  with x show ?thesis by simp
qed

lemma decodeCanonicalUpperHex_label: "decodeCanonicalUpperHex v label = Inr bs \<Longrightarrow> decodeCanonicalUpperHex v label' = Inr bs"
  by (cases v) (auto simp: decodeCanonicalUpperHex_def split: if_splits)

lemma decodeBoundedBase64_value: "decodeBoundedBase64 (JStr s) label = Inr bs \<Longrightarrow> bs = fromBase64 s"
  by (simp add: decodeBoundedBase64_def split: if_splits)

lemma decodeCanonicalBase64_value: "decodeCanonicalBase64 (JStr s) n label = Inr bs \<Longrightarrow> bs = fromBase64 s"
  by (auto simp: decodeCanonicalBase64_def simp del: fromBase64.simps dest: decodeBoundedBase64_value split: if_splits)

lemma decodeCanonicalBase64_unique:
  assumes "decodeCanonicalBase64 v n label = Inr a" "decodeCanonicalBase64 v n' label' = Inr b"
  shows "a = b"
proof -
  obtain s where v: "v = JStr s" using decodeCanonicalBase64_Inr [OF assms(1)] by blast
  show ?thesis using assms [unfolded v, THEN decodeCanonicalBase64_value] by simp
qed

lemma verifySigned_Inr:
  assumes "verifySigned G signature signbytes key label = Inr u"
  obtains sig sb pub where "decodeCanonicalBase64 key 32 (label @ '' public key'') = Inr pub"
    "signature = JStr (toBase64 sig)" "length sig = 64" "decodeCanonicalUpperHex signbytes [] = Inr sb"
    "gc_verify G sb (ed25519PublicKey pub) sig = Inr True"
proof -
  from assms obtain sig sb pub where a: "decodeCanonicalBase64 signature 64 (label @ '' signature'') = Inr sig"
    "decodeCanonicalUpperHex signbytes (label @ '' signbytes'') = Inr sb"
    "decodeCanonicalBase64 key 32 (label @ '' public key'') = Inr pub" "gc_verify G sb (ed25519PublicKey pub) sig = Inr True"
    unfolding verifySigned_def by auto
  show thesis
    using that [OF a(3) _ _ decodeCanonicalUpperHex_label [OF a(2)] a(4)] decodeCanonicalBase64_Inr [OF a(1)] by blast
qed

lemma validateState_Inr:
  assumes "validateState G v label key = Inr s" "\<And>l pub'. decodeCanonicalBase64 key 32 l = Inr pub' \<Longrightarrow> pub' = pub"
  shows "state_ok G pub s"
proof -
  from assms(1) obtain fs height rnd step where
    h: "parseHeight (fieldOf fs ''height'') (label @ '' height'') = Inr height"
    and r: "intField (fieldOf fs ''round'') maximumRound (guardError label ''round must fit a non-negative CometBFT int32'') = Inr rnd"
    "intField (fieldOf fs ''step'') 3 (guardError label ''step must be an integer from 0 through 3'') = Inr step"
    and s: "s = \<lparr>st_height = (case fieldOf fs ''height'' of JStr s \<Rightarrow> s | _ \<Rightarrow> []), st_round = rnd, st_step = step,
          st_signature = nullish (fieldOf fs ''signature'') JNull, st_signbytes = nullish (fieldOf fs ''signbytes'') JNull\<rparr>"
    and t: "(st_signature s \<noteq> JNull) = (st_signbytes s \<noteq> JNull)"
    and c: "checkSigned G height rnd step (st_signature s) (st_signbytes s) key label = Inr ()"
    unfolding validateState_def Let_def by (auto simp del: throwIf_Inr simp: throwIf_def split: if_splits)
  obtain ht where ht: "fieldOf fs ''height'' = JStr ht" "canonical_decimal ht" "height = int (read_nat ht)" "height \<le> maximumHeight"
    using parseHeight_Inr [OF h] by blast
  have common: "st_height s = ht" "st_round s = rnd" "st_step s = step" by (simp_all add: s ht(1))
  note bounds = intField_Inr [OF r(1)] intField_Inr [OF r(2)]
  show ?thesis
  proof (cases "height = 0")
    case True
    then have "rnd = 0" "step = 0" "st_signature s = JNull" using c by (simp_all add: checkSigned_def)
    with True t ht bounds show ?thesis by (simp add: state_ok_def common)
  next
    case False
    then have st: "1 \<le> step" and v: "verifySigned G (st_signature s) (st_signbytes s) key label = Inr ()"
      using c by (simp_all add: checkSigned_def bindR_Inr_iff)
    obtain sig sb pub' where p: "decodeCanonicalBase64 key 32 (label @ '' public key'') = Inr pub'"
      "st_signature s = JStr (toBase64 sig)" "length sig = 64" "decodeCanonicalUpperHex (st_signbytes s) [] = Inr sb"
      "gc_verify G sb (ed25519PublicKey pub') sig = Inr True"
      by (rule verifySigned_Inr [OF v])
    have "pub' = pub" by (rule assms(2) [OF p(1)])
    with p False st ht bounds show ?thesis unfolding state_ok_def common by (auto intro: exI [of _ sig])
  qed
qed


lemma readSignerHome_Inr:
  assumes "readSignerHome G F home label = Inr s"
  shows "\<exists>pub l. key_ok G (sg_key s) pub \<and> state_ok G pub (sg_state s) \<and> sg_label s = label \<and>
    decodeCanonicalBase64 (subField (sg_key s) ''pub_key'' ''value'') 32 l = Inr pub"
proof -
  from assms obtain fs raw u st where k: "validateKey G (JObj fs) (label @ '' consensus key'') = Inr u"
    and v: "validateState G raw (label @ '' signer state'') (subField fs ''pub_key'' ''value'') = Inr st"
    and s: "sg_key s = fs" "sg_state s = st" "sg_label s = label"
    by (cases home) (auto simp: readSignerHome_def split: if_splits jsval.splits)
  obtain pub l where pub: "key_ok G fs pub" "decodeCanonicalBase64 (subField fs ''pub_key'' ''value'') 32 l = Inr pub"
    using validateKey_Inr [OF k] by blast
  have "state_ok G pub st" by (rule validateState_Inr [OF v]) (rule decodeCanonicalBase64_unique [OF _ pub(2)])
  with pub s show ?thesis by blast
qed

lemma validateSignerRestore_Inr:
  assumes "validateSignerRestore G F opts = Inr r"
  obtains trustedCeiling cur cand where "go_validatorStopped opts"
    "parseHeight (go_trustedMaximumHeight opts) ''trusted maximum signer height'' = Inr trustedCeiling"
    "readSignerHome G F (go_currentHome opts) ''current'' = Inr cur"
    "readSignerHome G F (go_candidateHome opts) ''candidate'' = Inr cand" "sg_home cur \<noteq> sg_home cand"
    "fieldOf (sg_key cur) ''address'' = fieldOf (sg_key cand) ''address''"
    "subField (sg_key cur) ''pub_key'' ''value'' = subField (sg_key cand) ''pub_key'' ''value''"
    "int (read_nat (st_height (sg_state cur))) \<le> trustedCeiling" "int (read_nat (st_height (sg_state cand))) \<le> trustedCeiling"
    "\<not> comparePosition (sg_state cand) (sg_state cur) < 0"
    "comparePosition (sg_state cand) (sg_state cur) = 0 \<longrightarrow>
       st_signbytes (sg_state cand) = st_signbytes (sg_state cur) \<and> st_signature (sg_state cand) = st_signature (sg_state cur)"
    "r = \<lparr>rr_samePosition = (comparePosition (sg_state cand) (sg_state cur) = 0),
          rr_currentPosition = publicPosition (sg_state cur), rr_candidatePosition = publicPosition (sg_state cand),
          rr_trustedMaximumHeight = show_int trustedCeiling\<rparr>"
  using assms unfolding validateSignerRestore_def checkCeiling_def Let_def
  by (elim bindR_InrE) (simp only: throwIf_Inr de_Morgan_disj de_Morgan_conj not_less not_not imp_conv_disj Inr_inject, blast)

text \<open>What the guard promises of two signers.\<close>

definition may_replace :: "guard_crypto \<Rightarrow> signer \<Rightarrow> signer \<Rightarrow> bool" where
  "may_replace G cur cand \<longleftrightarrow>
     sg_home cur \<noteq> sg_home cand \<and>
     (\<exists>pub. key_ok G (sg_key cur) pub \<and> key_ok G (sg_key cand) pub \<and>
        state_ok G pub (sg_state cur) \<and> state_ok G pub (sg_state cand)) \<and>
     positionOf (sg_state cur) \<le> positionOf (sg_state cand) \<and>
     (positionOf (sg_state cur) = positionOf (sg_state cand) \<longrightarrow>
        st_signbytes (sg_state cand) = st_signbytes (sg_state cur) \<and> st_signature (sg_state cand) = st_signature (sg_state cur))"

lemma validateSignerRestore_sound:
  assumes "validateSignerRestore G F opts = Inr r"
  shows "\<exists>cur cand trustedCeiling. go_validatorStopped opts \<and>
    readSignerHome G F (go_currentHome opts) ''current'' = Inr cur \<and>
    readSignerHome G F (go_candidateHome opts) ''candidate'' = Inr cand \<and> may_replace G cur cand \<and>
    parseHeight (go_trustedMaximumHeight opts) ''trusted maximum signer height'' = Inr trustedCeiling \<and>
    int (read_nat (st_height (sg_state cand))) \<le> trustedCeiling \<and>
    (rr_samePosition r \<longleftrightarrow> positionOf (sg_state cur) = positionOf (sg_state cand))"
proof -
  obtain trustedCeiling cur cand where a: "go_validatorStopped opts"
    "parseHeight (go_trustedMaximumHeight opts) ''trusted maximum signer height'' = Inr trustedCeiling"
    and b: "readSignerHome G F (go_currentHome opts) ''current'' = Inr cur"
    "readSignerHome G F (go_candidateHome opts) ''candidate'' = Inr cand" "sg_home cur \<noteq> sg_home cand"
    and k: "subField (sg_key cur) ''pub_key'' ''value'' = subField (sg_key cand) ''pub_key'' ''value''"
    and h: "int (read_nat (st_height (sg_state cand))) \<le> trustedCeiling"
    and c: "\<not> comparePosition (sg_state cand) (sg_state cur) < 0"
    "comparePosition (sg_state cand) (sg_state cur) = 0 \<longrightarrow>
       st_signbytes (sg_state cand) = st_signbytes (sg_state cur) \<and> st_signature (sg_state cand) = st_signature (sg_state cur)"
    and r: "rr_samePosition r \<longleftrightarrow> comparePosition (sg_state cand) (sg_state cur) = 0"
    by (rule validateSignerRestore_Inr [OF assms]) simp
  obtain pub l where p: "key_ok G (sg_key cur) pub" "state_ok G pub (sg_state cur)"
    "decodeCanonicalBase64 (subField (sg_key cur) ''pub_key'' ''value'') 32 l = Inr pub"
    using readSignerHome_Inr [OF b(1)] by blast
  obtain pub' l' where p': "key_ok G (sg_key cand) pub'" "state_ok G pub' (sg_state cand)"
    "decodeCanonicalBase64 (subField (sg_key cand) ''pub_key'' ''value'') 32 l' = Inr pub'"
    using readSignerHome_Inr [OF b(2)] by blast
  have "pub' = pub" using decodeCanonicalBase64_unique [OF p'(3) [folded k] p(3)] .
  with p p' b(3) c have "may_replace G cur cand"
    unfolding may_replace_def comparePosition_iff by (auto simp: not_less)
  with a b h r show ?thesis unfolding comparePosition_iff by (metis (no_types))
qed

text \<open>
  C17: The guard admits a restore only for a stopped validator and two different homes of one consensus identity, whose keys
  agree with their seeds and whose states are initial or signed by that identity; the candidate is not behind the current
  position, not above the trusted height, and at the same position it holds the same sign bytes and signature.
\<close>

theorem restore_never_regresses:
  assumes "validateSignerRestore G F opts = Inr r"
  shows "\<exists>cur cand trustedCeiling. go_validatorStopped opts \<and>
    readSignerHome G F (go_currentHome opts) ''current'' = Inr cur \<and>
    readSignerHome G F (go_candidateHome opts) ''candidate'' = Inr cand \<and> may_replace G cur cand \<and>
    parseHeight (go_trustedMaximumHeight opts) ''trusted maximum signer height'' = Inr trustedCeiling \<and>
    int (read_nat (st_height (sg_state cand))) \<le> trustedCeiling \<and>
    (rr_samePosition r \<longleftrightarrow> positionOf (sg_state cur) = positionOf (sg_state cand))"
  by (rule validateSignerRestore_sound [OF assms])

section \<open>Runs of a validator\<close>

text \<open>
  A validator between guarded restores, with everything signed under its identity that a state of it recorded. The
  signer itself, CometBFT, signs anew only at a later position. Each restore may see its own file system.
\<close>

inductive guarded_run :: "guard_crypto \<Rightarrow> signer_state \<Rightarrow> (int list \<times> jsval) list \<Rightarrow> bool" for G where
  start: "guarded_run G s [(positionOf s, st_signbytes s)]"
| sign: "guarded_run G s entries \<Longrightarrow> positionOf s < positionOf s' \<Longrightarrow>
    guarded_run G s' ((positionOf s', st_signbytes s') # entries)"
| restore: "guarded_run G (sg_state cur) entries \<Longrightarrow> validateSignerRestore G F opts = Inr r \<Longrightarrow>
    readSignerHome G F (go_currentHome opts) ''current'' = Inr cur \<Longrightarrow>
    readSignerHome G F (go_candidateHome opts) ''candidate'' = Inr cand \<Longrightarrow>
    guarded_run G (sg_state cand) ((positionOf (sg_state cand), st_signbytes (sg_state cand)) # entries)"

definition consistent_log :: "signer_state \<Rightarrow> (int list \<times> jsval) list \<Rightarrow> bool" where
  "consistent_log s entries \<longleftrightarrow>
     (\<forall>(p, b) \<in> set entries. p < positionOf s \<or> p = positionOf s \<and> b = st_signbytes s) \<and>
     (\<forall>(p, b) \<in> set entries. \<forall>(q, c) \<in> set entries. p = q \<longrightarrow> b = c)"

lemma consistent_log_later:
  assumes "consistent_log s entries" "positionOf s \<le> positionOf s'"
    and "positionOf s = positionOf s' \<Longrightarrow> st_signbytes s' = st_signbytes s"
  shows "consistent_log s' ((positionOf s', st_signbytes s') # entries)"
proof -
  have old: "p < positionOf s' \<or> p = positionOf s' \<and> b = st_signbytes s'" if "(p, b) \<in> set entries" for p b
    using that assms unfolding consistent_log_def by (cases "positionOf s = positionOf s'") (fastforce dest: order.strict_trans2 order.strict_trans)+
  then show ?thesis using assms(1) unfolding consistent_log_def by fastforce
qed

lemma guarded_run_consistent: "guarded_run G s entries \<Longrightarrow> consistent_log s entries"
proof (induction rule: guarded_run.induct)
  case (start s)
  show ?case by (simp add: consistent_log_def)
next
  case (sign s entries s')
  then show ?case by (intro consistent_log_later [of s]) auto
next
  case (restore cur entries F opts r cand)
  have "may_replace G cur cand" using validateSignerRestore_sound [OF restore(2)] restore(3,4) by auto
  with restore(5) show ?case by (intro consistent_log_later [of "sg_state cur"]) (auto simp: may_replace_def)
qed


section \<open>Sample homes\<close>

definition sample_public :: "int list" where
  "sample_public = replicate 32 1"

definition sample_crypto :: guard_crypto where
  "sample_crypto =
     \<lparr>gc_sha256 = (\<lambda>bs. replicate 32 0), gc_publicDer = (\<lambda>der. Inr (ed25519SpkiPublicPrefix @ sample_public)),
      gc_verify = (\<lambda>bytes key signature. Inr True)\<rparr>"

definition sample_key :: jsval where
  "sample_key =
     JObj [(''address'', JStr (replicate 40 CHR ''0'')),
           (''pub_key'', JObj [(''type'', JStr ''tendermint/PubKeyEd25519''), (''value'', JStr (toBase64 sample_public))]),
           (''priv_key'', JObj [(''type'', JStr ''tendermint/PrivKeyEd25519''),
              (''value'', JStr (toBase64 (replicate 32 0 @ sample_public)))])]"

definition sample_state :: "string \<Rightarrow> jsval" where
  "sample_state h =
     JObj [(''height'', JStr h), (''round'', JInt 0), (''step'', JInt 1),
           (''signature'', JStr (toBase64 (replicate 64 0))), (''signbytes'', JStr ''AB'')]"

definition sample_signer_state :: "string \<Rightarrow> signer_state" where
  "sample_signer_state h =
     \<lparr>st_height = h, st_round = 0, st_step = 1, st_signature = JStr (toBase64 (replicate 64 0)), st_signbytes = JStr ''AB''\<rparr>"

definition sample_files :: file_system where
  "sample_files =
     \<lparr>fs_resolve = id,
      fs_lstat = (\<lambda>p. Inr (if drop (length p - 5) p = ''.json''
         then \<lparr>md_isDirectory = False, md_isFile = True, md_isSymbolicLink = False, md_mode = 33152, md_size = 100\<rparr>
         else \<lparr>md_isDirectory = True, md_isFile = False, md_isSymbolicLink = False, md_mode = 16832, md_size = 0\<rparr>)),
      fs_realpath = Inr,
      fs_readJson = (\<lambda>p. Inr (if p = ''/a/data/priv_validator_state.json'' then sample_state ''5''
         else if p = ''/b/data/priv_validator_state.json'' then sample_state ''6'' else sample_key))\<rparr>"

definition sample_guard_options :: guard_options where
  "sample_guard_options =
     \<lparr>go_currentHome = JStr ''/a'', go_candidateHome = JStr ''/b'', go_validatorStopped = True,
      go_trustedMaximumHeight = JStr ''6''\<rparr>"

lemma decode_encoded:
  assumes "byte_list bs" "length bs = n" "1 \<le> n" "n \<le> 64"
  shows "decodeCanonicalBase64 (JStr (toBase64 bs)) n label = Inr bs"
proof -
  have "3 \<le> n + 2" "n + 2 \<le> 66" using assms by simp_all
  then have "1 \<le> (n + 2) div 3" "(n + 2) div 3 \<le> 22" by (simp_all add: div_le_mono [of _ 66 3, simplified] Suc_le_eq div_greater_zero_iff)
  then have "4 \<le> length (toBase64 bs)" "length (toBase64 bs) \<le> 16 * 1024" unfolding toBase64_length assms(2) by simp_all
  then show ?thesis
    using from_to_base64 [OF assms(1)] toBase64_shape [OF assms(1)] assms(2)
    by (simp add: decodeCanonicalBase64_def decodeBoundedBase64_def)
qed

lemma sample_decoded:
  "decodeCanonicalBase64 (JStr (toBase64 sample_public)) 32 label = Inr sample_public"
  "decodeCanonicalBase64 (JStr (toBase64 (replicate 32 0 @ sample_public))) 64 label = Inr (replicate 32 0 @ sample_public)"
  "decodeCanonicalBase64 (JStr (toBase64 (replicate 64 0))) 64 label = Inr (replicate 64 0)"
  by (rule decode_encoded; simp add: byte_list_def sample_public_def list_all_iff)+

lemma sample_address:
  "addressOf sample_crypto bs = replicate 40 CHR ''0''" "rx_test consensus_address_rx (replicate 40 CHR ''0'')"
proof -
  have h: "hex_of_byte 0 = ''00''" by code_simp
  have u: "upper_hex_char CHR ''0'' = CHR ''0''" by (simp add: upper_hex_char_def is_lower_def)
  have "hex_of_bytes (replicate n 0) = replicate (2 * n) CHR ''0''" for n by (induction n) (simp_all add: h)
  then show "addressOf sample_crypto bs = replicate 40 CHR ''0''"
    by (simp add: addressOf_def sample_crypto_def upperHex_def u del: replicate.simps)
  show "rx_test consensus_address_rx (replicate 40 CHR ''0'')"
    unfolding consensus_address_rx_def
    by (subst rx_test_anchored, simp, simp only: lang_times_Cls) (simp add: list_all_iff upper_hex_digit_def is_digit_def)
qed

lemma sample_key_valid: "validateKey sample_crypto sample_key label = Inr ()"
proof -
  have s: "sort (map fst [(''address'', a), (''pub_key'', b), (''priv_key'', c)]) = sort [''address'', ''priv_key'', ''pub_key'']"
    for a b c :: jsval by code_simp
  have t: "sort (map fst [(''type'', a), (''value'', b)]) = sort [''type'', ''value'']" for a b :: jsval by simp
  have d: "deriveEd25519Public sample_crypto (replicate 32 0) = Inr sample_public"
    by (simp add: deriveEd25519Public_def sample_crypto_def sample_public_def)
  show ?thesis
    unfolding validateKey_def sample_key_def
    by (simp add: assertExactKeys_def s t sample_decoded d sample_address fieldOf_def del: replicate.simps list.map sort_key_simps)
qed

lemma sample_signbytes: "\<exists>bs. decodeCanonicalUpperHex (JStr ''AB'') label = Inr bs"
proof -
  have "rx_test upper_hex_rx ''AB''"
    unfolding upper_hex_rx_def
    by (subst rx_test_anchored, simp, simp only: lang_rplus_Cls) (simp add: upper_hex_digit_def is_digit_def)
  moreover have "upperHex (hex_of_bytes (bytes_of_hex ''AB'')) = ''AB''" by code_simp
  ultimately show ?thesis by (simp add: decodeCanonicalUpperHex_def)
qed

lemma sample_heights: "canonical_decimal ''5''" "canonical_decimal ''6''" "read_nat ''5'' = 5" "read_nat ''6'' = 6"
  by code_simp+

lemma sample_state_valid:
  assumes "canonical_decimal h" "0 < read_nat h" "read_nat h \<le> 6"
  shows "validateState sample_crypto (sample_state h) label (JStr (toBase64 sample_public)) = Inr (sample_signer_state h)"
proof -
  obtain bs where b: "decodeCanonicalUpperHex (JStr ''AB'') (label @ '' signbytes'') = Inr bs" using sample_signbytes by blast
  have k: "assertAllowedKeys (sample_state h) [''height'', ''round'', ''step''] [''signature'', ''signbytes''] label =
      Inr [(''height'', JStr h), (''round'', JInt 0), (''step'', JInt 1),
           (''signature'', JStr (toBase64 (replicate 64 0))), (''signbytes'', JStr ''AB'')]"
    by (simp add: assertAllowedKeys_def sample_state_def hasOwn_def)
  have h: "parseHeight (JStr h) l = Inr (int (read_nat h))" for l
    using assms by (simp add: parseHeight_def maximumHeight_def)
  have i: "intField (JInt 0) maximumRound e = Inr 0" "intField (JInt 1) 3 e = Inr 1" for e
    by (simp_all add: intField_def max_safe_integer_def maximumRound_def)
  have "checkSigned sample_crypto (int (read_nat h)) 0 1 (JStr (toBase64 (replicate 64 0))) (JStr ''AB'')
      (JStr (toBase64 sample_public)) label = Inr ()"
    using assms(2) by (simp add: checkSigned_def verifySigned_def sample_decoded b del: replicate.simps) (simp add: sample_crypto_def)
  then show ?thesis
    unfolding validateState_def k
    by (simp add: h i [simplified] nullish_def isNullish_def sample_signer_state_def Let_def del: replicate.simps)
qed

definition sample_signer :: "string \<Rightarrow> string \<Rightarrow> string \<Rightarrow> signer" where
  "sample_signer home label h =
     \<lparr>sg_home = home, sg_key = (case sample_key of JObj fs \<Rightarrow> fs | _ \<Rightarrow> []), sg_state = sample_signer_state h, sg_label = label\<rparr>"

lemma sample_read:
  assumes "canonical_decimal h" "0 < read_nat h" "read_nat h \<le> 6" "c = CHR ''a'' \<and> h = ''5'' \<or> c = CHR ''b'' \<and> h = ''6''"
  shows "readSignerHome sample_crypto sample_files (JStr [CHR ''/'', c]) label = Inr (sample_signer [CHR ''/'', c] label h)"
proof -
  let ?home = "[CHR ''/'', c]"
  have dirs: "requireRealDirectory sample_files ?home l = Inr ?home"
    "requireRealDirectory sample_files (joinPath ?home ''config'') l = Inr (joinPath ?home ''config'')"
    "requireRealDirectory sample_files (joinPath ?home ''data'') l = Inr (joinPath ?home ''data'')" for l
    using assms(4) by (auto simp: requireRealDirectory_def sample_files_def joinPath_def)
  have files: "readStrictJson sample_files (joinPath ?home ''config/priv_validator_key.json'') l = Inr sample_key"
    "readStrictJson sample_files (joinPath ?home ''data/priv_validator_state.json'') l = Inr (sample_state h)" for l
    using assms(4)
    by (auto simp: readStrictJson_def sample_files_def joinPath_def maximumFileBytes_def sample_key_def sample_state_def)
  obtain fs where fs: "sample_key = JObj fs" "subField fs ''pub_key'' ''value'' = JStr (toBase64 sample_public)"
    by (simp add: sample_key_def subField_def fieldOf_def)
  have r: "fs_resolve sample_files ?home = ?home" by (simp add: sample_files_def)
  show ?thesis
    unfolding readSignerHome_def
    by (simp add: r dirs files sample_key_valid) (simp add: fs sample_state_valid [OF assms(1-3)] sample_signer_def)
qed

lemma sample_homes:
  "readSignerHome sample_crypto sample_files (go_currentHome sample_guard_options) ''current'' = Inr (sample_signer ''/a'' ''current'' ''5'')"
  "readSignerHome sample_crypto sample_files (go_candidateHome sample_guard_options) ''candidate'' = Inr (sample_signer ''/b'' ''candidate'' ''6'')"
  using sample_read [of "''5''" "CHR ''a''"] sample_read [of "''6''" "CHR ''b''"] sample_heights
  by (simp_all add: sample_guard_options_def)

lemma sample_restore: "\<exists>r. validateSignerRestore sample_crypto sample_files sample_guard_options = Inr r \<and> \<not> rr_samePosition r"
proof -
  have h: "parseHeight (go_trustedMaximumHeight sample_guard_options) ''trusted maximum signer height'' = Inr 6"
    by (simp add: parseHeight_def sample_guard_options_def sample_heights maximumHeight_def)
  have s: "go_validatorStopped sample_guard_options" by (simp add: sample_guard_options_def)
  have c: "comparePosition (sample_signer_state ''6'') (sample_signer_state ''5'') = 1"
    by (simp add: comparePosition_def positionOf_def sample_signer_state_def sample_heights)
  show ?thesis
    unfolding validateSignerRestore_def h sample_homes
    by (simp add: s c sample_signer_def checkCeiling_def sample_signer_state_def [of "''5''"] sample_heights Let_def)
      (simp add: c [unfolded sample_signer_state_def] sample_signer_state_def sample_heights)
qed

theorem restore_never_regresses_witness:
  "\<exists>r cur cand. validateSignerRestore sample_crypto sample_files sample_guard_options = Inr r \<and> may_replace sample_crypto cur cand \<and>
     positionOf (sg_state cur) = [5, 0, 1] \<and> positionOf (sg_state cand) = [6, 0, 1]"
proof -
  obtain r where r: "validateSignerRestore sample_crypto sample_files sample_guard_options = Inr r" using sample_restore by blast
  have "may_replace sample_crypto (sample_signer ''/a'' ''current'' ''5'') (sample_signer ''/b'' ''candidate'' ''6'')"
    using restore_never_regresses [OF r] unfolding sample_homes by auto
  moreover have "positionOf (sg_state (sample_signer ''/a'' ''current'' ''5'')) = [5, 0, 1]"
    "positionOf (sg_state (sample_signer ''/b'' ''candidate'' ''6'')) = [6, 0, 1]"
    by (simp_all add: sample_signer_def sample_signer_state_def positionOf_def sample_heights)
  ultimately show ?thesis using r by blast
qed


end
