(* ===== verification/Solidity_Core.thy ===== *)
theory Solidity_Core
  imports Torium_Prelude
begin

text \<open>
  What the contracts under \<^verbatim>\<open>contracts/src\<close> use of Solidity 0.8 and of the EVM: unsigned words of fixed width with
  checked arithmetic, the ABI coding of static values and bit maps.
  The hash \<open>keccak256\<close> is a parameter of the definitions that use it: nothing depends on how it works.
\<close>

unbundle bit_operations_syntax

type_synonym uint256 = "256 word"
type_synonym bytes32 = "256 word"
type_synonym address = "160 word"
type_synonym uint64 = "64 word"
type_synonym keccak = "8 word list \<Rightarrow> bytes32"

section \<open>Checked arithmetic\<close>

text \<open>Arithmetic reverts with a panic instead of wrapping around.\<close>

definition addU :: "'e \<Rightarrow> 'w::len word \<Rightarrow> 'w word \<Rightarrow> 'e + 'w word" where
  "addU panic a b = (if unat a + unat b < 2 ^ LENGTH('w) then Inr (a + b) else Inl panic)"

definition subU :: "'e \<Rightarrow> 'w::len word \<Rightarrow> 'w word \<Rightarrow> 'e + 'w word" where
  "subU panic a b = (if b \<le> a then Inr (a - b) else Inl panic)"

lemma addU_Inr: "addU panic a b = Inr c \<longleftrightarrow> unat c = unat a + unat b" for a b c :: "'w::len word"
proof -
  have s: "unat (a + b) = unat a + unat b" if "unat a + unat b < 2 ^ LENGTH('w)" using that by (simp add: unat_word_ariths)
  have l: "unat c < 2 ^ LENGTH('w)" by (rule unsigned_less)
  show ?thesis
  proof
    assume "addU panic a b = Inr c"
    then show "unat c = unat a + unat b" using s by (auto simp: addU_def split: if_splits)
  next
    assume c: "unat c = unat a + unat b"
    with l s have "a + b = c" by (simp add: word_unat_eq_iff)
    with c l show "addU panic a b = Inr c" by (simp add: addU_def)
  qed
qed

lemma subU_Inr: "subU panic a b = Inr c \<longleftrightarrow> unat a = unat b + unat c"
proof -
  have "unat (a - b) = unat a - unat b" if "b \<le> a" using that by (simp add: unat_sub)
  then show ?thesis
    by (auto simp: subU_def word_le_nat_alt intro!: word_unat_eq_iff [THEN iffD2])
qed

lemma addU_total: "unat a + unat b < 2 ^ LENGTH('w) \<Longrightarrow> addU panic a (b :: 'w::len word) = Inr (a + b)"
  by (simp add: addU_def)

section \<open>ABI coding of static values\<close>

text \<open>Every static value takes one slot of 32 bytes, the most significant byte first.\<close>

definition slotBytes :: "256 word \<Rightarrow> 8 word list" where
  "slotBytes w = map (\<lambda>i. ucast (drop_bit (8 * i) w)) (rev [0..<32])"

definition abiEncode :: "256 word list \<Rightarrow> 8 word list" where
  "abiEncode ws = concat (map slotBytes ws)"

lemma slotBytes_length [simp]: "length (slotBytes w) = 32"
  by (simp add: slotBytes_def)

lemma slotBytes_inject: "slotBytes v = slotBytes w \<longleftrightarrow> v = w"
proof
  assume e: "slotBytes v = slotBytes w"
  show "v = w"
  proof (rule bit_word_eqI)
    fix n assume n: "n < LENGTH(256)"
    then have "n div 8 \<in> set (rev [0..<32])" by auto
    with e have u: "(ucast (drop_bit (8 * (n div 8)) v) :: 8 word) = ucast (drop_bit (8 * (n div 8)) w)"
      unfolding slotBytes_def map_eq_conv by blast
    have "bit (ucast (drop_bit (8 * (n div 8)) x) :: 8 word) (n mod 8) = bit x n" for x :: "256 word"
      using n by (simp add: bit_simps)
    with u show "bit v n = bit w n" by metis
  qed
qed simp

text \<open>Lists of slots of one length are told apart by their coding.\<close>

lemma abiEncode_inject: "length vs = length ws \<Longrightarrow> abiEncode vs = abiEncode ws \<longleftrightarrow> vs = ws"
  by (induction vs ws rule: list_induct2) (auto simp: abiEncode_def slotBytes_inject)

section \<open>Bit maps\<close>

definition slotOf :: "uint256 \<Rightarrow> uint256" where
  "slotOf index = drop_bit 8 index"

definition maskOf :: "uint256 \<Rightarrow> uint256" where
  "maskOf index = push_bit (unat (index AND 255)) 1"

lemma low_byte: "unat (index AND 255 :: uint256) < 256"
proof -
  have "unat (index AND 255) \<le> unat (255 :: uint256)" by (rule word_and_le1 [THEN word_le_nat_alt [THEN iffD1]])
  then show ?thesis by simp
qed

lemma bit_maskOf: "bit (maskOf index) n \<longleftrightarrow> n = unat (index AND 255)"
  using low_byte [of index] by (auto simp: maskOf_def bit_simps)

lemma slot_and_byte: "slotOf i = slotOf j \<Longrightarrow> i AND 255 = j AND 255 \<Longrightarrow> i = j"
proof (rule bit_word_eqI)
  fix n assume s: "slotOf i = slotOf j" and b: "i AND 255 = j AND 255" and n: "n < LENGTH(256)"
  have m: "(255 :: uint256) = mask 8" by (simp add: mask_eq_exp_minus_1)
  show "bit i n = bit j n"
  proof (cases "n < 8")
    case True
    have "bit (x AND 255) n = bit x n" for x :: uint256 unfolding m using True n by (simp add: bit_simps)
    with b show ?thesis by metis
  next
    case False
    have "bit (slotOf x) (n - 8) = bit x n" for x using False n by (simp add: slotOf_def bit_simps)
    with s show ?thesis by metis
  qed
qed

lemma masked: "w AND maskOf i = maskOf i \<longleftrightarrow> bit w (unat (i AND 255))"
proof
  assume "w AND maskOf i = maskOf i"
  then have "bit (w AND maskOf i) (unat (i AND 255)) = bit (maskOf i) (unat (i AND 255))" by (rule arg_cong)
  then show "bit w (unat (i AND 255))" unfolding bit_and_iff bit_maskOf by blast
next
  assume b: "bit w (unat (i AND 255))"
  show "w AND maskOf i = maskOf i"
  proof (rule bit_word_eqI)
    fix n
    show "bit (w AND maskOf i) n = bit (maskOf i) n" unfolding bit_and_iff bit_maskOf using b by blast
  qed
qed

lemma masked_or: "bit (w OR maskOf j) (unat (i AND 255)) \<longleftrightarrow> bit w (unat (i AND 255)) \<or> i AND 255 = j AND 255"
  unfolding bit_or_iff bit_maskOf word_unat_eq_iff by blast

end
