(* ===== verification/Distributor.thy ===== *)
theory Distributor
  imports Solidity_Core
begin

text \<open>
  The contract \<^verbatim>\<open>contracts/src/rewards/ToriumRewardDistributor.sol\<close>: its storage, its functions and any sequence of
  calls of them, re-entrant ones included.

  The storage is a record with the fields of the contract, its native balance and the events it has emitted. A
  function returns the new storage or the error it reverts with, and then nothing has changed. The contracts it
  inherits from (roles, pausing, the re-entrancy guard) belong to a library: their operations on a state of their own
  are the parameter \<open>inherited\<close>. A call of a recipient of value may call back into the contract: it is a list of further
  calls, made in order, and whether the recipient accepts.
\<close>

section \<open>Storage\<close>

record epoch =
  e_rootHash :: bytes32
  e_funded :: uint256
  e_claimStart :: uint64
  e_claimEnd :: uint64
  e_claimed :: uint256
  e_clawed :: uint256

record sum_node =
  sn_nodeHash :: bytes32
  sn_sum :: uint256

datatype distributor_error =
    ZeroAddress
  | ZeroDelay
  | ZeroRootHash
  | ZeroFunding
  | ZeroAmount
  | UnexpectedEpochId uint256 uint256
  | EpochNotFound uint256
  | RootHashAlreadyUsed bytes32
  | FundingDoesNotMatchRootSum uint256 uint256
  | ClaimStartTooEarly uint256 uint256
  | InvalidClaimWindow uint256 uint256
  | ClaimNotStarted uint256 uint256
  | ClaimWindowClosed uint256 uint256
  | ClaimAlreadyProcessed uint256 uint256
  | MalformedProof nat
  | InvalidProof bytes32 uint256
  | ClawbackNotReady uint256 uint256
  | NothingToClawback uint256
  | NativeTransferFailed address uint256
  | AccountingInsolvent uint256 uint256
  | Panic
  | NonPayable
  | NoSuchTransfer
  | InheritedRevert string

datatype distributor_event =
    EpochPublished uint256 bytes32 address uint256 uint64 uint64
  | RewardClaimed uint256 uint256 address uint256 uint256 uint256
  | EpochClawedBack uint256 address address uint256 uint256 uint256
  | AccountingReconciled uint256 uint256 uint256 uint256 uint256

record 'o distributor =
  d_treasury :: address
  d_publicationDelay :: uint64
  d_clawbackDelay :: uint64
  d_nextEpochId :: uint256
  d_totalFunded :: uint256
  d_totalClaimed :: uint256
  d_totalClawed :: uint256
  d_epochs :: "uint256 \<Rightarrow> epoch"
  d_usedRootHashes :: "bytes32 \<Rightarrow> bool"
  d_claimedBitMaps :: "uint256 \<Rightarrow> uint256 \<Rightarrow> uint256"
  d_balance :: uint256
  d_events :: "distributor_event list"
  d_inherited :: 'o

record 'o inherited =
  in_init :: "48 word \<Rightarrow> address \<Rightarrow> string + 'o"
  in_grantRole :: "bytes32 \<Rightarrow> address \<Rightarrow> 'o \<Rightarrow> string + 'o"
  in_checkRole :: "bytes32 \<Rightarrow> address \<Rightarrow> 'o \<Rightarrow> string + unit"
  in_requireNotPaused :: "'o \<Rightarrow> string + unit"
  in_pause :: "address \<Rightarrow> 'o \<Rightarrow> string + 'o"
  in_unpause :: "address \<Rightarrow> 'o \<Rightarrow> string + 'o"
  in_nonReentrantBefore :: "'o \<Rightarrow> string + 'o"
  in_nonReentrantAfter :: "'o \<Rightarrow> 'o"

text \<open>The sender, the value and the block of a call.\<close>

record call_context =
  c_sender :: address
  c_value :: uint256
  c_timestamp :: uint256

definition roleId :: "keccak \<Rightarrow> string \<Rightarrow> bytes32" where
  "roleId kec name = kec (map (\<lambda>c. of_nat (of_char c)) name)"

definition EPOCH_PUBLISHER_ROLE :: "keccak \<Rightarrow> bytes32" where
  "EPOCH_PUBLISHER_ROLE kec = roleId kec ''EPOCH_PUBLISHER_ROLE''"

definition PAUSER_ROLE :: "keccak \<Rightarrow> bytes32" where
  "PAUSER_ROLE kec = roleId kec ''PAUSER_ROLE''"

definition CLAWBACK_ROLE :: "keccak \<Rightarrow> bytes32" where
  "CLAWBACK_ROLE kec = roleId kec ''CLAWBACK_ROLE''"

definition emptyEpoch :: epoch where
  "emptyEpoch = \<lparr>e_rootHash = 0, e_funded = 0, e_claimStart = 0, e_claimEnd = 0, e_claimed = 0, e_clawed = 0\<rparr>"

section \<open>Construction\<close>

text \<open>A new contract has the value that was sent to its address before.\<close>

definition constructor ::
  "keccak \<Rightarrow> 'o inherited \<Rightarrow> uint256 \<Rightarrow> 48 word \<Rightarrow> address \<Rightarrow> address \<Rightarrow> address \<Rightarrow> address \<Rightarrow> address \<Rightarrow>
   uint64 \<Rightarrow> uint64 \<Rightarrow> distributor_error + 'o distributor" where
  "constructor kec I balance defaultAdminDelay initialAdmin initialPublisher initialPauser initialClawbackOperator treasury
     publicationDelay clawbackDelay =
     bindR (mapErr InheritedRevert (in_init I defaultAdminDelay initialAdmin)) (\<lambda>o0.
     bindR (throwIf (initialAdmin = 0 \<or> initialPublisher = 0 \<or> initialPauser = 0 \<or> initialClawbackOperator = 0 \<or> treasury = 0)
       ZeroAddress) (\<lambda>_.
     bindR (throwIf (defaultAdminDelay = 0 \<or> publicationDelay = 0 \<or> clawbackDelay = 0) ZeroDelay) (\<lambda>_.
     bindR (mapErr InheritedRevert (in_grantRole I (EPOCH_PUBLISHER_ROLE kec) initialPublisher o0)) (\<lambda>o1.
     bindR (mapErr InheritedRevert (in_grantRole I (PAUSER_ROLE kec) initialPauser o1)) (\<lambda>o2.
     bindR (mapErr InheritedRevert (in_grantRole I (CLAWBACK_ROLE kec) initialClawbackOperator o2)) (\<lambda>o3.
     Inr \<lparr>d_treasury = treasury, d_publicationDelay = publicationDelay, d_clawbackDelay = clawbackDelay,
          d_nextEpochId = 1, d_totalFunded = 0, d_totalClaimed = 0, d_totalClawed = 0,
          d_epochs = (\<lambda>_. emptyEpoch), d_usedRootHashes = (\<lambda>_. False), d_claimedBitMaps = (\<lambda>_ _. 0),
          d_balance = balance, d_events = [], d_inherited = o3\<rparr>))))))"

section \<open>Views\<close>

definition leafHashOf :: "keccak \<Rightarrow> uint256 \<Rightarrow> uint256 \<Rightarrow> address \<Rightarrow> uint256 \<Rightarrow> bytes32" where
  "leafHashOf kec epochId index account amount = kec (abiEncode [epochId, index, ucast account, amount])"

definition hashNode ::
  "keccak \<Rightarrow> bytes32 \<Rightarrow> uint256 \<Rightarrow> bytes32 \<Rightarrow> uint256 \<Rightarrow> distributor_error + bytes32 \<times> uint256" where
  "hashNode kec firstHash firstSum secondHash secondSum =
     bindR (addU Panic firstSum secondSum) (\<lambda>parentSum.
     Inr (if firstHash < secondHash \<or> firstHash = secondHash
          then kec (abiEncode [firstHash, firstSum, secondHash, secondSum])
          else kec (abiEncode [secondHash, secondSum, firstHash, firstSum]), parentSum))"

definition processNode :: "keccak \<Rightarrow> bytes32 \<times> uint256 \<Rightarrow> nat \<times> sum_node \<Rightarrow> distributor_error + bytes32 \<times> uint256" where
  "processNode kec computed entry =
     (case entry of (proofIndex, sibling) \<Rightarrow>
        bindR (throwIf (sn_nodeHash sibling = 0 \<or> sn_sum sibling = 0) (MalformedProof proofIndex)) (\<lambda>_.
        hashNode kec (fst computed) (snd computed) (sn_nodeHash sibling) (sn_sum sibling)))"

definition processProof ::
  "keccak \<Rightarrow> uint256 \<Rightarrow> uint256 \<Rightarrow> address \<Rightarrow> uint256 \<Rightarrow> sum_node list \<Rightarrow> distributor_error + bytes32 \<times> uint256" where
  "processProof kec epochId index account amount nodes =
     foldR (processNode kec) (leafHashOf kec epochId index account amount, amount) (enumerate 0 nodes)"

definition isClaimed :: "'o distributor \<Rightarrow> uint256 \<Rightarrow> uint256 \<Rightarrow> bool" where
  "isClaimed s epochId index =
     (let word = d_claimedBitMaps s epochId (slotOf index) in word AND maskOf index = maskOf index)"

definition isRootHashUsed :: "'o distributor \<Rightarrow> bytes32 \<Rightarrow> bool" where
  "isRootHashUsed s rootHash = d_usedRootHashes s rootHash"

definition requireEpoch :: "'o distributor \<Rightarrow> uint256 \<Rightarrow> distributor_error + epoch" where
  "requireEpoch s epochId =
     (if e_rootHash (d_epochs s epochId) = 0 then Inl (EpochNotFound epochId) else Inr (d_epochs s epochId))"

definition remaining :: "epoch \<Rightarrow> distributor_error + uint256" where
  "remaining ep = bindR (subU Panic (e_funded ep) (e_claimed ep)) (\<lambda>rest. subU Panic rest (e_clawed ep))"

definition remainingForEpoch :: "'o distributor \<Rightarrow> uint256 \<Rightarrow> distributor_error + uint256" where
  "remainingForEpoch s epochId = bindR (requireEpoch s epochId) remaining"

definition totalOutstanding :: "'o distributor \<Rightarrow> distributor_error + uint256" where
  "totalOutstanding s =
     bindR (subU Panic (d_totalFunded s) (d_totalClaimed s)) (\<lambda>rest. subU Panic rest (d_totalClawed s))"

definition forcedSurplus :: "'o distributor \<Rightarrow> distributor_error + uint256" where
  "forcedSurplus s =
     bindR (totalOutstanding s) (\<lambda>outstanding.
     bindR (throwIf (d_balance s < outstanding) (AccountingInsolvent (d_balance s) outstanding)) (\<lambda>_.
     subU Panic (d_balance s) outstanding))"

definition clawbackTime :: "'o distributor \<Rightarrow> epoch \<Rightarrow> distributor_error + uint256" where
  "clawbackTime s ep = addU Panic (ucast (e_claimEnd ep)) (ucast (d_clawbackDelay s))"

definition clawbackAvailableAt :: "'o distributor \<Rightarrow> uint256 \<Rightarrow> distributor_error + uint256" where
  "clawbackAvailableAt s epochId = bindR (requireEpoch s epochId) (clawbackTime s)"

section \<open>Functions\<close>

definition emit :: "distributor_event \<Rightarrow> 'o distributor \<Rightarrow> 'o distributor" where
  "emit ev s = s\<lparr>d_events := d_events s @ [ev]\<rparr>"

definition emitAccounting :: "uint256 \<Rightarrow> uint256 \<Rightarrow> 'o distributor \<Rightarrow> distributor_error + 'o distributor" where
  "emitAccounting epochId epochOutstanding s =
     bindR (totalOutstanding s) (\<lambda>outstanding.
     bindR (forcedSurplus s) (\<lambda>surplus.
     Inr (emit (AccountingReconciled epochId epochOutstanding outstanding (d_balance s) surplus) s)))"

definition setClaimed :: "uint256 \<Rightarrow> uint256 \<Rightarrow> 'o distributor \<Rightarrow> 'o distributor" where
  "setClaimed epochId index s =
     (let words = d_claimedBitMaps s epochId in
      s\<lparr>d_claimedBitMaps := (d_claimedBitMaps s)(epochId := words(slotOf index := words (slotOf index) OR maskOf index))\<rparr>)"

text \<open>The value of a payable call arrives before the body runs; the other functions refuse value.\<close>

definition receiveValue :: "call_context \<Rightarrow> 'o distributor \<Rightarrow> distributor_error + 'o distributor" where
  "receiveValue tx s = bindR (addU NoSuchTransfer (d_balance s) (c_value tx)) (\<lambda>b. Inr (s\<lparr>d_balance := b\<rparr>))"

definition publishEpoch ::
  "keccak \<Rightarrow> 'o inherited \<Rightarrow> call_context \<Rightarrow> uint256 \<Rightarrow> bytes32 \<Rightarrow> uint256 \<Rightarrow> uint64 \<Rightarrow> uint64 \<Rightarrow> 'o distributor \<Rightarrow>
   distributor_error + 'o distributor" where
  "publishEpoch kec I tx epochId rootHash rootSum claimStart claimEnd s0 =
     bindR (receiveValue tx s0) (\<lambda>s.
     bindR (mapErr InheritedRevert (in_checkRole I (EPOCH_PUBLISHER_ROLE kec) (c_sender tx) (d_inherited s))) (\<lambda>_.
     bindR (mapErr InheritedRevert (in_requireNotPaused I (d_inherited s))) (\<lambda>_.
     let expectedEpochId = d_nextEpochId s in
     bindR (throwIf (epochId \<noteq> expectedEpochId) (UnexpectedEpochId expectedEpochId epochId)) (\<lambda>_.
     bindR (throwIf (rootHash = 0) ZeroRootHash) (\<lambda>_.
     bindR (throwIf (d_usedRootHashes s rootHash) (RootHashAlreadyUsed rootHash)) (\<lambda>_.
     bindR (throwIf (rootSum = 0 \<or> c_value tx = 0) ZeroFunding) (\<lambda>_.
     bindR (throwIf (c_value tx \<noteq> rootSum) (FundingDoesNotMatchRootSum (c_value tx) rootSum)) (\<lambda>_.
     bindR (addU Panic (c_timestamp tx) (ucast (d_publicationDelay s))) (\<lambda>minimumStart.
     bindR (throwIf (ucast claimStart < minimumStart) (ClaimStartTooEarly minimumStart (ucast claimStart))) (\<lambda>_.
     bindR (throwIf (claimEnd \<le> claimStart) (InvalidClaimWindow (ucast claimStart) (ucast claimEnd))) (\<lambda>_.
     bindR (addU Panic expectedEpochId 1) (\<lambda>following.
     bindR (addU Panic (d_totalFunded s) rootSum) (\<lambda>funded.
     emitAccounting epochId rootSum (emit (EpochPublished epochId rootHash (c_sender tx) rootSum claimStart claimEnd)
       (s\<lparr>d_epochs := (d_epochs s)(epochId :=
             \<lparr>e_rootHash = rootHash, e_funded = rootSum, e_claimStart = claimStart, e_claimEnd = claimEnd,
              e_claimed = 0, e_clawed = 0\<rparr>),
          d_usedRootHashes := (d_usedRootHashes s)(rootHash := True),
          d_nextEpochId := following, d_totalFunded := funded\<rparr>)))))))))))))))"

text \<open>
  \<open>recipient.call{value: amount}("")\<close>: the value leaves the contract, then the code of the recipient runs. A call
  that fails leaves no trace.
\<close>

definition sendValue ::
  "('o distributor \<Rightarrow> bool \<times> 'o distributor) \<Rightarrow> uint256 \<Rightarrow> 'o distributor \<Rightarrow> bool \<times> 'o distributor" where
  "sendValue recipient amount s =
     (if d_balance s < amount then (False, s)
      else case recipient (s\<lparr>d_balance := d_balance s - amount\<rparr>) of
          (True, s') \<Rightarrow> (True, s')
        | (False, _) \<Rightarrow> (False, s))"

definition finishClaim :: "uint256 \<Rightarrow> uint256 \<Rightarrow> address \<Rightarrow> uint256 \<Rightarrow> 'o distributor \<Rightarrow> distributor_error + 'o distributor" where
  "finishClaim epochId index account amount s =
     (let ep = d_epochs s epochId;
          s' = emit (RewardClaimed epochId index account amount (e_claimed ep) (d_totalClaimed s)) s in
      bindR (remaining ep) (\<lambda>rest. emitAccounting epochId rest s'))"

definition payClaim ::
  "('o distributor \<Rightarrow> bool \<times> 'o distributor) \<Rightarrow> uint256 \<Rightarrow> uint256 \<Rightarrow> address \<Rightarrow> uint256 \<Rightarrow> 'o distributor \<Rightarrow>
   distributor_error + 'o distributor" where
  "payClaim recipient epochId index account amount s0 =
     (let s = setClaimed epochId index s0; ep = d_epochs s epochId in
      bindR (addU Panic (e_claimed ep) amount) (\<lambda>claimed.
      bindR (addU Panic (d_totalClaimed s) amount) (\<lambda>total.
      case sendValue recipient amount
             (s\<lparr>d_epochs := (d_epochs s)(epochId := ep\<lparr>e_claimed := claimed\<rparr>), d_totalClaimed := total\<rparr>) of
        (success, s') \<Rightarrow>
          bindR (throwIf (\<not> success) (NativeTransferFailed account amount)) (\<lambda>_.
          finishClaim epochId index account amount s'))))"

definition checkClaim ::
  "keccak \<Rightarrow> uint256 \<Rightarrow> uint256 \<Rightarrow> uint256 \<Rightarrow> address \<Rightarrow> uint256 \<Rightarrow> sum_node list \<Rightarrow> 'o distributor \<Rightarrow>
   distributor_error + unit" where
  "checkClaim kec currentTime epochId index account amount nodes s =
     bindR (requireEpoch s epochId) (\<lambda>ep.
     bindR (throwIf (account = 0) ZeroAddress) (\<lambda>_.
     bindR (throwIf (amount = 0) ZeroAmount) (\<lambda>_.
     bindR (throwIf (currentTime < ucast (e_claimStart ep)) (ClaimNotStarted (ucast (e_claimStart ep)) currentTime)) (\<lambda>_.
     bindR (throwIf (currentTime \<ge> ucast (e_claimEnd ep)) (ClaimWindowClosed (ucast (e_claimEnd ep)) currentTime)) (\<lambda>_.
     bindR (throwIf (isClaimed s epochId index) (ClaimAlreadyProcessed epochId index)) (\<lambda>_.
     bindR (processProof kec epochId index account amount nodes) (\<lambda>(computedRootHash, computedRootSum).
     throwIf (computedRootHash \<noteq> e_rootHash ep \<or> computedRootSum \<noteq> e_funded ep)
       (InvalidProof computedRootHash computedRootSum))))))))"

definition nonReentrant ::
  "'o inherited \<Rightarrow> ('o distributor \<Rightarrow> distributor_error + 'o distributor) \<Rightarrow> 'o distributor \<Rightarrow> distributor_error + 'o distributor" where
  "nonReentrant I body s =
     bindR (mapErr InheritedRevert (in_nonReentrantBefore I (d_inherited s))) (\<lambda>o1.
     bindR (body (s\<lparr>d_inherited := o1\<rparr>)) (\<lambda>s'.
     Inr (s'\<lparr>d_inherited := in_nonReentrantAfter I (d_inherited s')\<rparr>)))"

definition claim ::
  "keccak \<Rightarrow> 'o inherited \<Rightarrow> ('o distributor \<Rightarrow> bool \<times> 'o distributor) \<Rightarrow> call_context \<Rightarrow>
   uint256 \<Rightarrow> uint256 \<Rightarrow> address \<Rightarrow> uint256 \<Rightarrow> sum_node list \<Rightarrow> 'o distributor \<Rightarrow> distributor_error + 'o distributor" where
  "claim kec I recipient tx epochId index account amount nodes s0 =
     bindR (throwIf (c_value tx \<noteq> 0) NonPayable) (\<lambda>_.
     nonReentrant I (\<lambda>s.
       bindR (mapErr InheritedRevert (in_requireNotPaused I (d_inherited s))) (\<lambda>_.
       bindR (checkClaim kec (c_timestamp tx) epochId index account amount nodes s) (\<lambda>_.
       payClaim recipient epochId index account amount s))) s0)"

definition payClawback ::
  "('o distributor \<Rightarrow> bool \<times> 'o distributor) \<Rightarrow> address \<Rightarrow> uint256 \<Rightarrow> uint256 \<Rightarrow> 'o distributor \<Rightarrow>
   distributor_error + 'o distributor" where
  "payClawback recipient sender epochId amount s =
     (let ep = d_epochs s epochId in
      bindR (addU Panic (e_clawed ep) amount) (\<lambda>clawed.
      bindR (addU Panic (d_totalClawed s) amount) (\<lambda>total.
      case sendValue recipient amount
             (s\<lparr>d_epochs := (d_epochs s)(epochId := ep\<lparr>e_clawed := clawed\<rparr>), d_totalClawed := total\<rparr>) of
        (success, s') \<Rightarrow>
          bindR (throwIf (\<not> success) (NativeTransferFailed (d_treasury s) amount)) (\<lambda>_.
          emitAccounting epochId 0 (emit (EpochClawedBack epochId sender (d_treasury s') amount
            (e_clawed (d_epochs s' epochId)) (d_totalClawed s')) s')))))"

definition checkClawback :: "uint256 \<Rightarrow> uint256 \<Rightarrow> 'o distributor \<Rightarrow> distributor_error + uint256" where
  "checkClawback currentTime epochId s =
     bindR (requireEpoch s epochId) (\<lambda>ep.
     bindR (clawbackTime s ep) (\<lambda>availableAt.
     bindR (throwIf (currentTime < availableAt) (ClawbackNotReady availableAt currentTime)) (\<lambda>_.
     bindR (remaining ep) (\<lambda>amount.
     bindR (throwIf (amount = 0) (NothingToClawback epochId)) (\<lambda>_. Inr amount)))))"

definition clawback ::
  "keccak \<Rightarrow> 'o inherited \<Rightarrow> ('o distributor \<Rightarrow> bool \<times> 'o distributor) \<Rightarrow> call_context \<Rightarrow> uint256 \<Rightarrow> 'o distributor \<Rightarrow>
   distributor_error + 'o distributor" where
  "clawback kec I recipient tx epochId s0 =
     bindR (throwIf (c_value tx \<noteq> 0) NonPayable) (\<lambda>_.
     bindR (mapErr InheritedRevert (in_checkRole I (CLAWBACK_ROLE kec) (c_sender tx) (d_inherited s0))) (\<lambda>_.
     nonReentrant I (\<lambda>s.
       bindR (mapErr InheritedRevert (in_requireNotPaused I (d_inherited s))) (\<lambda>_.
       bindR (checkClawback (c_timestamp tx) epochId s) (\<lambda>amount.
       payClawback recipient (c_sender tx) epochId amount s))) s0))"

definition pause :: "keccak \<Rightarrow> 'o inherited \<Rightarrow> call_context \<Rightarrow> 'o distributor \<Rightarrow> distributor_error + 'o distributor" where
  "pause kec I tx s =
     bindR (throwIf (c_value tx \<noteq> 0) NonPayable) (\<lambda>_.
     bindR (mapErr InheritedRevert (in_checkRole I (PAUSER_ROLE kec) (c_sender tx) (d_inherited s))) (\<lambda>_.
     bindR (mapErr InheritedRevert (in_pause I (c_sender tx) (d_inherited s))) (\<lambda>o1. Inr (s\<lparr>d_inherited := o1\<rparr>))))"

definition unpause :: "keccak \<Rightarrow> 'o inherited \<Rightarrow> call_context \<Rightarrow> 'o distributor \<Rightarrow> distributor_error + 'o distributor" where
  "unpause kec I tx s =
     bindR (throwIf (c_value tx \<noteq> 0) NonPayable) (\<lambda>_.
     bindR (mapErr InheritedRevert (in_checkRole I (PAUSER_ROLE kec) (c_sender tx) (d_inherited s))) (\<lambda>_.
     bindR (mapErr InheritedRevert (in_unpause I (c_sender tx) (d_inherited s))) (\<lambda>o1. Inr (s\<lparr>d_inherited := o1\<rparr>))))"

section \<open>Runs\<close>

text \<open>
  What can happen to the contract: calls of its functions, calls of inherited functions, which change the inherited
  state only, and value that arrives without a call. A claim or clawback carries the calls its recipient makes.
\<close>

datatype 'o call =
    PublishEpoch call_context uint256 bytes32 uint256 uint64 uint64
  | Claim call_context uint256 uint256 address uint256 "sum_node list" "'o call list" bool
  | Clawback call_context uint256 "'o call list" bool
  | Pause call_context
  | Unpause call_context
  | InheritedCall "'o \<Rightarrow> 'o"
  | ForceValue call_context

fun exec :: "keccak \<Rightarrow> 'o inherited \<Rightarrow> 'o call \<Rightarrow> 'o distributor \<Rightarrow> distributor_error + 'o distributor"
  and run :: "keccak \<Rightarrow> 'o inherited \<Rightarrow> 'o call list \<Rightarrow> 'o distributor \<Rightarrow> 'o distributor" where
  "exec kec I (PublishEpoch tx epochId rootHash rootSum claimStart claimEnd) s =
     publishEpoch kec I tx epochId rootHash rootSum claimStart claimEnd s"
| "exec kec I (Claim tx epochId index account amount nodes calls accepts) s =
     claim kec I (\<lambda>s'. (accepts, run kec I calls s')) tx epochId index account amount nodes s"
| "exec kec I (Clawback tx epochId calls accepts) s =
     clawback kec I (\<lambda>s'. (accepts, run kec I calls s')) tx epochId s"
| "exec kec I (Pause tx) s = pause kec I tx s"
| "exec kec I (Unpause tx) s = unpause kec I tx s"
| "exec kec I (InheritedCall f) s = Inr (s\<lparr>d_inherited := f (d_inherited s)\<rparr>)"
| "exec kec I (ForceValue tx) s = receiveValue tx s"
| "run kec I [] s = s"
| "run kec I (c # cs) s = run kec I cs (case exec kec I c s of Inl _ \<Rightarrow> s | Inr s' \<Rightarrow> s')"

end
