(* ===== verification/Distributor_Books.thy ===== *)
theory Distributor_Books
  imports Distributor "HOL-Library.Multiset"
begin

text \<open>
  The correctness of the reward distributor of \<^verbatim>\<open>contracts/src/rewards/ToriumRewardDistributor.sol\<close>: an invariant of its books
  that every call keeps, also the calls a recipient makes while it is paid; solvency, single payment of a claim, immutable
  epochs, and the exact condition under which a claim is paid.
\<close>

section \<open>Accounting\<close>

text \<open>The claims that events report, and what they add up to for an epoch.\<close>

fun claimsOf :: "distributor_event list \<Rightarrow> (uint256 \<times> uint256 \<times> uint256) list" where
  "claimsOf [] = []"
| "claimsOf (RewardClaimed epochId index _ amount _ _ # evs) = (epochId, index, amount) # claimsOf evs"
| "claimsOf (_ # evs) = claimsOf evs"

lemma claimsOf_append [simp]: "claimsOf (evs @ evs') = claimsOf evs @ claimsOf evs'"
  by (induction evs rule: claimsOf.induct) simp_all

definition claimKey :: "uint256 \<times> uint256 \<times> uint256 \<Rightarrow> uint256 \<times> uint256" where
  "claimKey c = (fst c, fst (snd c))"

definition paidFor :: "uint256 \<Rightarrow> (uint256 \<times> uint256 \<times> uint256) list \<Rightarrow> nat" where
  "paidFor epochId cs = sum_list (map (\<lambda>c. if fst c = epochId then unat (snd (snd c)) else 0) cs)"

text \<open>A list of claims is exactly what the storage has booked.\<close>

definition booked :: "(uint256 \<times> uint256 \<times> uint256) list \<Rightarrow> 'o distributor \<Rightarrow> bool" where
  "booked cs s \<longleftrightarrow>
     distinct (map claimKey cs) \<and>
     (\<forall>epochId index. isClaimed s epochId index \<longleftrightarrow> (epochId, index) \<in> set (map claimKey cs)) \<and>
     (\<forall>epochId. unat (e_claimed (d_epochs s epochId)) = paidFor epochId cs)"

lemma booked_mset: "mset cs = mset cs' \<Longrightarrow> booked cs s \<longleftrightarrow> booked cs' s"
proof -
  assume m: "mset cs = mset cs'"
  have "distinct (map claimKey cs) \<longleftrightarrow> distinct (map claimKey cs')"
    by (rule mset_eq_imp_distinct_iff) (simp add: m)
  moreover have "set (map claimKey cs) = set (map claimKey cs')" using m by (metis mset_eq_setD set_map)
  moreover have "paidFor e cs = paidFor e cs'" for e
    unfolding paidFor_def sum_mset_sum_list [symmetric] mset_map m ..
  ultimately show ?thesis by (simp add: booked_def)
qed

definition accountTotal :: "(epoch \<Rightarrow> uint256) \<Rightarrow> 'o distributor \<Rightarrow> nat" where
  "accountTotal field s = (\<Sum>epochId \<in> UNIV. unat (field (d_epochs s epochId)))"

text \<open>
  The books of the contract, where the claims of the epochs in \<open>open_claims\<close> are still being paid: outside of them no
  epoch pays more than its funding, the totals are the sums over the epochs, and the balance covers what is owed.
\<close>

definition balanced :: "uint256 set \<Rightarrow> 'o distributor \<Rightarrow> bool" where
  "balanced open_claims s \<longleftrightarrow>
     (\<forall>e. e \<notin> open_claims \<longrightarrow>
        unat (e_claimed (d_epochs s e)) + unat (e_clawed (d_epochs s e)) \<le> unat (e_funded (d_epochs s e))) \<and>
     (\<forall>e. e_rootHash (d_epochs s e) \<noteq> 0 \<longleftrightarrow> 0 < e \<and> e < d_nextEpochId s) \<and>
     (\<forall>e. e_rootHash (d_epochs s e) = 0 \<longrightarrow> d_epochs s e = emptyEpoch) \<and>
     accountTotal e_funded s = unat (d_totalFunded s) \<and> accountTotal e_claimed s = unat (d_totalClaimed s) \<and>
     accountTotal e_clawed s = unat (d_totalClawed s) \<and>
     unat (d_totalFunded s) \<le> unat (d_balance s) + unat (d_totalClaimed s) + unat (d_totalClawed s) \<and>
     (\<forall>h. d_usedRootHashes s h \<longleftrightarrow> h \<noteq> 0 \<and> (\<exists>e. e_rootHash (d_epochs s e) = h)) \<and>
     0 < d_nextEpochId s"

definition books :: "(uint256 \<times> uint256 \<times> uint256) list \<Rightarrow> 'o distributor \<Rightarrow> bool" where
  "books open_claims s \<longleftrightarrow>
     booked (open_claims @ claimsOf (d_events s)) s \<and> balanced (fst ` set open_claims) s"

lemma sum_UNIV_upd: "(\<Sum>e \<in> UNIV. f ((g(k := v)) e)) + f (g k) = (\<Sum>e \<in> UNIV. f (g e)) + f v"
  for f :: "'b \<Rightarrow> nat" and g :: "'k::finite \<Rightarrow> 'b"
proof -
  have "(\<Sum>e \<in> UNIV. f (h e)) = f (h k) + (\<Sum>e \<in> UNIV - {k}. f (h e))" for h :: "'k \<Rightarrow> 'b"
    by (rule sum.remove) simp_all
  from this [of "g(k := v)"] this [of g] show ?thesis by simp
qed

lemma accountTotal_upd:
  "accountTotal field (s\<lparr>d_epochs := (d_epochs s)(k := ep)\<rparr>) + unat (field (d_epochs s k)) =
   accountTotal field s + unat (field ep)"
  using sum_UNIV_upd [of "\<lambda>ep. unat (field ep)" "d_epochs s" k ep] by (simp add: accountTotal_def)

lemma accountTotal_cong: "d_epochs s = d_epochs t \<Longrightarrow> accountTotal field s = accountTotal field t"
  by (simp add: accountTotal_def)

lemma isClaimed_cong: "d_claimedBitMaps s = d_claimedBitMaps t \<Longrightarrow> isClaimed s = isClaimed t"
  by (simp add: isClaimed_def fun_eq_iff)

lemma isClaimed_setClaimed:
  "isClaimed (setClaimed epochId index s) e i \<longleftrightarrow> (e, i) = (epochId, index) \<or> isClaimed s e i"
proof (cases "e = epochId \<and> slotOf i = slotOf index")
  case True
  then have "i = index \<longleftrightarrow> i AND 255 = index AND 255" using slot_and_byte [of i index] by blast
  with True show ?thesis
    unfolding isClaimed_def setClaimed_def Let_def masked by (simp add: masked_or) blast
next
  case False
  then show ?thesis by (auto simp: isClaimed_def setClaimed_def Let_def)
qed

text \<open>Steps that leave the books alone.\<close>

definition same_books :: "'o distributor \<Rightarrow> 'o distributor \<Rightarrow> bool" where
  "same_books s s' \<longleftrightarrow>
     d_epochs s' = d_epochs s \<and> d_claimedBitMaps s' = d_claimedBitMaps s \<and> d_nextEpochId s' = d_nextEpochId s \<and>
     d_totalFunded s' = d_totalFunded s \<and> d_totalClaimed s' = d_totalClaimed s \<and> d_totalClawed s' = d_totalClawed s \<and>
     d_usedRootHashes s' = d_usedRootHashes s \<and> d_balance s \<le> d_balance s' \<and>
     claimsOf (d_events s') = claimsOf (d_events s)"

lemma books_same: "same_books s s' \<Longrightarrow> books P s \<Longrightarrow> books P s'"
  using isClaimed_cong [of s' s] accountTotal_cong [of s' s]
  by (auto simp: same_books_def books_def booked_def balanced_def word_le_nat_alt)

lemma emitAccounting_Inr:
  "emitAccounting epochId out s = Inr s' \<Longrightarrow> \<exists>a b c. s' = emit (AccountingReconciled epochId out a b c) s"
  by (auto simp: emitAccounting_def)

lemma emit_same: "claimsOf [ev] = [] \<Longrightarrow> same_books s (emit ev s)"
  by (simp add: same_books_def emit_def)

lemma same_books_trans: "same_books s t \<Longrightarrow> same_books t u \<Longrightarrow> same_books s u"
  by (auto simp: same_books_def)

lemma emitAccounting_same: "emitAccounting epochId out s = Inr s' \<Longrightarrow> same_books s s'"
  by (drule emitAccounting_Inr) (auto intro: emit_same)

lemma receiveValue_same: "receiveValue tx s = Inr s' \<Longrightarrow> same_books s s'"
  by (auto simp: receiveValue_def addU_Inr same_books_def word_le_nat_alt)

lemma inherited_same: "same_books s (s\<lparr>d_inherited := o1\<rparr>)"
  by (simp add: same_books_def)

lemma unat_up [simp]: "unat (ucast x :: uint256) = unat x" for x :: uint64
proof -
  have "unat x < 2 ^ 64" using unsigned_less [of x] by simp
  then have "unat x < 2 ^ 256" by (rule less_le_trans) simp
  then show ?thesis by (simp add: unsigned_ucast_eq take_bit_nat_eq_self)
qed

subsection \<open>Publication\<close>

definition published :: "uint256 \<Rightarrow> bytes32 \<Rightarrow> uint256 \<Rightarrow> uint64 \<Rightarrow> uint64 \<Rightarrow> uint256 \<Rightarrow> uint256 \<Rightarrow> uint256 \<Rightarrow> 'o distributor \<Rightarrow> 'o distributor" where
  "published epochId rootHash rootSum claimStart claimEnd balance following funded s =
     s\<lparr>d_balance := balance,
       d_epochs := (d_epochs s)(epochId :=
         \<lparr>e_rootHash = rootHash, e_funded = rootSum, e_claimStart = claimStart, e_claimEnd = claimEnd, e_claimed = 0, e_clawed = 0\<rparr>),
       d_usedRootHashes := (d_usedRootHashes s)(rootHash := True), d_nextEpochId := following, d_totalFunded := funded\<rparr>"

lemma publishEpoch_Inr:
  assumes "publishEpoch kec I tx epochId rootHash rootSum claimStart claimEnd s = Inr s'"
  obtains balance following funded where
    "in_checkRole I (EPOCH_PUBLISHER_ROLE kec) (c_sender tx) (d_inherited s) = Inr ()"
    "in_requireNotPaused I (d_inherited s) = Inr ()"
    "epochId = d_nextEpochId s" "rootHash \<noteq> 0" "\<not> d_usedRootHashes s rootHash" "rootSum \<noteq> 0" "c_value tx = rootSum"
    "unat (c_timestamp tx) + unat (d_publicationDelay s) \<le> unat claimStart" "claimStart < claimEnd"
    "unat balance = unat (d_balance s) + unat rootSum" "unat following = unat (d_nextEpochId s) + 1"
    "unat funded = unat (d_totalFunded s) + unat rootSum"
    "emitAccounting epochId rootSum (emit (EpochPublished epochId rootHash (c_sender tx) rootSum claimStart claimEnd)
       (published epochId rootHash rootSum claimStart claimEnd balance following funded s)) = Inr s'"
proof -
  from assms obtain balance minimumStart following funded where
    b: "addU NoSuchTransfer (d_balance s) (c_value tx) = Inr balance"
    and a: "in_checkRole I (EPOCH_PUBLISHER_ROLE kec) (c_sender tx) (d_inherited s) = Inr ()"
      "in_requireNotPaused I (d_inherited s) = Inr ()"
      "epochId = d_nextEpochId s" "rootHash \<noteq> 0" "\<not> d_usedRootHashes s rootHash" "rootSum \<noteq> 0" "c_value tx = rootSum"
    and m: "addU Panic (c_timestamp tx) (ucast (d_publicationDelay s)) = Inr minimumStart"
      "\<not> ucast claimStart < minimumStart" "\<not> claimEnd \<le> claimStart"
    and f: "addU Panic (d_nextEpochId s) 1 = Inr following" "addU Panic (d_totalFunded s) rootSum = Inr funded"
    and e: "emitAccounting epochId rootSum (emit (EpochPublished epochId rootHash (c_sender tx) rootSum claimStart claimEnd)
       (published epochId rootHash rootSum claimStart claimEnd balance following funded s)) = Inr s'"
    unfolding publishEpoch_def receiveValue_def Let_def published_def
    by (auto elim!: bindR_InrE simp: mapErr_Inr)
  have t: "unat (c_timestamp tx) + unat (d_publicationDelay s) \<le> unat claimStart"
    using m(1,2) by (simp add: addU_Inr not_less word_le_nat_alt)
  show thesis
    by (rule that [OF a t _ _ _ _ e]) (use b f m a in \<open>simp_all add: addU_Inr\<close>)
qed

lemma books_published:
  assumes books: "books P s" and fresh: "rootHash \<noteq> 0" "\<not> d_usedRootHashes s rootHash"
    and eqs: "unat balance = unat (d_balance s) + unat rootSum" "unat following = unat (d_nextEpochId s) + 1"
    "unat funded = unat (d_totalFunded s) + unat rootSum"
  shows "books P (published (d_nextEpochId s) rootHash rootSum claimStart claimEnd balance following funded s)"
proof -
  let ?s = "published (d_nextEpochId s) rootHash rootSum claimStart claimEnd balance following funded s" and ?n = "d_nextEpochId s"
  have bk: "booked (P @ claimsOf (d_events s)) s" and bal: "balanced (fst ` set P) s" using books by (simp_all add: books_def)
  have empty: "d_epochs s ?n = emptyEpoch" using bal by (auto simp: balanced_def)
  have less: "e < following \<longleftrightarrow> e < ?n \<or> e = ?n" for e
    using eqs(2) by (auto simp: word_less_nat_alt word_unat_eq_iff)
  have total: "accountTotal field ?s = accountTotal field s + unat (field (d_epochs ?s ?n))" if "field emptyEpoch = 0" for field
  proof -
    have "accountTotal field ?s = accountTotal field (s\<lparr>d_epochs := (d_epochs s)(?n := d_epochs ?s ?n)\<rparr>)"
      by (rule accountTotal_cong) (simp add: published_def)
    with accountTotal_upd [of field s ?n "d_epochs ?s ?n"] empty that show ?thesis by simp
  qed
  have "isClaimed ?s = isClaimed s" by (rule isClaimed_cong) (simp add: published_def)
  moreover have "e_claimed (d_epochs ?s e) = e_claimed (d_epochs s e)" for e
    using empty by (simp add: published_def emptyEpoch_def)
  ultimately have "booked (P @ claimsOf (d_events ?s)) ?s" using bk by (simp add: booked_def published_def)
  moreover have "balanced (fst ` set P) ?s"
    unfolding balanced_def
  proof (intro conjI allI)
    have "accountTotal e_funded ?s = accountTotal e_funded s + unat rootSum" "accountTotal e_claimed ?s = accountTotal e_claimed s"
      "accountTotal e_clawed ?s = accountTotal e_clawed s"
      using total [of e_funded] total [of e_claimed] total [of e_clawed] by (simp_all add: emptyEpoch_def published_def)
    with bal eqs show "accountTotal e_funded ?s = unat (d_totalFunded ?s)" "accountTotal e_claimed ?s = unat (d_totalClaimed ?s)"
      "accountTotal e_clawed ?s = unat (d_totalClawed ?s)"
      "unat (d_totalFunded ?s) \<le> unat (d_balance ?s) + unat (d_totalClaimed ?s) + unat (d_totalClawed ?s)"
      by (simp_all add: balanced_def published_def)
    show "0 < d_nextEpochId ?s" using eqs(2) by (simp add: published_def word_less_nat_alt)
    fix e
    show "e \<notin> fst ` set P \<longrightarrow>
      unat (e_claimed (d_epochs ?s e)) + unat (e_clawed (d_epochs ?s e)) \<le> unat (e_funded (d_epochs ?s e))"
      using bal by (simp add: balanced_def published_def)
    show "(e_rootHash (d_epochs ?s e) \<noteq> 0) = (0 < e \<and> e < d_nextEpochId ?s)"
      using bal fresh(1) by (auto simp: balanced_def published_def less)
    show "e_rootHash (d_epochs ?s e) = 0 \<longrightarrow> d_epochs ?s e = emptyEpoch"
      using bal fresh(1) by (simp add: balanced_def published_def)
  next
    fix h
    have old: "d_usedRootHashes s h \<longleftrightarrow> h \<noteq> 0 \<and> (\<exists>e. e_rootHash (d_epochs s e) = h)" for h using bal by (simp add: balanced_def)
    have new: "(\<exists>e. e_rootHash (d_epochs ?s e) = h) \<longleftrightarrow> h = rootHash \<or> (\<exists>e. e_rootHash (d_epochs s e) = h)" if "h \<noteq> 0"
    proof -
      have n: "e_rootHash (d_epochs s ?n) = 0" using empty by (simp add: emptyEpoch_def)
      have "e_rootHash (d_epochs ?s e) = (if e = ?n then rootHash else e_rootHash (d_epochs s e))" for e by (simp add: published_def)
      with n that show ?thesis by metis
    qed
    have "d_usedRootHashes ?s h \<longleftrightarrow> h = rootHash \<or> d_usedRootHashes s h" by (simp add: published_def)
    with old new fresh(1) show "d_usedRootHashes ?s h = (h \<noteq> 0 \<and> (\<exists>e. e_rootHash (d_epochs ?s e) = h))" by metis
  qed
  ultimately show ?thesis by (simp add: books_def)
qed

lemma books_publishEpoch:
  assumes "publishEpoch kec I tx epochId rootHash rootSum claimStart claimEnd s = Inr s'" "books P s"
  shows "books P s'"
proof -
  obtain balance following funded where p: "epochId = d_nextEpochId s" "rootHash \<noteq> 0" "\<not> d_usedRootHashes s rootHash"
    "unat balance = unat (d_balance s) + unat rootSum" "unat following = unat (d_nextEpochId s) + 1"
    "unat funded = unat (d_totalFunded s) + unat rootSum"
    and e: "emitAccounting epochId rootSum (emit (EpochPublished epochId rootHash (c_sender tx) rootSum claimStart claimEnd)
       (published epochId rootHash rootSum claimStart claimEnd balance following funded s)) = Inr s'"
    by (rule publishEpoch_Inr [OF assms(1)])
  have "books P (published epochId rootHash rootSum claimStart claimEnd balance following funded s)"
    unfolding p(1) by (rule books_published [OF assms(2) p(2-6)])
  then show ?thesis
    by (rule books_same [OF same_books_trans [OF emit_same emitAccounting_same [OF e]], rotated]) simp
qed

subsection \<open>Payments\<close>

text \<open>The storage when the code of the recipient starts to run.\<close>

definition paid :: "uint256 \<Rightarrow> uint256 \<Rightarrow> uint256 \<Rightarrow> uint256 \<Rightarrow> uint256 \<Rightarrow> 'o distributor \<Rightarrow> 'o distributor" where
  "paid epochId index amount claimed newTotal s =
     (setClaimed epochId index s)
       \<lparr>d_epochs := (d_epochs s)(epochId := (d_epochs s epochId)\<lparr>e_claimed := claimed\<rparr>), d_totalClaimed := newTotal,
        d_balance := d_balance s - amount\<rparr>"

definition clawn :: "uint256 \<Rightarrow> uint256 \<Rightarrow> uint256 \<Rightarrow> uint256 \<Rightarrow> 'o distributor \<Rightarrow> 'o distributor" where
  "clawn epochId amount clawed newTotal s =
     s\<lparr>d_epochs := (d_epochs s)(epochId := (d_epochs s epochId)\<lparr>e_clawed := clawed\<rparr>), d_totalClawed := newTotal,
       d_balance := d_balance s - amount\<rparr>"

lemma sendValue_True:
  "sendValue recipient amount s = (True, s') \<longleftrightarrow>
   amount \<le> d_balance s \<and> recipient (s\<lparr>d_balance := d_balance s - amount\<rparr>) = (True, s')"
  by (auto simp: sendValue_def split: prod.splits bool.splits)

lemma setClaimed_frame [simp]:
  "d_epochs (setClaimed e i s) = d_epochs s" "d_totalClaimed (setClaimed e i s) = d_totalClaimed s"
  "d_balance (setClaimed e i s) = d_balance s" "d_totalFunded (setClaimed e i s) = d_totalFunded s"
  "d_totalClawed (setClaimed e i s) = d_totalClawed s" "d_nextEpochId (setClaimed e i s) = d_nextEpochId s"
  "d_usedRootHashes (setClaimed e i s) = d_usedRootHashes s" "d_events (setClaimed e i s) = d_events s"
  "d_treasury (setClaimed e i s) = d_treasury s" "d_publicationDelay (setClaimed e i s) = d_publicationDelay s"
  "d_clawbackDelay (setClaimed e i s) = d_clawbackDelay s" "d_inherited (setClaimed e i s) = d_inherited s"
  by (simp_all add: setClaimed_def Let_def)

lemma remaining_Inr:
  "remaining ep = Inr r \<longleftrightarrow> unat (e_funded ep) = unat (e_claimed ep) + unat (e_clawed ep) + unat r"
proof
  assume "remaining ep = Inr r"
  then show "unat (e_funded ep) = unat (e_claimed ep) + unat (e_clawed ep) + unat r"
    by (auto simp: remaining_def subU_Inr)
next
  assume u: "unat (e_funded ep) = unat (e_claimed ep) + unat (e_clawed ep) + unat r"
  then have "e_claimed ep \<le> e_funded ep" by (simp add: word_le_nat_alt)
  then have d: "subU Panic (e_funded ep) (e_claimed ep) = Inr (e_funded ep - e_claimed ep)" by (simp add: subU_def)
  from d [unfolded subU_Inr] u show "remaining ep = Inr r" unfolding remaining_def d bindR_simps subU_Inr by simp
qed

lemma payClaim_Inr:
  assumes "payClaim recipient epochId index account amount s = Inr s'"
  obtains claimed newTotal t where
    "unat claimed = unat (e_claimed (d_epochs s epochId)) + unat amount" "unat newTotal = unat (d_totalClaimed s) + unat amount"
    "amount \<le> d_balance s" "recipient (paid epochId index amount claimed newTotal s) = (True, t)"
    "finishClaim epochId index account amount t = Inr s'"
proof -
  from assms obtain claimed newTotal t where
    a: "addU Panic (e_claimed (d_epochs s epochId)) amount = Inr claimed" "addU Panic (d_totalClaimed s) amount = Inr newTotal"
    and t: "sendValue recipient amount ((setClaimed epochId index s)
       \<lparr>d_epochs := (d_epochs s)(epochId := (d_epochs s epochId)\<lparr>e_claimed := claimed\<rparr>), d_totalClaimed := newTotal\<rparr>) = (True, t)"
    and f: "finishClaim epochId index account amount t = Inr s'"
    unfolding payClaim_def Let_def by (auto split: prod.splits)
  have r: "recipient (paid epochId index amount claimed newTotal s) = (True, t)" and le: "amount \<le> d_balance s"
    using t unfolding sendValue_True by (simp_all add: paid_def)
  show thesis by (rule that [OF _ _ le r f]) (use a in \<open>simp_all add: addU_Inr\<close>)
qed

lemma payClawback_Inr:
  assumes "payClawback recipient sender epochId amount s = Inr s'"
  obtains clawed newTotal t where
    "unat clawed = unat (e_clawed (d_epochs s epochId)) + unat amount" "unat newTotal = unat (d_totalClawed s) + unat amount"
    "amount \<le> d_balance s" "recipient (clawn epochId amount clawed newTotal s) = (True, t)"
    "emitAccounting epochId 0 (emit (EpochClawedBack epochId sender (d_treasury t) amount
       (e_clawed (d_epochs t epochId)) (d_totalClawed t)) t) = Inr s'"
proof -
  from assms obtain clawed newTotal t where
    a: "addU Panic (e_clawed (d_epochs s epochId)) amount = Inr clawed" "addU Panic (d_totalClawed s) amount = Inr newTotal"
    and t: "sendValue recipient amount (s\<lparr>d_epochs := (d_epochs s)(epochId := (d_epochs s epochId)\<lparr>e_clawed := clawed\<rparr>),
       d_totalClawed := newTotal\<rparr>) = (True, t)"
    and f: "emitAccounting epochId 0 (emit (EpochClawedBack epochId sender (d_treasury t) amount
       (e_clawed (d_epochs t epochId)) (d_totalClawed t)) t) = Inr s'"
    unfolding payClawback_def Let_def by (auto split: prod.splits)
  have r: "recipient (clawn epochId amount clawed newTotal s) = (True, t)" and le: "amount \<le> d_balance s"
    using t unfolding sendValue_True by (simp_all add: clawn_def)
  show thesis by (rule that [OF _ _ le r f]) (use a in \<open>simp_all add: addU_Inr\<close>)
qed

lemma booked_paid:
  assumes "booked cs s" "\<not> isClaimed s epochId index" "unat claimed = unat (e_claimed (d_epochs s epochId)) + unat amount"
  shows "booked ((epochId, index, amount) # cs) (paid epochId index amount claimed newTotal s)"
proof -
  have c: "isClaimed (paid epochId index amount claimed newTotal s) = isClaimed (setClaimed epochId index s)"
    by (rule isClaimed_cong) (simp add: paid_def)
  have "unat (e_claimed (d_epochs (paid epochId index amount claimed newTotal s) e)) = paidFor e ((epochId, index, amount) # cs)" for e
    using assms(1,3) by (simp add: booked_def paid_def paidFor_def)
  with assms c show ?thesis by (auto simp: booked_def claimKey_def isClaimed_setClaimed)
qed

lemma balancedD:
  assumes "balanced X s"
  shows "e \<notin> X \<Longrightarrow> unat (e_claimed (d_epochs s e)) + unat (e_clawed (d_epochs s e)) \<le> unat (e_funded (d_epochs s e))"
    "(e_rootHash (d_epochs s e) \<noteq> 0) = (0 < e \<and> e < d_nextEpochId s)"
    "e_rootHash (d_epochs s e) = 0 \<Longrightarrow> d_epochs s e = emptyEpoch"
    "accountTotal e_funded s = unat (d_totalFunded s)" "accountTotal e_claimed s = unat (d_totalClaimed s)"
    "accountTotal e_clawed s = unat (d_totalClawed s)"
    "unat (d_totalFunded s) \<le> unat (d_balance s) + unat (d_totalClaimed s) + unat (d_totalClawed s)"
    "d_usedRootHashes s h = (h \<noteq> 0 \<and> (\<exists>e. e_rootHash (d_epochs s e) = h))" "0 < d_nextEpochId s"
  using assms unfolding balanced_def by blast+

lemma balanced_upd:
  assumes bal: "balanced X s" and live: "e_rootHash (d_epochs s k) \<noteq> 0"
    and same: "e_rootHash ep = e_rootHash (d_epochs s k)" "e_funded ep = e_funded (d_epochs s k)"
    and up: "unat (e_claimed ep) = unat (e_claimed (d_epochs s k)) + m" "unat tm = unat (d_totalClaimed s) + m"
      "unat (e_clawed ep) = unat (e_clawed (d_epochs s k)) + n" "unat tn = unat (d_totalClawed s) + n"
    and le: "unat (d_balance s) = unat b + m + n"
    and Y: "X \<subseteq> Y" "k \<in> Y \<or> unat (e_claimed ep) + unat (e_clawed ep) \<le> unat (e_funded ep)"
  shows "balanced Y (s\<lparr>d_epochs := (d_epochs s)(k := ep), d_totalClaimed := tm, d_totalClawed := tn, d_balance := b\<rparr>)"
    (is "balanced Y ?s")
proof -
  have newTotal: "accountTotal field ?s + unat (field (d_epochs s k)) = accountTotal field s + unat (field ep)" for field
    using accountTotal_upd [of field s k ep] accountTotal_cong [of ?s "s\<lparr>d_epochs := (d_epochs s)(k := ep)\<rparr>" field] by simp
  have root: "e_rootHash (d_epochs ?s e) = e_rootHash (d_epochs s e)" for e using same(1) by simp
  show ?thesis
    unfolding balanced_def
  proof (intro conjI allI)
    show "accountTotal e_funded ?s = unat (d_totalFunded ?s)" "accountTotal e_claimed ?s = unat (d_totalClaimed ?s)"
      "accountTotal e_clawed ?s = unat (d_totalClawed ?s)"
      using newTotal [of e_funded] newTotal [of e_claimed] newTotal [of e_clawed] bal same up by (simp_all add: balanced_def)
    show "unat (d_totalFunded ?s) \<le> unat (d_balance ?s) + unat (d_totalClaimed ?s) + unat (d_totalClawed ?s)"
      using bal up le by (simp add: balanced_def)
    show "0 < d_nextEpochId ?s" using bal by (simp add: balanced_def)
    fix e
    show "e \<notin> Y \<longrightarrow> unat (e_claimed (d_epochs ?s e)) + unat (e_clawed (d_epochs ?s e)) \<le> unat (e_funded (d_epochs ?s e))"
      using balancedD(1) [OF bal] Y by auto
    show "(e_rootHash (d_epochs ?s e) \<noteq> 0) = (0 < e \<and> e < d_nextEpochId ?s)" unfolding root using balancedD(2) [OF bal] by simp
    show "e_rootHash (d_epochs ?s e) = 0 \<longrightarrow> d_epochs ?s e = emptyEpoch" using balancedD(3) [OF bal] live same by simp
  next
    fix h
    show "d_usedRootHashes ?s h = (h \<noteq> 0 \<and> (\<exists>e. e_rootHash (d_epochs ?s e) = h))" unfolding root using balancedD(8) [OF bal] by simp
  qed
qed

lemma balanced_cong:
  assumes "d_epochs t = d_epochs s" "d_nextEpochId t = d_nextEpochId s" "d_totalFunded t = d_totalFunded s"
    "d_totalClaimed t = d_totalClaimed s" "d_totalClawed t = d_totalClawed s" "d_usedRootHashes t = d_usedRootHashes s"
    "d_balance t = d_balance s"
  shows "balanced X t = balanced X s"
  using assms accountTotal_cong [of t s] by (simp add: balanced_def)

lemma books_paid:
  assumes books: "books P s" and live: "e_rootHash (d_epochs s epochId) \<noteq> 0" and fresh: "\<not> isClaimed s epochId index"
    and up: "unat claimed = unat (e_claimed (d_epochs s epochId)) + unat amount" "unat newTotal = unat (d_totalClaimed s) + unat amount"
    and le: "amount \<le> d_balance s"
  shows "books ((epochId, index, amount) # P) (paid epochId index amount claimed newTotal s)"
proof -
  let ?s = "paid epochId index amount claimed newTotal s"
  have "unat (d_balance s) = unat (d_balance s - amount) + unat amount" using le by (simp add: unat_sub word_le_nat_alt)
  then have "balanced (insert epochId (fst ` set P)) (s\<lparr>d_epochs := (d_epochs s)(epochId := (d_epochs s epochId)\<lparr>e_claimed := claimed\<rparr>),
      d_totalClaimed := newTotal, d_totalClawed := d_totalClawed s, d_balance := d_balance s - amount\<rparr>)"
    using books up live by (intro balanced_upd [where X = "fst ` set P" and m = "unat amount" and n = 0]) (auto simp: books_def)
  then have "balanced (insert epochId (fst ` set P)) ?s"
    by (rule balanced_cong [THEN iffD2, rotated -1]) (simp_all add: paid_def)
  moreover have "booked ((epochId, index, amount) # P @ claimsOf (d_events ?s)) ?s"
    using booked_paid [OF _ fresh up(1)] books by (simp add: books_def paid_def)
  ultimately show ?thesis by (simp add: books_def)
qed

lemma books_clawn:
  assumes books: "books P s" and live: "e_rootHash (d_epochs s epochId) \<noteq> 0"
    and r: "remaining (d_epochs s epochId) = Inr amount"
    and up: "unat clawed = unat (e_clawed (d_epochs s epochId)) + unat amount" "unat newTotal = unat (d_totalClawed s) + unat amount"
    and le: "amount \<le> d_balance s"
  shows "books P (clawn epochId amount clawed newTotal s)"
proof -
  let ?s = "clawn epochId amount clawed newTotal s"
  have "unat (d_balance s) = unat (d_balance s - amount) + unat amount" using le by (simp add: unat_sub word_le_nat_alt)
  then have "balanced (fst ` set P) (s\<lparr>d_epochs := (d_epochs s)(epochId := (d_epochs s epochId)\<lparr>e_clawed := clawed\<rparr>),
      d_totalClaimed := d_totalClaimed s, d_totalClawed := newTotal, d_balance := d_balance s - amount\<rparr>)"
    using books up live r
    by (intro balanced_upd [where X = "fst ` set P" and m = 0 and n = "unat amount"]) (auto simp: books_def remaining_Inr)
  then have "balanced (fst ` set P) ?s" by (rule balanced_cong [THEN iffD2, rotated -1]) (simp_all add: clawn_def)
  moreover have "booked (P @ claimsOf (d_events ?s)) ?s"
    using books isClaimed_cong [of ?s s] by (simp add: books_def booked_def clawn_def)
  ultimately show ?thesis by (simp add: books_def)
qed

lemma balanced_close:
  assumes "balanced (insert epochId X) s" "remaining (d_epochs s epochId) = Inr rest"
  shows "balanced X s"
proof -
  have "unat (e_claimed (d_epochs s e)) + unat (e_clawed (d_epochs s e)) \<le> unat (e_funded (d_epochs s e))" if "e \<notin> X" for e
    using that assms(2) balancedD(1) [OF assms(1), of e] by (cases "e = epochId") (simp_all add: remaining_Inr)
  with assms(1) show ?thesis unfolding balanced_def by blast
qed

lemma books_finishClaim:
  assumes "finishClaim epochId index account amount s = Inr s'" "books ((epochId, index, amount) # P) s"
  shows "books P s'"
proof -
  let ?e = "emit (RewardClaimed epochId index account amount (e_claimed (d_epochs s epochId)) (d_totalClaimed s)) s"
  obtain rest where r: "remaining (d_epochs s epochId) = Inr rest" and acc: "emitAccounting epochId rest ?e = Inr s'"
    using assms(1) by (auto simp: finishClaim_def Let_def)
  have "balanced (fst ` set P) s"
    by (rule balanced_close [OF _ r]) (use assms(2) in \<open>simp add: books_def\<close>)
  then have "balanced (fst ` set P) ?e" by (rule balanced_cong [THEN iffD2, rotated -1]) (simp_all add: emit_def)
  moreover have "booked (P @ claimsOf (d_events s) @ [(epochId, index, amount)]) s"
    using assms(2) booked_mset [of "(epochId, index, amount) # P @ claimsOf (d_events s)"
      "P @ claimsOf (d_events s) @ [(epochId, index, amount)]" s] by (simp add: books_def)
  then have "booked (P @ claimsOf (d_events ?e)) ?e"
    using isClaimed_cong [of ?e s] by (simp add: booked_def emit_def)
  ultimately have "books P ?e" by (simp add: books_def)
  then show ?thesis by (rule books_same [OF emitAccounting_same [OF acc]])
qed

section \<open>What never changes\<close>

text \<open>Epochs are immutable but for what they have paid; payments, claims and events are never taken back.\<close>

definition keeps_epoch :: "epoch \<Rightarrow> epoch \<Rightarrow> bool" where
  "keeps_epoch ep ep' \<longleftrightarrow>
     e_rootHash ep' = e_rootHash ep \<and> e_funded ep' = e_funded ep \<and> e_claimStart ep' = e_claimStart ep \<and>
     e_claimEnd ep' = e_claimEnd ep \<and> e_claimed ep \<le> e_claimed ep' \<and> e_clawed ep \<le> e_clawed ep'"

definition grows :: "'o distributor \<Rightarrow> 'o distributor \<Rightarrow> bool" where
  "grows s s' \<longleftrightarrow>
     d_treasury s' = d_treasury s \<and> d_publicationDelay s' = d_publicationDelay s \<and> d_clawbackDelay s' = d_clawbackDelay s \<and>
     (\<exists>evs. d_events s' = d_events s @ evs) \<and>
     (\<forall>e. e_rootHash (d_epochs s e) \<noteq> 0 \<longrightarrow> keeps_epoch (d_epochs s e) (d_epochs s' e)) \<and>
     (\<forall>e i. isClaimed s e i \<longrightarrow> isClaimed s' e i)"

lemma keeps_epoch_refl [simp]: "keeps_epoch ep ep"
  by (simp add: keeps_epoch_def)

lemma grows_refl [simp]: "grows s s"
  by (simp add: grows_def)

lemma grows_trans: "grows s t \<Longrightarrow> grows t u \<Longrightarrow> grows s u"
  unfolding grows_def keeps_epoch_def by (auto intro: order_trans)

lemma grows_frame:
  assumes "d_treasury s' = d_treasury s" "d_publicationDelay s' = d_publicationDelay s" "d_clawbackDelay s' = d_clawbackDelay s"
    "d_epochs s' = d_epochs s" "d_claimedBitMaps s' = d_claimedBitMaps s" "d_events s' = d_events s @ evs"
  shows "grows s s'"
  using assms isClaimed_cong [of s' s] by (simp add: grows_def)

lemma grows_emitAccounting: "emitAccounting epochId out s = Inr s' \<Longrightarrow> grows s s'"
  by (drule emitAccounting_Inr) (auto intro!: grows_frame simp: emit_def)

lemma grows_emit: "grows s (emit ev s)"
  by (rule grows_frame) (simp_all add: emit_def)

lemma grows_inherited: "grows s (s\<lparr>d_inherited := o1\<rparr>)"
  by (rule grows_frame [where evs = "[]"]) simp_all

lemma grows_receiveValue: "receiveValue tx s = Inr s' \<Longrightarrow> grows s s'"
  by (auto simp: receiveValue_def intro!: grows_frame [where evs = "[]"])

lemma grows_published: "e_rootHash (d_epochs s epochId) = 0 \<Longrightarrow> grows s (published epochId h v a b balance following funded s)"
  using isClaimed_cong [of "published epochId h v a b balance following funded s" s] by (auto simp: grows_def published_def)

lemma grows_paid: "unat claimed = unat (e_claimed (d_epochs s epochId)) + unat amount \<Longrightarrow> grows s (paid epochId index amount claimed newTotal s)"
proof -
  assume c: "unat claimed = unat (e_claimed (d_epochs s epochId)) + unat amount"
  have i: "isClaimed (paid epochId index amount claimed newTotal s) = isClaimed (setClaimed epochId index s)"
    by (rule isClaimed_cong) (simp add: paid_def)
  have le: "e_claimed (d_epochs s epochId) \<le> claimed" using c by (simp add: word_le_nat_alt)
  show ?thesis unfolding grows_def i isClaimed_setClaimed using le by (simp add: paid_def keeps_epoch_def)
qed

lemma grows_clawn: "unat clawed = unat (e_clawed (d_epochs s epochId)) + unat amount \<Longrightarrow> grows s (clawn epochId amount clawed newTotal s)"
proof -
  assume c: "unat clawed = unat (e_clawed (d_epochs s epochId)) + unat amount"
  have i: "isClaimed (clawn epochId amount clawed newTotal s) = isClaimed s"
    by (rule isClaimed_cong) (simp add: clawn_def)
  have le: "e_clawed (d_epochs s epochId) \<le> clawed" using c by (simp add: word_le_nat_alt)
  show ?thesis unfolding grows_def i using le by (simp add: clawn_def keeps_epoch_def)
qed

section \<open>Every step keeps the books\<close>

definition sound_step :: "'o distributor \<Rightarrow> 'o distributor \<Rightarrow> bool" where
  "sound_step s s' \<longleftrightarrow> (\<forall>P. books P s \<longrightarrow> books P s' \<and> grows s s')"

lemma sound_step_refl [simp]: "sound_step s s"
  by (simp add: sound_step_def)

lemma sound_step_trans: "sound_step s t \<Longrightarrow> sound_step t u \<Longrightarrow> sound_step s u"
  unfolding sound_step_def by (blast intro: grows_trans)

lemma sound_same: "same_books s s' \<Longrightarrow> grows s s' \<Longrightarrow> sound_step s s'"
  by (simp add: sound_step_def books_same)

lemma checkClaim_Inr:
  "checkClaim kec now epochId index account amount nodes s = Inr u \<longleftrightarrow>
   e_rootHash (d_epochs s epochId) \<noteq> 0 \<and> account \<noteq> 0 \<and> amount \<noteq> 0 \<and>
   ucast (e_claimStart (d_epochs s epochId)) \<le> now \<and> now < ucast (e_claimEnd (d_epochs s epochId)) \<and>
   \<not> isClaimed s epochId index \<and>
   processProof kec epochId index account amount nodes = Inr (e_rootHash (d_epochs s epochId), e_funded (d_epochs s epochId))"
  by (auto simp: checkClaim_def requireEpoch_def bindR_Inr_iff not_less)

lemma checkClawback_Inr:
  "checkClawback now epochId s = Inr amount \<longleftrightarrow>
   e_rootHash (d_epochs s epochId) \<noteq> 0 \<and> amount \<noteq> 0 \<and> remaining (d_epochs s epochId) = Inr amount \<and>
   (\<exists>t. clawbackTime s (d_epochs s epochId) = Inr t \<and> t \<le> now)"
  by (auto simp: checkClawback_def requireEpoch_def bindR_Inr_iff not_less)

lemma nonReentrant_Inr:
  assumes "nonReentrant I body s = Inr s'"
  obtains o1 t where "in_nonReentrantBefore I (d_inherited s) = Inr o1" "body (s\<lparr>d_inherited := o1\<rparr>) = Inr t"
    "s' = t\<lparr>d_inherited := in_nonReentrantAfter I (d_inherited t)\<rparr>"
  using assms by (auto simp: nonReentrant_def)

lemma sound_inherited: "sound_step s (s\<lparr>d_inherited := o1\<rparr>)"
  by (rule sound_same [OF inherited_same grows_inherited])

lemma sound_nonReentrant:
  assumes "nonReentrant I body s = Inr s'" "\<And>t t'. body t = Inr t' \<Longrightarrow> sound_step t t'"
  shows "sound_step s s'"
proof -
  obtain o1 t where t: "body (s\<lparr>d_inherited := o1\<rparr>) = Inr t" "s' = t\<lparr>d_inherited := in_nonReentrantAfter I (d_inherited t)\<rparr>"
    using nonReentrant_Inr [OF assms(1)] by metis
  show ?thesis
    unfolding t(2) by (rule sound_step_trans [OF sound_inherited sound_step_trans [OF assms(2) [OF t(1)] sound_inherited]])
qed

lemma sound_payClaim:
  assumes "payClaim recipient epochId index account amount s = Inr s'" "\<not> isClaimed s epochId index"
    and "e_rootHash (d_epochs s epochId) \<noteq> 0" "\<And>t ok t'. recipient t = (ok, t') \<Longrightarrow> sound_step t t'"
  shows "sound_step s s'"
  unfolding sound_step_def
proof (intro allI impI)
  fix P assume books: "books P s"
  obtain claimed newTotal t where
    up: "unat claimed = unat (e_claimed (d_epochs s epochId)) + unat amount" "unat newTotal = unat (d_totalClaimed s) + unat amount"
    and le: "amount \<le> d_balance s" and r: "recipient (paid epochId index amount claimed newTotal s) = (True, t)"
    and f: "finishClaim epochId index account amount t = Inr s'"
    by (rule payClaim_Inr [OF assms(1)])
  have "books ((epochId, index, amount) # P) (paid epochId index amount claimed newTotal s)"
    by (rule books_paid [OF books assms(3,2) up le])
  then have t: "books ((epochId, index, amount) # P) t" "grows (paid epochId index amount claimed newTotal s) t"
    using assms(4) [OF r] by (simp_all add: sound_step_def)
  have "grows t s'"
    using f grows_trans [OF grows_emit grows_emitAccounting] by (auto simp: finishClaim_def Let_def)
  then show "books P s' \<and> grows s s'"
    using books_finishClaim [OF f t(1)] grows_trans [OF grows_paid [OF up(1)] grows_trans [OF t(2)]] by blast
qed

lemma sound_payClawback:
  assumes "payClawback recipient sender epochId amount s = Inr s'" "remaining (d_epochs s epochId) = Inr amount"
    and "e_rootHash (d_epochs s epochId) \<noteq> 0" "\<And>t ok t'. recipient t = (ok, t') \<Longrightarrow> sound_step t t'"
  shows "sound_step s s'"
  unfolding sound_step_def
proof (intro allI impI)
  fix P assume books: "books P s"
  obtain clawed newTotal t where
    up: "unat clawed = unat (e_clawed (d_epochs s epochId)) + unat amount" "unat newTotal = unat (d_totalClawed s) + unat amount"
    and le: "amount \<le> d_balance s" and r: "recipient (clawn epochId amount clawed newTotal s) = (True, t)"
    and f: "emitAccounting epochId 0 (emit (EpochClawedBack epochId sender (d_treasury t) amount
       (e_clawed (d_epochs t epochId)) (d_totalClawed t)) t) = Inr s'"
    by (rule payClawback_Inr [OF assms(1)])
  have "books P (clawn epochId amount clawed newTotal s)" by (rule books_clawn [OF books assms(3,2) up le])
  then have t: "books P t" "grows (clawn epochId amount clawed newTotal s) t" using assms(4) [OF r] by (simp_all add: sound_step_def)
  have "books P s'" by (rule books_same [OF same_books_trans [OF emit_same emitAccounting_same [OF f]] t(1)]) simp
  moreover have "grows t s'" by (rule grows_trans [OF grows_emit grows_emitAccounting [OF f]])
  ultimately show "books P s' \<and> grows s s'" using grows_trans [OF grows_clawn [OF up(1)] grows_trans [OF t(2)]] by blast
qed

lemma sound_claim:
  assumes "claim kec I recipient tx epochId index account amount nodes s = Inr s'"
    "\<And>t ok t'. recipient t = (ok, t') \<Longrightarrow> sound_step t t'"
  shows "sound_step s s'"
proof -
  have "nonReentrant I (\<lambda>s. bindR (mapErr InheritedRevert (in_requireNotPaused I (d_inherited s))) (\<lambda>_.
       bindR (checkClaim kec (c_timestamp tx) epochId index account amount nodes s) (\<lambda>_.
       payClaim recipient epochId index account amount s))) s = Inr s'"
    using assms(1) by (auto simp: claim_def)
  then show ?thesis
    by (rule sound_nonReentrant) (auto simp: checkClaim_Inr intro: sound_payClaim [OF _ _ _ assms(2)])
qed

lemma sound_clawback:
  assumes "clawback kec I recipient tx epochId s = Inr s'" "\<And>t ok t'. recipient t = (ok, t') \<Longrightarrow> sound_step t t'"
  shows "sound_step s s'"
proof -
  have "nonReentrant I (\<lambda>s. bindR (mapErr InheritedRevert (in_requireNotPaused I (d_inherited s))) (\<lambda>_.
       bindR (checkClawback (c_timestamp tx) epochId s) (\<lambda>amount.
       payClawback recipient (c_sender tx) epochId amount s))) s = Inr s'"
    using assms(1) by (auto simp: clawback_def)
  then show ?thesis
    by (rule sound_nonReentrant) (auto simp: checkClawback_Inr intro: sound_payClawback [OF _ _ _ assms(2)])
qed

lemma sound_publishEpoch:
  assumes "publishEpoch kec I tx epochId rootHash rootSum claimStart claimEnd s = Inr s'"
  shows "sound_step s s'"
  unfolding sound_step_def
proof (intro allI impI conjI)
  fix P assume books: "books P s"
  show "books P s'" by (rule books_publishEpoch [OF assms books])
  obtain balance following funded where p: "epochId = d_nextEpochId s"
    and e: "emitAccounting epochId rootSum (emit (EpochPublished epochId rootHash (c_sender tx) rootSum claimStart claimEnd)
       (published epochId rootHash rootSum claimStart claimEnd balance following funded s)) = Inr s'"
    by (rule publishEpoch_Inr [OF assms])
  have "e_rootHash (d_epochs s epochId) = 0" using books balancedD(2) [of _ s epochId] by (auto simp: books_def p)
  then show "grows s s'"
    by (rule grows_trans [OF grows_published grows_trans [OF grows_emit grows_emitAccounting [OF e]]])
qed

lemma sound_exec:
  fixes s t :: "'o distributor"
  shows "exec kec I c s = Inr s' \<Longrightarrow> sound_step s s'" and "sound_step t (run kec I cs t)"
proof (induction kec I c s and kec I cs t arbitrary: s' rule: exec_run.induct)
  case (2 kec I tx epochId index account amount nodes calls accepts s)
  then show ?case by (auto intro: sound_claim)
next
  case (3 kec I tx epochId calls accepts s)
  then show ?case by (auto intro: sound_clawback)
next
  case (9 kec I c cs s)
  show ?case
  proof (cases "exec kec I c s")
    case (Inr t)
    with 9 show ?thesis by (auto intro: sound_step_trans)
  qed (use 9 in simp)
qed (auto simp: pause_def unpause_def intro: sound_publishEpoch sound_inherited sound_same receiveValue_same grows_receiveValue)

section \<open>Reachable contracts\<close>

lemma books_constructor:
  assumes "constructor kec I balance delay admin publisher pauser operator treasury publicationDelay clawbackDelay = Inr s"
  shows "books [] s"
proof -
  have s: "d_epochs s = (\<lambda>_. emptyEpoch)" "d_claimedBitMaps s = (\<lambda>_ _. 0)" "d_nextEpochId s = 1" "d_events s = []"
    "d_totalFunded s = 0" "d_totalClaimed s = 0" "d_totalClawed s = 0" "d_usedRootHashes s = (\<lambda>_. False)"
    using assms by (auto simp: constructor_def)
  have "\<not> isClaimed s e i" for e i unfolding isClaimed_def s Let_def masked by simp
  moreover have "(0 :: uint256) < e \<Longrightarrow> \<not> e < 1" for e by (simp add: word_less_nat_alt)
  ultimately show ?thesis
    by (auto simp: books_def booked_def balanced_def s accountTotal_def emptyEpoch_def paidFor_def)
qed

text \<open>The states a deployed contract can get into.\<close>

definition reachable :: "keccak \<Rightarrow> 'o inherited \<Rightarrow> 'o distributor \<Rightarrow> bool" where
  "reachable kec I s \<longleftrightarrow>
     (\<exists>balance delay admin publisher pauser operator treasury publicationDelay clawbackDelay s0 calls.
        constructor kec I balance delay admin publisher pauser operator treasury publicationDelay clawbackDelay = Inr s0 \<and>
        s = run kec I calls s0)"

lemma reachable_books: "reachable kec I s \<Longrightarrow> books [] s"
  unfolding reachable_def using sound_exec(2) books_constructor by (metis sound_step_def)

definition owed :: "epoch \<Rightarrow> nat" where
  "owed ep = unat (e_funded ep) - (unat (e_claimed ep) + unat (e_clawed ep))"

lemma balanced_owed:
  assumes "balanced {} s"
  shows "(\<Sum>e \<in> UNIV. owed (d_epochs s e)) + unat (d_totalClaimed s) + unat (d_totalClawed s) = unat (d_totalFunded s)"
proof -
  have "owed (d_epochs s e) + unat (e_claimed (d_epochs s e)) + unat (e_clawed (d_epochs s e)) = unat (e_funded (d_epochs s e))" for e
    using balancedD(1) [OF assms, of e] by (simp add: owed_def)
  then have "(\<Sum>e \<in> UNIV. owed (d_epochs s e)) + accountTotal e_claimed s + accountTotal e_clawed s = accountTotal e_funded s"
    unfolding accountTotal_def sum.distrib [symmetric] by simp
  then show ?thesis using balancedD(4-6) [OF assms] by simp
qed

lemma totalOutstanding_Inr:
  "totalOutstanding s = Inr out \<longleftrightarrow> unat (d_totalFunded s) = unat (d_totalClaimed s) + unat (d_totalClawed s) + unat out"
  using remaining_Inr [of "\<lparr>e_rootHash = 0, e_funded = d_totalFunded s, e_claimStart = 0, e_claimEnd = 0,
      e_claimed = d_totalClaimed s, e_clawed = d_totalClawed s\<rparr>" out]
  by (simp add: totalOutstanding_def remaining_def)

lemma unat256: "unat w < 2 ^ 256" for w :: uint256
  by (rule less_le_trans [OF unsigned_less]) simp

lemma word_exists: "n < 2 ^ 256 \<Longrightarrow> \<exists>w :: uint256. unat w = n"
  by (rule exI [of _ "of_nat n"]) (simp add: unsigned_of_nat take_bit_nat_eq_self)

lemma balanced_covered:
  assumes "balanced {} s"
  obtains out surplus where "totalOutstanding s = Inr out" "forcedSurplus s = Inr surplus"
    "unat out = (\<Sum>e \<in> UNIV. owed (d_epochs s e))" "unat (d_balance s) = unat out + unat surplus"
proof -
  note b = balanced_owed [OF assms]
  have "(\<Sum>e \<in> UNIV. owed (d_epochs s e)) < 2 ^ 256"
    by (rule le_less_trans [OF _ unat256 [of "d_totalFunded s"]]) (use b in simp)
  then obtain out :: uint256 where o: "unat out = (\<Sum>e \<in> UNIV. owed (d_epochs s e))" using word_exists by blast
  have t: "totalOutstanding s = Inr out" using b o by (simp add: totalOutstanding_Inr)
  have le: "out \<le> d_balance s" using balancedD(7) [OF assms] b o by (simp add: word_le_nat_alt)
  then have f: "forcedSurplus s = Inr (d_balance s - out)" by (simp add: forcedSurplus_def t subU_def throwIf_def leD)
  have "unat (d_balance s) = unat out + unat (d_balance s - out)" using le by (simp add: unat_sub word_le_nat_alt)
  with t f o show thesis by (rule that)
qed

text \<open>
  C2: The distributor is always solvent. In every state a deployed contract can reach, by any calls in any order and with
  recipients that call back into it while they are paid, no epoch has paid more than its funding, the outstanding total
  is the sum of what the epochs still owe, and the native balance covers it, so that its reconciliation never fails.
\<close>

theorem distributor_always_solvent:
  assumes "reachable kec I s"
  shows "(\<exists>out surplus. totalOutstanding s = Inr out \<and> forcedSurplus s = Inr surplus \<and>
      unat out = (\<Sum>e \<in> UNIV. owed (d_epochs s e)) \<and> unat (d_balance s) = unat out + unat surplus) \<and>
    (\<forall>e. unat (e_claimed (d_epochs s e)) + unat (e_clawed (d_epochs s e)) \<le> unat (e_funded (d_epochs s e)))"
proof -
  have b: "balanced {} s" using reachable_books [OF assms] by (simp add: books_def)
  show ?thesis using balanced_covered [OF b] balancedD(1) [OF b] by (metis empty_iff)
qed

text \<open>
  C3: Every claim is paid at most once. In every state a deployed contract can reach, the claims its events report are
  distinct in epoch and index, they are exactly those the bit map holds, and per epoch they add up to the amount booked
  as claimed.
\<close>

theorem claims_paid_once:
  assumes "reachable kec I s"
  shows "distinct (map claimKey (claimsOf (d_events s))) \<and>
    (\<forall>e i. isClaimed s e i \<longleftrightarrow> (e, i) \<in> set (map claimKey (claimsOf (d_events s)))) \<and>
    (\<forall>e. paidFor e (claimsOf (d_events s)) = unat (e_claimed (d_epochs s e)))"
  using reachable_books [OF assms] by (simp add: books_def booked_def)

lemma run_append: "run kec I (cs @ ds) s = run kec I ds (run kec I cs s)"
  by (induction cs arbitrary: s) simp_all

lemma reachable_run: "reachable kec I s \<Longrightarrow> reachable kec I (run kec I cs s)"
  unfolding reachable_def run_append [symmetric] by (metis run_append)

text \<open>
  C12: Published epochs are immutable. Whatever is called, a published epoch keeps its root, funding and window, the
  amounts it has claimed and clawed never fall, no claim is forgotten, no event is taken back, and the treasury and the
  delays stay as deployed.
\<close>

theorem epochs_are_immutable:
  assumes "reachable kec I s"
  shows "grows s (run kec I calls s)"
  using sound_exec(2) [of s kec I calls] reachable_books [OF assms] unfolding sound_step_def by blast

section \<open>When a claim is paid\<close>

lemma claim_room:
  assumes "books [] s" "unat (e_claimed (d_epochs s e)) + unat (e_clawed (d_epochs s e)) + unat m \<le> unat (e_funded (d_epochs s e))"
  shows "unat (d_totalClaimed s) + unat m < 2 ^ 256" "m \<le> d_balance s"
proof -
  have b: "balanced {} s" using assms(1) by (simp add: books_def)
  have "unat m \<le> owed (d_epochs s e)" using assms(2) by (simp add: owed_def)
  also have "\<dots> \<le> (\<Sum>e \<in> UNIV. owed (d_epochs s e))" by (rule member_le_sum) simp_all
  finally have m: "unat m \<le> (\<Sum>e \<in> UNIV. owed (d_epochs s e))" .
  from unat256 [of "d_totalFunded s"] m balanced_owed [OF b] show "unat (d_totalClaimed s) + unat m < 2 ^ 256" by simp
  show "m \<le> d_balance s" using m balanced_owed [OF b] balancedD(7) [OF b] by (simp add: word_le_nat_alt)
qed

text \<open>A recipient that accepts the value and calls nothing.\<close>

definition plainRecipient :: "'o distributor \<Rightarrow> bool \<times> 'o distributor" where
  "plainRecipient s = (True, s)"

lemma payClaim_plain:
  assumes books: "books [] s" and live: "e_rootHash (d_epochs s e) \<noteq> 0" and fresh: "\<not> isClaimed s e i"
    and room: "unat (e_claimed (d_epochs s e)) + unat (e_clawed (d_epochs s e)) + unat m \<le> unat (e_funded (d_epochs s e))"
  shows "\<exists>s'. payClaim plainRecipient e i a m s = Inr s' \<and> unat (d_balance s') + unat m = unat (d_balance s)"
proof -
  have "unat (e_claimed (d_epochs s e)) + unat m < 2 ^ 256"
    by (rule le_less_trans [OF _ unat256 [of "e_funded (d_epochs s e)"]]) (use room in simp)
  then obtain claimed :: uint256 where c: "unat claimed = unat (e_claimed (d_epochs s e)) + unat m"
    using word_exists by blast
  obtain newTotal :: uint256 where t: "unat newTotal = unat (d_totalClaimed s) + unat m"
    using claim_room(1) [OF books room] word_exists by blast
  note le = claim_room(2) [OF books room]
  let ?p = "paid e i m claimed newTotal s"
  let ?e = "emit (RewardClaimed e i a m (e_claimed (d_epochs ?p e)) (d_totalClaimed ?p)) ?p"
  have p: "books [(e, i, m)] ?p" by (rule books_paid [OF books live fresh c t le])
  obtain rest :: uint256 where r: "unat (e_funded (d_epochs s e)) = unat claimed + unat (e_clawed (d_epochs s e)) + unat rest"
  proof -
    have "unat (e_funded (d_epochs s e)) - (unat claimed + unat (e_clawed (d_epochs s e))) < 2 ^ 256"
      by (rule le_less_trans [OF _ unat256 [of "e_funded (d_epochs s e)"]]) simp
    with word_exists obtain rest :: uint256
      where "unat rest = unat (e_funded (d_epochs s e)) - (unat claimed + unat (e_clawed (d_epochs s e)))" by blast
    with room c show thesis by (intro that [of rest]) simp
  qed
  have rem: "remaining (d_epochs ?p e) = Inr rest" using r by (simp add: remaining_Inr paid_def)
  have "balanced {} ?p" by (rule balanced_close [OF _ rem]) (use p in \<open>simp add: books_def\<close>)
  then have "balanced {} ?e" by (rule balanced_cong [THEN iffD2, rotated -1]) (simp_all add: emit_def)
  then obtain out surplus where o: "totalOutstanding ?e = Inr out" "forcedSurplus ?e = Inr surplus" by (rule balanced_covered)
  have send: "sendValue plainRecipient m ((setClaimed e i s)\<lparr>d_epochs := (d_epochs s)(e := (d_epochs s e)\<lparr>e_claimed := claimed\<rparr>),
      d_totalClaimed := newTotal\<rparr>) = (True, ?p)"
    unfolding sendValue_True using le by (simp add: plainRecipient_def paid_def)
  have "payClaim plainRecipient e i a m s = finishClaim e i a m ?p"
    using c t by (simp add: payClaim_def Let_def addU_Inr [THEN iffD2] send)
  also have "\<dots> = Inr (emit (AccountingReconciled e rest out (d_balance ?e) surplus) ?e)"
    by (simp add: finishClaim_def Let_def rem emitAccounting_def o)
  finally show ?thesis using le by (simp add: emit_def paid_def unat_sub word_le_nat_alt)
qed

lemma payClaim_room:
  assumes "payClaim plainRecipient e i a m s = Inr s'"
  shows "unat (e_claimed (d_epochs s e)) + unat (e_clawed (d_epochs s e)) + unat m \<le> unat (e_funded (d_epochs s e))"
proof -
  obtain claimed newTotal t where c: "unat claimed = unat (e_claimed (d_epochs s e)) + unat m"
    and t: "plainRecipient (paid e i m claimed newTotal s) = (True, t)" and f: "finishClaim e i a m t = Inr s'"
    by (rule payClaim_Inr [OF assms])
  from f obtain rest where "remaining (d_epochs t e) = Inr rest" by (auto simp: finishClaim_def Let_def)
  with c t show ?thesis by (auto simp: plainRecipient_def remaining_Inr paid_def)
qed

lemma exec_plain:
  "exec kec I (Claim tx e i a m nodes [] True) s = claim kec I plainRecipient tx e i a m nodes s"
proof -
  have "(\<lambda>s'. (True, run kec I [] s')) = plainRecipient" by (simp add: plainRecipient_def fun_eq_iff)
  then show ?thesis by simp
qed

lemma books_inherited: "books P (s\<lparr>d_inherited := o1\<rparr>) \<longleftrightarrow> books P s"
  using books_same [OF inherited_same, of P s o1] books_same [OF inherited_same, of P "s\<lparr>d_inherited := o1\<rparr>" "d_inherited s"] by auto

lemma isClaimed_inherited [simp]: "isClaimed (s\<lparr>d_inherited := o1\<rparr>) = isClaimed s"
  by (rule isClaimed_cong) simp

text \<open>When a claim is due: the conditions on the epoch, the window, the bit map, the proof and the funding.\<close>

definition claimDue :: "keccak \<Rightarrow> uint256 \<Rightarrow> uint256 \<Rightarrow> uint256 \<Rightarrow> address \<Rightarrow> uint256 \<Rightarrow> sum_node list \<Rightarrow> 'o distributor \<Rightarrow> bool" where
  "claimDue kec now e i a m nodes s \<longleftrightarrow>
     e_rootHash (d_epochs s e) \<noteq> 0 \<and> a \<noteq> 0 \<and> m \<noteq> 0 \<and>
     ucast (e_claimStart (d_epochs s e)) \<le> now \<and> now < ucast (e_claimEnd (d_epochs s e)) \<and> \<not> isClaimed s e i \<and>
     processProof kec e i a m nodes = Inr (e_rootHash (d_epochs s e), e_funded (d_epochs s e)) \<and>
     unat (e_claimed (d_epochs s e)) + unat (e_clawed (d_epochs s e)) + unat m \<le> unat (e_funded (d_epochs s e))"

lemma claim_plain_iff:
  assumes "books [] s"
  shows "(\<exists>s'. claim kec I plainRecipient tx e i a m nodes s = Inr s') \<longleftrightarrow>
    c_value tx = 0 \<and> (\<exists>o1. in_nonReentrantBefore I (d_inherited s) = Inr o1 \<and> in_requireNotPaused I o1 = Inr ()) \<and>
    claimDue kec (c_timestamp tx) e i a m nodes s" (is "?l \<longleftrightarrow> ?r")
proof
  assume ?l
  then obtain s' o1 t where v: "c_value tx = 0" and o1: "in_nonReentrantBefore I (d_inherited s) = Inr o1"
    "in_requireNotPaused I o1 = Inr ()" and c: "checkClaim kec (c_timestamp tx) e i a m nodes (s\<lparr>d_inherited := o1\<rparr>) = Inr ()"
    and p: "payClaim plainRecipient e i a m (s\<lparr>d_inherited := o1\<rparr>) = Inr t"
    by (auto simp: claim_def nonReentrant_def)
  with payClaim_room [OF p] show ?r by (simp add: checkClaim_Inr claimDue_def)
next
  assume r: ?r
  then obtain o1 where o1: "in_nonReentrantBefore I (d_inherited s) = Inr o1" "in_requireNotPaused I o1 = Inr ()" by auto
  have due: "claimDue kec (c_timestamp tx) e i a m nodes s" using r by simp
  let ?s = "s\<lparr>d_inherited := o1\<rparr>"
  have c: "checkClaim kec (c_timestamp tx) e i a m nodes ?s = Inr ()" using due by (simp add: checkClaim_Inr claimDue_def)
  have "\<exists>t. payClaim plainRecipient e i a m ?s = Inr t \<and> unat (d_balance t) + unat m = unat (d_balance ?s)"
    by (rule payClaim_plain) (use assms due in \<open>simp_all add: books_inherited claimDue_def\<close>)
  with c o1 r show ?l by (auto simp: claim_def nonReentrant_def)
qed

text \<open>
  C11: A claim of an account without code that accepts value is paid exactly when it is due: the contract is neither
  paused nor entered, the epoch is published and its window open, the index is unclaimed, the proof rebuilds the funded
  root and the epoch has the amount left. In a reachable contract nothing else can stop it: no sum overflows and the
  balance is always sufficient.
\<close>

theorem claim_paid_iff_due:
  assumes "reachable kec I s"
  shows "(\<exists>s'. exec kec I (Claim tx e i a m nodes [] True) s = Inr s') \<longleftrightarrow>
    c_value tx = 0 \<and> (\<exists>o1. in_nonReentrantBefore I (d_inherited s) = Inr o1 \<and> in_requireNotPaused I o1 = Inr ()) \<and>
    claimDue kec (c_timestamp tx) e i a m nodes s"
  unfolding exec_plain by (rule claim_plain_iff [OF reachable_books [OF assms]])

section \<open>A sample contract\<close>

text \<open>An inherited state of two flags, paused and entered, where everybody has every role.\<close>

definition sample_inherited :: "(bool \<times> bool) inherited" where
  "sample_inherited =
     \<lparr>in_init = (\<lambda>_ _. Inr (False, False)), in_grantRole = (\<lambda>_ _ o1. Inr o1), in_checkRole = (\<lambda>_ _ _. Inr ()),
      in_requireNotPaused = (\<lambda>(p, _). if p then Inl ''EnforcedPause'' else Inr ()),
      in_pause = (\<lambda>_ (p, n). if p then Inl ''EnforcedPause'' else Inr (True, n)),
      in_unpause = (\<lambda>_ (p, n). if p then Inr (False, n) else Inl ''ExpectedPause''),
      in_nonReentrantBefore = (\<lambda>(p, n). if n then Inl ''ReentrancyGuardReentrantCall'' else Inr (p, True)),
      in_nonReentrantAfter = (\<lambda>(p, _). (p, False))\<rparr>"

definition sample_root :: bytes32 where
  "sample_root = push_bit 200 1"

lemma sample_root_big: "sample_root \<noteq> 0" "unat sample_root = 2 ^ 200"
  by (simp_all add: sample_root_def)

definition sample_keccak :: keccak where
  "sample_keccak bytes = sample_root"

definition sample_tx :: "uint256 \<Rightarrow> uint256 \<Rightarrow> call_context" where
  "sample_tx v now = \<lparr>c_sender = 7, c_value = v, c_timestamp = now\<rparr>"

definition sample_deployed :: "distributor_error + (bool \<times> bool) distributor" where
  "sample_deployed = constructor sample_keccak sample_inherited 0 1 2 3 4 5 6 10 20"

text \<open>An epoch with one claim is published and some value forced in.\<close>

definition sample_calls :: "(bool \<times> bool) call list" where
  "sample_calls = [PublishEpoch (sample_tx 30 0) 1 sample_root 30 100 200, ForceValue (sample_tx 3 0)]"

definition sample_paying :: "(bool \<times> bool) call list" where
  "sample_paying =
     [Claim (sample_tx 0 150) 1 0 9 30 [] [Claim (sample_tx 0 150) 1 0 9 30 [] [] True] True, Claim (sample_tx 0 150) 1 0 9 30 [] [] True]"

definition sample_distributor :: "(bool \<times> bool) distributor" where
  "sample_distributor =
     \<lparr>d_treasury = 6, d_publicationDelay = 10, d_clawbackDelay = 20, d_nextEpochId = 2, d_totalFunded = 30,
      d_totalClaimed = 0, d_totalClawed = 0,
      d_epochs = (\<lambda>_. emptyEpoch)(1 := \<lparr>e_rootHash = sample_root, e_funded = 30, e_claimStart = 100, e_claimEnd = 200, e_claimed = 0, e_clawed = 0\<rparr>),
      d_usedRootHashes = (\<lambda>_. False)(sample_root := True), d_claimedBitMaps = (\<lambda>_ _. 0), d_balance = 33,
      d_events = [EpochPublished 1 sample_root 7 30 100 200, AccountingReconciled 1 30 30 30 0], d_inherited = (False, False)\<rparr>"

lemma sample_reached: "\<exists>s0. sample_deployed = Inr s0 \<and> run sample_keccak sample_inherited sample_calls s0 = sample_distributor"
  by (simp add: sample_deployed_def constructor_def sample_inherited_def sample_calls_def publishEpoch_def receiveValue_def sample_tx_def
      addU_def Let_def emitAccounting_def totalOutstanding_def forcedSurplus_def subU_def emit_def sample_distributor_def throwIf_def sample_root_big(1))

lemma sample_reachable: "reachable sample_keccak sample_inherited sample_distributor"
  unfolding reachable_def using sample_reached unfolding sample_deployed_def by metis

definition sample_paid :: "(bool \<times> bool) distributor" where
  "sample_paid = run sample_keccak sample_inherited sample_paying sample_distributor"

lemma sample_slot: "slotOf 0 = 0" "maskOf 0 = 1"
  by (simp_all add: slotOf_def maskOf_def)

definition sample_booked :: "(bool \<times> bool) distributor" where
  "sample_booked = sample_distributor
     \<lparr>d_totalClaimed := 30, d_epochs := (d_epochs sample_distributor)(1 := (d_epochs sample_distributor 1)\<lparr>e_claimed := 30\<rparr>),
      d_claimedBitMaps := (\<lambda>_ _. 0)(1 := (\<lambda>_. 0)(0 := 1)), d_balance := 3,
      d_events := d_events sample_distributor @ [RewardClaimed 1 0 9 30 30 30, AccountingReconciled 1 0 0 3 3]\<rparr>"

text \<open>The guard stops the claim that the recipient makes while it is paid, the bit map the one that follows.\<close>

lemma sample_reentered:
  "d_inherited s = (p, True) \<Longrightarrow> exec sample_keccak sample_inherited (Claim tx e i a m nodes calls accepts) s =
     Inl (if c_value tx \<noteq> 0 then NonPayable else InheritedRevert ''ReentrancyGuardReentrantCall'')"
  by (simp add: claim_def nonReentrant_def sample_inherited_def)

lemma sample_checked: "checkClaim sample_keccak 150 1 0 9 30 [] (sample_distributor\<lparr>d_inherited := o1\<rparr>) = Inr ()"
  by (simp add: checkClaim_Inr sample_distributor_def isClaimed_def Let_def sample_slot processProof_def leafHashOf_def sample_keccak_def
      sample_root_big(1))

lemma sample_payment:
  assumes r: "\<And>s. d_inherited s = (False, True) \<Longrightarrow> recipient s = (True, s)"
  shows "payClaim recipient 1 0 9 30 (sample_distributor\<lparr>d_inherited := (False, True)\<rparr>) = Inr (sample_booked\<lparr>d_inherited := (False, True)\<rparr>)"
proof -
  let ?s = "sample_distributor\<lparr>d_inherited := (False, True)\<rparr>"
  let ?p = "?s\<lparr>d_totalClaimed := 30, d_epochs := (d_epochs sample_distributor)(1 := (d_epochs sample_distributor 1)\<lparr>e_claimed := 30\<rparr>),
      d_claimedBitMaps := (\<lambda>_ _. 0)(1 := (\<lambda>_. 0)(0 := 1)), d_balance := 3\<rparr>"
  have s: "setClaimed 1 0 ?s = ?s\<lparr>d_claimedBitMaps := (\<lambda>_ _. 0)(1 := (\<lambda>_. 0)(0 := 1))\<rparr>"
    by (simp add: setClaimed_def Let_def sample_slot sample_distributor_def)
  have "payClaim recipient 1 0 9 30 ?s = finishClaim 1 0 9 30 ?p"
    unfolding payClaim_def Let_def s by (simp add: sample_distributor_def addU_def sendValue_def r)
  also have "\<dots> = Inr (sample_booked\<lparr>d_inherited := (False, True)\<rparr>)"
    by (simp add: finishClaim_def Let_def remaining_def subU_def emitAccounting_def totalOutstanding_def forcedSurplus_def emit_def
        sample_distributor_def sample_booked_def throwIf_def)
  finally show ?thesis .
qed

lemma sample_paid_eq: "sample_paid = sample_booked"
proof -
  let ?x = "exec sample_keccak sample_inherited"
  have i: "d_inherited sample_distributor = (False, False)" by (simp add: sample_distributor_def)
  have n: "run sample_keccak sample_inherited [Claim (sample_tx 0 150) 1 0 9 30 [] [] True] s = s" if "d_inherited s = (False, True)" for s
    using sample_reentered [OF that] by (simp del: exec.simps)
  let ?r = "\<lambda>s'. (True, run sample_keccak sample_inherited [Claim (sample_tx 0 150) 1 0 9 30 [] [] True] s')"
  have p: "payClaim ?r 1 0 9 30 (sample_distributor\<lparr>d_inherited := (False, True)\<rparr>) = Inr (sample_booked\<lparr>d_inherited := (False, True)\<rparr>)"
    by (rule sample_payment) (simp only: n)
  have g: "in_nonReentrantBefore sample_inherited (False, False) = Inr (False, True)" "in_requireNotPaused sample_inherited (False, True) = Inr ()"
    "in_nonReentrantAfter sample_inherited (False, True) = (False, False)" "c_value (sample_tx 0 150) = 0" "c_timestamp (sample_tx 0 150) = 150"
    by (simp_all add: sample_inherited_def sample_tx_def)
  have "?x (Claim (sample_tx 0 150) 1 0 9 30 [] [Claim (sample_tx 0 150) 1 0 9 30 [] [] True] True) sample_distributor =
      Inr (sample_booked\<lparr>d_inherited := (False, False)\<rparr>)"
    unfolding exec.simps claim_def nonReentrant_def i g mapErr_simps bindR_simps
    by (simp add: g sample_checked p del: run.simps)
  moreover have "sample_booked\<lparr>d_inherited := (False, False)\<rparr> = sample_booked" by (simp add: sample_booked_def sample_distributor_def)
  moreover have "isClaimed sample_booked 1 0" by (simp add: sample_booked_def isClaimed_def Let_def sample_slot)
  then have "?x (Claim (sample_tx 0 150) 1 0 9 30 [] [] True) sample_booked \<noteq> Inr t" for t
    by (auto simp: claim_def nonReentrant_def checkClaim_Inr)
  then have "\<exists>er. ?x (Claim (sample_tx 0 150) 1 0 9 30 [] [] True) sample_booked = Inl er" by (metis sum.exhaust)
  ultimately show ?thesis unfolding sample_paid_def sample_paying_def by (auto simp del: exec.simps)
qed

lemma sample_paid_reachable: "reachable sample_keccak sample_inherited sample_paid"
  unfolding sample_paid_def by (rule reachable_run [OF sample_reachable])

theorem distributor_always_solvent_witness:
  "\<exists>out surplus. totalOutstanding sample_paid = Inr out \<and> forcedSurplus sample_paid = Inr surplus \<and> unat (d_balance sample_paid) = unat out + unat surplus \<and>
     d_balance sample_paid = 3 \<and> d_totalClaimed sample_paid = 30"
proof -
  have b: "d_balance sample_paid = 3" "d_totalClaimed sample_paid = 30" by (simp_all add: sample_paid_eq sample_booked_def)
  obtain out surplus where "totalOutstanding sample_paid = Inr out" "forcedSurplus sample_paid = Inr surplus" "unat (d_balance sample_paid) = unat out + unat surplus"
    using distributor_always_solvent [OF sample_paid_reachable] by blast
  with b show ?thesis by blast
qed

theorem claims_paid_once_witness:
  "claimsOf (d_events sample_paid) = [(1, 0, 30)] \<and> isClaimed sample_paid 1 0"
proof -
  have c: "claimsOf (d_events sample_paid) = [(1, 0, 30)]" by (simp add: sample_paid_eq sample_booked_def sample_distributor_def)
  from claims_paid_once [OF sample_paid_reachable] have "isClaimed sample_paid 1 0" unfolding c by (simp add: claimKey_def)
  with c show ?thesis by simp
qed

theorem epochs_are_immutable_witness:
  "keeps_epoch (d_epochs sample_distributor 1) (d_epochs sample_paid 1) \<and> e_claimed (d_epochs sample_paid 1) = 30"
proof -
  have "e_rootHash (d_epochs sample_distributor 1) \<noteq> 0" by (simp add: sample_distributor_def sample_root_big(1))
  with epochs_are_immutable [OF sample_reachable, of sample_paying]
  have "keeps_epoch (d_epochs sample_distributor 1) (d_epochs sample_paid 1)" unfolding sample_paid_def [symmetric] grows_def by blast
  moreover have "e_claimed (d_epochs sample_paid 1) = 30" by (simp add: sample_paid_eq sample_booked_def)
  ultimately show ?thesis ..
qed

theorem claim_paid_iff_due_witness:
  "(\<exists>s'. exec sample_keccak sample_inherited (Claim (sample_tx 0 150) 1 0 9 30 [] [] True) sample_distributor = Inr s') \<and>
   \<not> (\<exists>s'. exec sample_keccak sample_inherited (Claim (sample_tx 0 150) 1 0 9 30 [] [] True) sample_paid = Inr s')"
proof
  have "claimDue sample_keccak 150 1 0 9 30 [] sample_distributor"
    by (simp add: claimDue_def sample_distributor_def isClaimed_def Let_def sample_slot processProof_def leafHashOf_def sample_keccak_def
      sample_root_big(1))
  then show "\<exists>s'. exec sample_keccak sample_inherited (Claim (sample_tx 0 150) 1 0 9 30 [] [] True) sample_distributor = Inr s'"
    unfolding claim_paid_iff_due [OF sample_reachable] by (simp add: sample_tx_def sample_inherited_def sample_distributor_def)
  have "\<not> claimDue sample_keccak 150 1 0 9 30 [] sample_paid"
    by (simp add: claimDue_def sample_paid_eq sample_booked_def isClaimed_def Let_def sample_slot)
  then show "\<not> (\<exists>s'. exec sample_keccak sample_inherited (Claim (sample_tx 0 150) 1 0 9 30 [] [] True) sample_paid = Inr s')"
    unfolding claim_paid_iff_due [OF sample_paid_reachable] by (simp add: sample_tx_def)
qed

end
