(* ===== verification/Reward_Words.thy ===== *)
theory Reward_Words
  imports Reward_Claims Distributor_Books
begin

text \<open>
  The SDK and the reward distributor process proofs alike: the words that the texts of
  \<^verbatim>\<open>packages/torium-sdk/src/contracts.ts\<close> stand for, and the agreement of its proofs with those of
  \<^verbatim>\<open>contracts/src/rewards/ToriumRewardDistributor.sol\<close>.
\<close>

section \<open>Texts and words\<close>

text \<open>The words that the texts of the JavaScript side stand for.\<close>

definition hashWord :: "string \<Rightarrow> bytes32" where
  "hashWord s = of_nat (read_hex (drop 2 s))"

definition addressWord :: "string \<Rightarrow> address" where
  "addressWord s = of_nat (read_hex (drop 2 s))"

definition toSumNode :: "proof_node \<Rightarrow> sum_node" where
  "toSumNode n = \<lparr>sn_nodeHash = hashWord (pn_nodeHash n), sn_sum = of_int (pn_sum n)\<rparr>"

lemma read_hex_Cons: "read_hex (c # s) = hex_val c * 16 ^ length s + read_hex s"
  using read_hex_append [of "[c]" s] read_hex_simps(2) [of "[]" c] by simp

lemma read_hex_less:
  "list_all is_hex_lower s \<Longrightarrow> list_all is_hex_lower t \<Longrightarrow> length s = length t \<Longrightarrow> read_hex s < read_hex t \<longleftrightarrow> s < t"
proof (induction s arbitrary: t)
  case (Cons c s)
  then obtain d t' where t: "t = d # t'" by (cases t) auto
  have k: "is_hex_lower c" "is_hex_lower d" "list_all is_hex_lower s" "list_all is_hex_lower t'" "length s = length t'"
    using Cons.prems t by simp_all
  have b: "read_hex s < 16 ^ length s" "read_hex t' < 16 ^ length s"
    using read_hex_bound [of s] read_hex_bound [of t'] k by (auto simp: list_all_iff is_hex_def)
  have e: "p * n + x < q * n + y \<longleftrightarrow> p < q \<or> p = q \<and> x < y" if "x < n" "y < n" for p q x y n :: nat
  proof (cases p q rule: linorder_cases)
    case less
    then have "(p + 1) * n \<le> q * n" by (intro mult_right_mono) simp_all
    with that less show ?thesis by simp
  next
    case greater
    then have "(q + 1) * n \<le> p * n" by (intro mult_right_mono) simp_all
    with that greater show ?thesis by simp
  qed simp
  have m: "hex_val c < hex_val d \<longleftrightarrow> c < d" "hex_val c = hex_val d \<longleftrightarrow> c = d" by (rule hex_val_mono [OF k(1,2)])+
  have "read_hex (c # s) < read_hex t \<longleftrightarrow> hex_val c < hex_val d \<or> hex_val c = hex_val d \<and> read_hex s < read_hex t'"
    unfolding t read_hex_Cons k(5) [symmetric] by (rule e [OF b])
  then show ?case unfolding t m Cons.IH [OF k(3-5)] by (simp add: less_list_code)
qed simp

lemma lower_hash_split: "lower_hash s \<Longrightarrow> s = ''0x'' @ drop 2 s"
  using append_take_drop_id [of 2 s] by (simp add: lower_hash_def)

lemma unat_hashWord: "lower_hash s \<Longrightarrow> unat (hashWord s) = read_hex (drop 2 s)"
proof -
  assume s: "lower_hash s"
  have "read_hex (drop 2 s) < 16 ^ length (drop 2 s)"
    using s by (intro read_hex_bound) (auto simp: lower_hash_def list_all_iff is_hex_def)
  moreover have "(16 :: nat) ^ 64 = 2 ^ 256" by (simp add: power_mult [symmetric])
  ultimately show ?thesis using s by (simp add: hashWord_def lower_hash_def unsigned_of_nat take_bit_nat_eq_self del: power_numeral_even)
qed

lemma hashWord_order:
  assumes "lower_hash s" "lower_hash t"
  shows "hashWord s < hashWord t \<longleftrightarrow> s < t" "hashWord s = hashWord t \<longleftrightarrow> s = t"
proof -
  have d: "list_all is_hex_lower (drop 2 s)" "list_all is_hex_lower (drop 2 t)" "length (drop 2 s) = length (drop 2 t)"
    using assms by (simp_all add: lower_hash_def)
  have l: "s < t \<longleftrightarrow> drop 2 s < drop 2 t" "s = t \<longleftrightarrow> drop 2 s = drop 2 t"
    by (subst lower_hash_split [OF assms(1)], subst lower_hash_split [OF assms(2)], simp)+
  show "hashWord s < hashWord t \<longleftrightarrow> s < t"
    unfolding word_less_nat_alt unat_hashWord [OF assms(1)] unat_hashWord [OF assms(2)] l by (rule read_hex_less [OF d])
  show "hashWord s = hashWord t \<longleftrightarrow> s = t"
    unfolding word_unat_eq_iff unat_hashWord [OF assms(1)] unat_hashWord [OF assms(2)] l
    using read_hex_inject [OF d] by auto
qed

lemma zeroHash_lower: "lower_hash zeroHash" "hashWord zeroHash = 0"
proof -
  show "lower_hash zeroHash" by (simp add: lower_hash_def zeroHash_def list_all_iff char_class_defs)
  have "read_hex (replicate n CHR ''0'') = 0" for n
    by (induction n) (simp_all add: read_hex_Cons hex_val_def char_class_defs)
  then show "hashWord zeroHash = 0" by (simp add: hashWord_def zeroHash_def del: replicate.simps)
qed

lemma hashWord_0: "lower_hash s \<Longrightarrow> hashWord s = 0 \<longleftrightarrow> s = zeroHash"
  using hashWord_order(2) [of s zeroHash] zeroHash_lower by simp

lemma uint256_word: "uint256 v \<Longrightarrow> uint (of_int v :: Solidity_Core.uint256) = v"
  by (simp add: uint256_def toriumMaxUint256_eq uint_word_of_int)

lemma uint256_unat: "uint256 v \<Longrightarrow> int (unat (of_int v :: Solidity_Core.uint256)) = v"
  using uint256_word [of v] by simp

lemma uint256_add:
  assumes "uint256 a" "uint256 b"
  shows "addU er (of_int a :: Solidity_Core.uint256) (of_int b) = (if uint256 (a + b) then Inr (of_int (a + b)) else Inl er)"
proof -
  have u: "int (unat (of_int a :: Solidity_Core.uint256) + unat (of_int b :: Solidity_Core.uint256)) = a + b"
    using uint256_unat assms by simp
  have "uint256 (a + b) \<longleftrightarrow> a + b < 2 ^ 256" using assms by (auto simp: uint256_def toriumMaxUint256_eq)
  also have "\<dots> \<longleftrightarrow> unat (of_int a :: Solidity_Core.uint256) + unat (of_int b :: Solidity_Core.uint256) < 2 ^ 256"
    unfolding u [symmetric] by (metis of_nat_less_iff of_nat_numeral of_nat_power)
  finally show ?thesis by (simp add: addU_def)
qed

lemma of_int_0_iff: "uint256 v \<Longrightarrow> (of_int v :: Solidity_Core.uint256) = 0 \<longleftrightarrow> v = 0"
  using uint256_word [of v] by auto

section \<open>The SDK and the contract process proofs alike\<close>

text \<open>
  What the JavaScript side relies on of viem: its ABI coding and hash of the two kinds of tree nodes are those of
  Solidity, and hashes are printed as lower-case texts of 32 bytes.
\<close>

definition viem_matches :: "contract_viem \<Rightarrow> keccak \<Rightarrow> bool" where
  "viem_matches K kec \<longleftrightarrow>
     (\<forall>bytes. lower_hash (cv_keccak256 K bytes)) \<and>
     (\<forall>e i a m. uint256 e \<longrightarrow> uint256 i \<longrightarrow> getAddress (cv_viem K) a = Inr a \<longrightarrow> uint256 m \<longrightarrow>
        (\<exists>bytes. cv_encodeAbi K leafTypes [JBigInt e, JBigInt i, JStr a, JBigInt m] = Inr bytes \<and>
           hashWord (cv_keccak256 K bytes) = kec (abiEncode [of_int e, of_int i, ucast (addressWord a), of_int m]))) \<and>
     (\<forall>h x k y. lower_hash h \<longrightarrow> uint256 x \<longrightarrow> lower_hash k \<longrightarrow> uint256 y \<longrightarrow>
        (\<exists>bytes. cv_encodeAbi K nodeTypes [JStr h, JBigInt x, JStr k, JBigInt y] = Inr bytes \<and>
           hashWord (cv_keccak256 K bytes) = kec (abiEncode [hashWord h, of_int x, hashWord k, of_int y])))"

definition good_proof_node :: "proof_node \<Rightarrow> bool" where
  "good_proof_node n \<longleftrightarrow> lower_hash (pn_nodeHash n) \<and> uint256 (pn_sum n)"

definition nodeWords :: "proof_node \<Rightarrow> bytes32 \<times> Solidity_Core.uint256" where
  "nodeWords n = (hashWord (pn_nodeHash n), of_int (pn_sum n))"

lemma hashNode_agrees:
  assumes K: "viem_matches K kec" and n: "good_proof_node a" "good_proof_node b"
  shows "case hashToriumRewardNode K a b of
      Inl _ \<Rightarrow> hashNode kec (fst (nodeWords a)) (snd (nodeWords a)) (fst (nodeWords b)) (snd (nodeWords b)) = Inl Panic
    | Inr c \<Rightarrow> good_proof_node c \<and>
        hashNode kec (fst (nodeWords a)) (snd (nodeWords a)) (fst (nodeWords b)) (snd (nodeWords b)) = Inr (nodeWords c)"
proof -
  have h: "lower_hash (pn_nodeHash a)" "lower_hash (pn_nodeHash b)" and u: "uint256 (pn_sum a)" "uint256 (pn_sum b)"
    using n by (simp_all add: good_proof_node_def)
  have le: "hashWord (pn_nodeHash a) < hashWord (pn_nodeHash b) \<or> hashWord (pn_nodeHash a) = hashWord (pn_nodeHash b) \<longleftrightarrow>
      pn_nodeHash a \<le> pn_nodeHash b"
    unfolding hashWord_order [OF h] by (simp add: le_less)
  obtain x y where
    x: "cv_encodeAbi K nodeTypes [JStr (pn_nodeHash a), JBigInt (pn_sum a), JStr (pn_nodeHash b), JBigInt (pn_sum b)] = Inr x"
      "hashWord (cv_keccak256 K x) = kec (abiEncode [hashWord (pn_nodeHash a), of_int (pn_sum a), hashWord (pn_nodeHash b), of_int (pn_sum b)])"
    and y: "cv_encodeAbi K nodeTypes [JStr (pn_nodeHash b), JBigInt (pn_sum b), JStr (pn_nodeHash a), JBigInt (pn_sum a)] = Inr y"
      "hashWord (cv_keccak256 K y) = kec (abiEncode [hashWord (pn_nodeHash b), of_int (pn_sum b), hashWord (pn_nodeHash a), of_int (pn_sum a)])"
    using K h u unfolding viem_matches_def by meson
  have k: "lower_hash (cv_keccak256 K z)" for z using K by (simp add: viem_matches_def)
  show ?thesis
  proof (cases "uint256 (pn_sum a + pn_sum b)")
    case True
    then show ?thesis
      using u x y k le
      by (simp add: hashToriumRewardNode_def hashNode_def nodeWords_def uint256_add lower_hash_toLowerCase [OF h(1)]
          lower_hash_toLowerCase [OF h(2)] good_proof_node_def)
  next
    case False
    then show ?thesis using u by (simp add: hashToriumRewardNode_def hashNode_def nodeWords_def uint256_add)
  qed
qed

lemma processNode_agrees:
  assumes K: "viem_matches K kec" and n: "good_proof_node a" "good_proof_node b"
  shows "case processSibling K a (j, b) of
      Inl _ \<Rightarrow> (\<exists>er. processNode kec (nodeWords a) (j, toSumNode b) = Inl er)
    | Inr c \<Rightarrow> good_proof_node c \<and> processNode kec (nodeWords a) (j, toSumNode b) = Inr (nodeWords c)"
proof -
  have h: "lower_hash (pn_nodeHash b)" "uint256 (pn_sum b)" using n by (simp_all add: good_proof_node_def)
  show ?thesis
    using hashNode_agrees [OF K n]
    by (auto simp: processSibling_def processNode_def toSumNode_def nodeWords_def hashWord_0 [OF h(1)] of_int_0_iff [OF h(2)]
        throwIf_def split: sum.splits)
qed

lemma processNodes_agree:
  assumes K: "viem_matches K kec"
  shows "good_proof_node a \<Longrightarrow> list_all good_proof_node nodes \<Longrightarrow>
    (case foldR (processSibling K) a (enumerate j nodes) of
       Inl _ \<Rightarrow> (\<exists>er. foldR (processNode kec) (nodeWords a) (enumerate j (map toSumNode nodes)) = Inl er)
     | Inr c \<Rightarrow> good_proof_node c \<and> foldR (processNode kec) (nodeWords a) (enumerate j (map toSumNode nodes)) = Inr (nodeWords c))"
proof (induction nodes arbitrary: a j)
  case (Cons b nodes)
  then have n: "good_proof_node a" "good_proof_node b" "list_all good_proof_node nodes" by simp_all
  show ?case
  proof (cases "processSibling K a (j, b)")
    case (Inl er)
    with processNode_agrees [OF K n(1,2), of j] show ?thesis by auto
  next
    case (Inr c)
    with processNode_agrees [OF K n(1,2), of j] have c: "good_proof_node c" "processNode kec (nodeWords a) (j, toSumNode b) = Inr (nodeWords c)"
      by simp_all
    have e: "foldR (processNode kec) (nodeWords a) (enumerate j (map toSumNode (b # nodes))) =
        foldR (processNode kec) (nodeWords c) (enumerate (Suc j) (map toSumNode nodes))"
      "foldR (processSibling K) a (enumerate j (b # nodes)) = foldR (processSibling K) c (enumerate (Suc j) nodes)"
      using c Inr by simp_all
    show ?thesis unfolding e by (rule Cons.IH [OF c(1) n(3)])
  qed
qed simp

text \<open>A claim leaf whose account is in the normal form of its address.\<close>

definition good_leaf :: "contract_viem \<Rightarrow> claim_leaf \<Rightarrow> bool" where
  "good_leaf K leaf \<longleftrightarrow>
     uint256 (cl_epochId leaf) \<and> uint256 (cl_index leaf) \<and> getAddress (cv_viem K) (cl_account leaf) = Inr (cl_account leaf) \<and>
     uint256 (cl_amount leaf)"

definition processLeaf :: "keccak \<Rightarrow> claim_leaf \<Rightarrow> proof_node list \<Rightarrow> distributor_error + bytes32 \<times> Solidity_Core.uint256" where
  "processLeaf kec leaf nodes =
     processProof kec (of_int (cl_epochId leaf)) (of_int (cl_index leaf)) (addressWord (cl_account leaf)) (of_int (cl_amount leaf))
       (map toSumNode nodes)"

lemma processLeaf_agrees:
  assumes K: "viem_matches K kec" and l: "good_leaf K leaf" and n: "list_all good_proof_node nodes"
  shows "case processToriumRewardProof K leaf nodes of
      Inl _ \<Rightarrow> (\<exists>er. processLeaf kec leaf nodes = Inl er)
    | Inr r \<Rightarrow> lower_hash (pr_rootHash r) \<and> uint256 (pr_rootSum r) \<and>
        processLeaf kec leaf nodes = Inr (hashWord (pr_rootHash r), of_int (pr_rootSum r))"
proof -
  obtain bytes where b: "cv_encodeAbi K leafTypes [JBigInt (cl_epochId leaf), JBigInt (cl_index leaf), JStr (cl_account leaf),
        JBigInt (cl_amount leaf)] = Inr bytes"
      "hashWord (cv_keccak256 K bytes) = leafHashOf kec (of_int (cl_epochId leaf)) (of_int (cl_index leaf))
        (addressWord (cl_account leaf)) (of_int (cl_amount leaf))"
    using K l unfolding viem_matches_def good_leaf_def leafHashOf_def by meson
  let ?a = "\<lparr>pn_nodeHash = cv_keccak256 K bytes, pn_sum = cl_amount leaf\<rparr>"
  have g: "good_proof_node ?a" using K l by (simp add: good_proof_node_def viem_matches_def good_leaf_def)
  have w: "nodeWords ?a = (leafHashOf kec (of_int (cl_epochId leaf)) (of_int (cl_index leaf)) (addressWord (cl_account leaf))
      (of_int (cl_amount leaf)), of_int (cl_amount leaf))"
    using b(2) by (simp add: nodeWords_def)
  have s: "processToriumRewardProof K leaf nodes = bindR (foldR (processSibling K) ?a (enumerate 0 nodes)) (\<lambda>node.
      Inr \<lparr>pr_rootHash = pn_nodeHash node, pr_rootSum = pn_sum node\<rparr>)"
    using l b(1) by (simp add: processToriumRewardProof_def hashToriumRewardLeaf_def good_leaf_def)
  show ?thesis
    using processNodes_agree [OF K g n, of 0] unfolding s processLeaf_def processProof_def w [symmetric]
    by (auto simp: good_proof_node_def nodeWords_def split: sum.splits)
qed

end
