(* ===== verification/Reward_Paths.thy ===== *)
theory Reward_Paths
  imports Reward_Words
begin

text \<open>
  The soundness of proofs: a path that the distributor of \<^verbatim>\<open>contracts/src/rewards/ToriumRewardDistributor.sol\<close> accepts for the
  root of a tree of \<^verbatim>\<open>contracts/scripts/generate-reward-fixture.mjs\<close> starts at a leaf of that tree.
\<close>

section \<open>Only leaves of the tree have proofs\<close>

text \<open>The inputs of the hash while the contract processes a proof, the leaf first.\<close>

definition nodeInput :: "bytes32 \<times> Solidity_Core.uint256 \<Rightarrow> bytes32 \<times> Solidity_Core.uint256 \<Rightarrow> 8 word list" where
  "nodeInput x y =
     (if fst x < fst y \<or> fst x = fst y then abiEncode [fst x, snd x, fst y, snd y] else abiEncode [fst y, snd y, fst x, snd x])"

definition leafInput :: "Solidity_Core.uint256 \<Rightarrow> Solidity_Core.uint256 \<Rightarrow> address \<Rightarrow> Solidity_Core.uint256 \<Rightarrow> 8 word list" where
  "leafInput e i a m = abiEncode [e, i, ucast a, m]"

fun pathInputs :: "keccak \<Rightarrow> bytes32 \<times> Solidity_Core.uint256 \<Rightarrow> sum_node list \<Rightarrow> 8 word list list" where
  "pathInputs kec x [] = []"
| "pathInputs kec x (n # ns) =
     (let input = nodeInput x (sn_nodeHash n, sn_sum n) in input # pathInputs kec (kec input, snd x + sn_sum n) ns)"

fun pathEnd :: "keccak \<Rightarrow> bytes32 \<times> Solidity_Core.uint256 \<Rightarrow> sum_node list \<Rightarrow> bytes32 \<times> Solidity_Core.uint256" where
  "pathEnd kec x [] = x"
| "pathEnd kec x (n # ns) = pathEnd kec (kec (nodeInput x (sn_nodeHash n, sn_sum n)), snd x + sn_sum n) ns"

definition proofInputs ::
  "keccak \<Rightarrow> Solidity_Core.uint256 \<Rightarrow> Solidity_Core.uint256 \<Rightarrow> address \<Rightarrow> Solidity_Core.uint256 \<Rightarrow> sum_node list \<Rightarrow> 8 word list list" where
  "proofInputs kec e i a m nodes = leafInput e i a m # pathInputs kec (leafHashOf kec e i a m, m) nodes"

text \<open>
  What a proof relies on of the hash, for the inputs that occur: no collisions, and no hash that could be read as an
  account or the number of an epoch, that is none below \<open>2 ^ 160\<close>.
\<close>

definition sound_hash :: "keccak \<Rightarrow> 8 word list set \<Rightarrow> bool" where
  "sound_hash kec X \<longleftrightarrow> inj_on kec X \<and> (\<forall>x \<in> X. 2 ^ 160 \<le> unat (kec x))"

lemma hashNode_input: "hashNode kec (fst x) (snd x) (fst y) (snd y) = bindR (addU Panic (snd x) (snd y)) (\<lambda>v. Inr (kec (nodeInput x y), v))"
  by (simp add: hashNode_def nodeInput_def if_distrib cong: if_cong)

lemma unat_account: "unat (ucast a :: Solidity_Core.uint256) < 2 ^ 160" for a :: address
proof -
  have "unat a < 2 ^ 160" by (rule less_le_trans [OF unsigned_less]) simp
  moreover from this have "unat a < 2 ^ 256" by (rule less_trans) simp
  ultimately show ?thesis by (simp add: unsigned_ucast_eq take_bit_nat_eq_self)
qed

lemma ucast_account: "(ucast a :: Solidity_Core.uint256) = ucast b \<longleftrightarrow> a = b" for a b :: address
proof
  assume e: "(ucast a :: Solidity_Core.uint256) = ucast b"
  have "unat (ucast x :: Solidity_Core.uint256) = unat x" for x :: address
  proof -
    have "unat x < 2 ^ 160" by (rule less_le_trans [OF unsigned_less]) simp
    then have "unat x < 2 ^ 256" by (rule less_trans) simp
    then show ?thesis by (simp add: unsigned_ucast_eq take_bit_nat_eq_self)
  qed
  from this [of a] this [of b] e show "a = b" by (simp add: word_unat_eq_iff)
qed simp

lemma leafInput_inject: "leafInput e i a m = leafInput e' i' a' m' \<longleftrightarrow> e = e' \<and> i = i' \<and> a = a' \<and> m = m'"
  by (simp add: leafInput_def abiEncode_inject ucast_account)

lemma nodeInput_leaf:
  assumes "nodeInput x y = leafInput e i a m" "unat e < 2 ^ 160"
  shows "unat (fst x) < 2 ^ 160 \<and> unat (fst y) < 2 ^ 160"
  using assms unat_account [of a] by (auto simp: nodeInput_def leafInput_def abiEncode_inject split: if_splits)

lemma nodeInput_inject: "nodeInput x y = nodeInput x' y' \<Longrightarrow> x = x' \<or> x = y'"
  by (cases x; cases y; cases x'; cases y') (auto simp: nodeInput_def abiEncode_inject split: if_splits)

text \<open>The words of a complete tree over given leaves, whose hash inputs are in a set.\<close>

definition word_tree ::
  "keccak \<Rightarrow> nat \<Rightarrow> Solidity_Core.uint256 \<Rightarrow> (nat \<Rightarrow> Solidity_Core.uint256 \<times> address \<times> Solidity_Core.uint256) \<Rightarrow>
   (nat \<Rightarrow> bytes32 \<times> Solidity_Core.uint256) \<Rightarrow> 8 word list set \<Rightarrow> bool" where
  "word_tree kec n e leaf t X \<longleftrightarrow>
     0 < n \<and>
     (\<forall>k < n - 1. nodeInput (t (2 * k + 1)) (t (2 * k + 2)) \<in> X \<and> fst (t k) = kec (nodeInput (t (2 * k + 1)) (t (2 * k + 2)))) \<and>
     (\<forall>k i a m. k < 2 * n - 1 \<longrightarrow> n - 1 \<le> k \<longrightarrow> leaf k = (i, a, m) \<longrightarrow>
        leafInput e i a m \<in> X \<and> fst (t k) = kec (leafInput e i a m))"

lemma word_tree_inner:
  assumes "word_tree kec n e leaf t X" "k < n - 1"
  shows "nodeInput (t (2 * k + 1)) (t (2 * k + 2)) \<in> X" "fst (t k) = kec (nodeInput (t (2 * k + 1)) (t (2 * k + 2)))"
  using assms unfolding word_tree_def by blast+

lemma word_tree_leaf:
  assumes "word_tree kec n e leaf t X" "k < 2 * n - 1" "\<not> k < n - 1" "leaf k = (i, a, m)"
  shows "leafInput e i a m \<in> X" "fst (t k) = kec (leafInput e i a m)"
  using assms unfolding word_tree_def not_less by blast+

lemma word_tree_node:
  assumes "word_tree kec n e leaf t X" "k < 2 * n - 1"
  shows "\<exists>x \<in> X. fst (t k) = kec x"
proof (cases "k < n - 1")
  case True
  with word_tree_inner [OF assms(1)] show ?thesis by blast
next
  case False
  obtain i a m where "leaf k = (i, a, m)" by (cases "leaf k")
  with word_tree_leaf [OF assms False] show ?thesis by blast
qed

lemma pathInputs_append: "pathInputs kec x (us @ ns) = pathInputs kec x us @ pathInputs kec (pathEnd kec x us) ns"
  by (induction us arbitrary: x) (simp_all add: Let_def)

lemma pathEnd_append: "pathEnd kec x (us @ ns) = pathEnd kec (pathEnd kec x us) ns"
  by (induction us arbitrary: x) simp_all

lemma processNode_end:
  assumes "processNode kec x (j, n) = Inr y"
  shows "y = (kec (nodeInput x (sn_nodeHash n, sn_sum n)), snd x + sn_sum n)"
  using assms hashNode_input [of kec x "(sn_nodeHash n, sn_sum n)"]
  by (auto simp: processNode_def addU_def split: if_splits)

lemma processed_end: "foldR (processNode kec) x (enumerate j ns) = Inr y \<Longrightarrow> y = pathEnd kec x ns"
  by (induction ns arbitrary: x j) (auto dest!: processNode_end)

lemma enumerate_snoc: "enumerate j (ns @ [n]) = enumerate j ns @ [(j + length ns, n)]"
  by (simp add: enumerate_append_eq)

lemma processed_hash:
  assumes "foldR (processNode kec) (leafHashOf kec e i a m, m) (enumerate 0 nodes) = Inr y"
  shows "\<exists>x \<in> set (proofInputs kec e i a m nodes). fst y = kec x"
proof (cases nodes rule: rev_cases)
  case Nil
  with assms show ?thesis by (auto simp: proofInputs_def leafHashOf_def leafInput_def)
next
  case (snoc ns n)
  with assms obtain z where z: "foldR (processNode kec) (leafHashOf kec e i a m, m) (enumerate 0 ns) = Inr z"
    "processNode kec z (length ns, n) = Inr y"
    by (auto simp: enumerate_snoc foldR_append)
  from processNode_end [OF z(2)] processed_end [OF z(1)] show ?thesis by (auto simp: snoc proofInputs_def pathInputs_append)
qed

text \<open>A path that leads to a node of the tree starts at one of its leaves.\<close>

lemma path_starts_at_leaf:
  assumes tree: "word_tree kec n e leaf t X" and hash: "sound_hash kec X" and e: "unat e < 2 ^ 160"
  shows "foldR (processNode kec) (leafHashOf kec e i a m, m) (enumerate 0 nodes) = Inr y \<Longrightarrow>
    set (proofInputs kec e i a m nodes) \<subseteq> X \<Longrightarrow> k < 2 * n - 1 \<Longrightarrow> fst y = fst (t k) \<Longrightarrow>
    \<exists>k. n - 1 \<le> k \<and> k < 2 * n - 1 \<and> leaf k = (i, a, m)"
proof (induction nodes arbitrary: y k rule: rev_induct)
  case Nil
  then have y: "fst y = kec (leafInput e i a m)" "leafInput e i a m \<in> X" by (auto simp: leafHashOf_def leafInput_def proofInputs_def)
  show ?case
  proof (cases "k < n - 1")
    case True
    from word_tree_inner [OF tree True] y Nil(4) hash have "nodeInput (t (2 * k + 1)) (t (2 * k + 2)) = leafInput e i a m"
      by (auto simp: sound_hash_def inj_on_def)
    from nodeInput_leaf [OF this e] have "unat (fst (t (2 * k + 1))) < 2 ^ 160" by simp
    moreover have "2 * k + 1 < 2 * n - 1" using True by simp
    ultimately show ?thesis using word_tree_node [OF tree] hash by (fastforce simp: sound_hash_def)
  next
    case False
    obtain i' a' m' where l: "leaf k = (i', a', m')" by (cases "leaf k")
    from word_tree_leaf [OF tree Nil(3) False l] y Nil(4) hash have "leafInput e i' a' m' = leafInput e i a m" by (auto simp: sound_hash_def inj_on_def)
    then have "leaf k = (i, a, m)" using l by (simp add: leafInput_inject)
    with False Nil(3) show ?thesis by (intro exI [of _ k]) simp
  qed
next
  case (snoc x ns)
  obtain z where z: "foldR (processNode kec) (leafHashOf kec e i a m, m) (enumerate 0 ns) = Inr z"
    "processNode kec z (length ns, x) = Inr y"
    using snoc.prems(1) by (auto simp: enumerate_snoc foldR_append)
  let ?in = "nodeInput z (sn_nodeHash x, sn_sum x)"
  have y: "fst y = kec ?in" using processNode_end [OF z(2)] by simp
  have sub: "set (proofInputs kec e i a m ns) \<subseteq> X" and inX: "?in \<in> X"
    using snoc.prems(2) processed_end [OF z(1)] by (auto simp: proofInputs_def pathInputs_append Let_def)
  have big: "2 ^ 160 \<le> unat (fst z)"
    using processed_hash [OF z(1)] sub hash by (auto simp: sound_hash_def)
  show ?case
  proof (cases "k < n - 1")
    case True
    from word_tree_inner [OF tree True] y inX snoc.prems(4) hash have "?in = nodeInput (t (2 * k + 1)) (t (2 * k + 2))" by (auto simp: sound_hash_def inj_on_def)
    then have "z = t (2 * k + 1) \<or> z = t (2 * k + 2)" by (rule nodeInput_inject)
    moreover have "2 * k + 1 < 2 * n - 1" "2 * k + 2 < 2 * n - 1" using True by simp_all
    ultimately show ?thesis using snoc.IH [OF z(1) sub] by metis
  next
    case False
    obtain i' a' m' where l: "leaf k = (i', a', m')" by (cases "leaf k")
    from word_tree_leaf [OF tree snoc.prems(3) False l] y inX snoc.prems(4) hash have "?in = leafInput e i' a' m'" by (auto simp: sound_hash_def inj_on_def)
    from nodeInput_leaf [OF this e] big show ?thesis by simp
  qed
qed

section \<open>The tree of a fixture\<close>

text \<open>The tree behind a returned Merkle-sum tree, with the leaf and the proof at each position.\<close>

lemma buildMerkleSumTree_tree:
  assumes build: "buildMerkleSumTree K leaves = Inr mt" and keys: "distinct (map (rc_index o fst) leaves)"
    and good: "\<And>l. l \<in> set leaves \<Longrightarrow> good_node (snd l)" and hash: "\<And>x. lower_hash (cv_keccak256 K x)"
  obtains n tree t where "full_tree K n tree t" "mt_root mt = t 0"
    "\<And>k. n - 1 \<le> k \<Longrightarrow> k < 2 * n - 1 \<Longrightarrow> \<exists>l \<in> set leaves. t k = snd l \<and>
       (\<exists>path. map_of (mt_proofs mt) (show_int (rc_index (fst l))) = Some path \<and> pathFrom tree k = Inr path)"
proof -
  define n where "n = length leaves"
  define ls where "ls = sortLeaves leaves"
  define placed where "placed = foldl placeLeaf (replicate (2 * n - 1) None, []) (enumerate 0 ls)"
  have n: "n = length ls" by (simp add: n_def ls_def)
  obtain tree where pos: "0 < n" and fill: "fillParents K (n - 1) (fst placed) = Inr tree"
    and proofs: "mapR (proofOf tree (snd placed)) leaves = Inr (rev (mt_proofs mt))" and root: "nodeAt tree 0 = Inr (mt_root mt)"
    using buildMerkleSumTree_Inr [OF build] unfolding n_def ls_def placed_def by blast
  have g: "good_node (snd l)" if "l \<in> set ls" for l using that good by (simp add: ls_def)
  have full: "full_tree K n tree (\<lambda>i. the (tree ! i))" by (rule tree_of_leaves(1) [OF fill placed_def n pos g hash])
  have at: "the (tree ! (2 * n - 2 - j)) = snd (ls ! j)" if "j < n" for j
    by (rule tree_of_leaves(2) [OF fill placed_def n pos g hash that])
  have dk: "distinct (map (rc_index o fst) ls)"
  proof -
    have "mset (map (rc_index o fst) ls) = mset (map (rc_index o fst) leaves)" by (simp add: ls_def)
    with keys show ?thesis by (metis mset_eq_imp_distinct_iff)
  qed
  show thesis
  proof (rule that [OF full])
    show "mt_root mt = the (tree ! 0)" using root by simp
    fix k assume k: "n - 1 \<le> k" "k < 2 * n - 1"
    define j where "j = 2 * n - 2 - k"
    have j: "j < n" "2 * n - 2 - j = k" using k pos by (simp_all add: j_def)
    have l: "ls ! j \<in> set leaves" using j(1) n nth_mem [of j ls] by (simp add: ls_def)
    have "map_of (snd placed) (show_int (rc_index (fst (ls ! j)))) = Some k"
      using placed_index [OF placed_def n pos dk j(1) refl] unfolding j(2) .
    from proofs_lookup [OF proofs keys l this]
    show "\<exists>l \<in> set leaves. the (tree ! k) = snd l \<and>
       (\<exists>path. map_of (mt_proofs mt) (show_int (rc_index (fst l))) = Some path \<and> pathFrom tree k = Inr path)"
      using l at [OF j(1)] unfolding j(2) by blast
  qed
qed

lemma list_all2_mem:
  assumes "list_all2 P xs ys"
  shows "y \<in> set ys \<Longrightarrow> \<exists>x \<in> set xs. P x y" "x \<in> set xs \<Longrightarrow> \<exists>y \<in> set ys. P x y"
  using assms by (induction rule: list_all2_induct) auto

lemma buildFixture_tree:
  assumes build: "buildFixture K epochId claims = Inr f" and e: "uint256 epochId"
    and keys: "distinct (map rc_index claims)" and valid: "\<And>c. c \<in> set claims \<Longrightarrow> valid_claim (cv_viem K) c"
    and hash: "\<And>x. lower_hash (cv_keccak256 K x)"
  obtains n tree t where "full_tree K n tree t" "fx_merkleRoot f = tn_hash (t 0)" "fx_rootSum f = tn_sum (t 0)" "fx_epochId f = epochId"
    "\<And>k. n - 1 \<le> k \<Longrightarrow> k < 2 * n - 1 \<Longrightarrow> \<exists>c \<in> set (fx_claims f).
       hashToriumRewardLeaf K (claimOf epochId (fc_claim c)) = Inr (tn_hash (t k)) \<and> tn_sum (t k) = rc_amount (fc_claim c) \<and>
       pathFrom tree k = Inr (fc_proof c)"
proof -
  from build obtain leaves mt entries where l: "mapR (fixtureLeaf K epochId) claims = Inr leaves"
    and mt: "buildMerkleSumTree K leaves = Inr mt" and en: "mapR (fixtureClaim (mt_proofs mt)) leaves = Inr entries"
    and f: "f = \<lparr>fx_epochId = epochId, fx_merkleRoot = tn_hash (mt_root mt), fx_rootSum = tn_sum (mt_root mt),
          fx_claimCount = length claims, fx_claims = entries\<rparr>"
    by (auto simp: buildFixture_def)
  have l2: "list_all2 (\<lambda>c l. fixtureLeaf K epochId c = Inr l) claims leaves"
    and e2: "list_all2 (\<lambda>l x. fixtureClaim (mt_proofs mt) l = Inr x) leaves entries"
    using l en by (simp_all add: mapR_Inr_iff)
  have leaf: "\<exists>c \<in> set claims. fst l = c \<and> good_node (snd l) \<and> tn_sum (snd l) = rc_amount c \<and>
      hashToriumRewardLeaf K (claimOf epochId c) = Inr (tn_hash (snd l))" if m: "l \<in> set leaves" for l
  proof -
    obtain c where c: "c \<in> set claims" "fixtureLeaf K epochId c = Inr l"
      using list_all2_mem(1) [OF l2 m] by blast
    from fixtureLeaf_sound [OF c(2) e valid [OF c(1)] hash] c(1) show ?thesis by blast
  qed
  have "map fst leaves = claims"
    using l2 by (induction rule: list_all2_induct) (auto simp: fixtureLeaf_def)
  then have k: "distinct (map (rc_index o fst) leaves)" using keys by (metis list.map_comp)
  obtain n tree t where t: "full_tree K n tree t" "mt_root mt = t 0" and p: "\<And>k. n - 1 \<le> k \<Longrightarrow> k < 2 * n - 1 \<Longrightarrow> \<exists>l \<in> set leaves. t k = snd l \<and>
       (\<exists>path. map_of (mt_proofs mt) (show_int (rc_index (fst l))) = Some path \<and> pathFrom tree k = Inr path)"
    using buildMerkleSumTree_tree [OF mt k _ hash] leaf by metis
  show thesis
  proof (rule that [OF t(1)])
    show "fx_merkleRoot f = tn_hash (t 0)" "fx_rootSum f = tn_sum (t 0)" "fx_epochId f = epochId" using t(2) by (simp_all add: f)
    fix k assume "n - 1 \<le> k" "k < 2 * n - 1"
    from p [OF this] obtain l path where lp: "l \<in> set leaves" "t k = snd l"
      "map_of (mt_proofs mt) (show_int (rc_index (fst l))) = Some path" "pathFrom tree k = Inr path" by blast
    obtain x where x: "x \<in> set entries" "fixtureClaim (mt_proofs mt) l = Inr x"
      using list_all2_mem(2) [OF e2 lp(1)] by blast
    have "fc_claim x = fst l" "fc_proof x = path" using fixtureClaim_Inr [OF x(2)] lp(3) by simp_all
    with leaf [OF lp(1)] lp(2,4) have "hashToriumRewardLeaf K (claimOf epochId (fc_claim x)) = Inr (tn_hash (t k)) \<and>
       tn_sum (t k) = rc_amount (fc_claim x) \<and> pathFrom tree k = Inr (fc_proof x)" by auto
    moreover have "x \<in> set (fx_claims f)" using x(1) by (simp add: f)
    ultimately show "\<exists>c \<in> set (fx_claims f).
       hashToriumRewardLeaf K (claimOf epochId (fc_claim c)) = Inr (tn_hash (t k)) \<and> tn_sum (t k) = rc_amount (fc_claim c) \<and>
       pathFrom tree k = Inr (fc_proof c)" by blast
  qed
qed

definition treeWords :: "(nat \<Rightarrow> tree_node) \<Rightarrow> nat \<Rightarrow> bytes32 \<times> Solidity_Core.uint256" where
  "treeWords t k = nodeWords (toProofNode (t k))"

definition pathWords :: "tree_node list \<Rightarrow> sum_node list" where
  "pathWords path = map (toSumNode o toProofNode) path"

text \<open>All inputs of the hash when the contract processes the proofs of a fixture.\<close>

definition claimInputs :: "keccak \<Rightarrow> int \<Rightarrow> fixture_claim \<Rightarrow> 8 word list list" where
  "claimInputs kec epochId c =
     proofInputs kec (of_int epochId) (of_int (rc_index (fc_claim c))) (addressWord (rc_account (fc_claim c)))
       (of_int (rc_amount (fc_claim c))) (pathWords (fc_proof c))"

definition fixtureInputs :: "keccak \<Rightarrow> fixture \<Rightarrow> 8 word list set" where
  "fixtureInputs kec f = (\<Union>c \<in> set (fx_claims f). set (claimInputs kec (fx_epochId f) c))"

lemma full_tree_sums:
  assumes full: "full_tree K n tree t" and leaf: "\<And>k. n - 1 \<le> k \<Longrightarrow> k < 2 * n - 1 \<Longrightarrow> uint256 (tn_sum (t k))" and k: "k < 2 * n - 1"
  shows "good_proof_node (toProofNode (t k))"
proof -
  have g: "good_node (t k)" using full k by (simp add: full_tree_def)
  have "uint256 (tn_sum (t k))"
  proof (cases "k < n - 1")
    case True
    then have "combine K (t (2 * k + 1)) (t (2 * k + 2)) = Inr (t k)" using full by (simp add: full_tree_def)
    then show ?thesis using g by (auto simp: combine_Inr uint256_def good_node_def UINT256_MAX_eq)
  next
    case False with leaf k show ?thesis by simp
  qed
  with g show ?thesis by (simp add: good_proof_node_def good_node_def toProofNode_def)
qed

lemma tree_step:
  assumes K: "viem_matches K kec" and c: "combine K a b = Inr c" and g: "good_node a" "good_node b"
    and u: "good_proof_node (toProofNode a)" "good_proof_node (toProofNode b)"
  shows "nodeWords (toProofNode c) =
    (kec (nodeInput (nodeWords (toProofNode a)) (nodeWords (toProofNode b))),
     snd (nodeWords (toProofNode a)) + snd (nodeWords (toProofNode b)))"
proof -
  have "hashToriumRewardNode K (toProofNode a) (toProofNode b) = Inr (toProofNode c)" by (rule combine_agrees(1) [OF c g])
  with hashNode_agrees [OF K u] have "hashNode kec (fst (nodeWords (toProofNode a))) (snd (nodeWords (toProofNode a)))
      (fst (nodeWords (toProofNode b))) (snd (nodeWords (toProofNode b))) = Inr (nodeWords (toProofNode c))" by simp
  then show ?thesis unfolding hashNode_input by (auto simp: addU_def split: if_splits)
qed

lemma toSumNode_words: "(sn_nodeHash (toSumNode n), sn_sum (toSumNode n)) = nodeWords n"
  by (simp add: toSumNode_def nodeWords_def)

lemma pathFrom_left:
  assumes "full_tree K n tree t" "2 * k + 2 < 2 * n - 1" "pathFrom tree k = Inr rest"
  shows "pathFrom tree (2 * k + 1) = Inr (t (2 * k + 2) # rest)"
proof -
  have "nodeAt tree (2 * k + 2) = Inr (t (2 * k + 2))" using assms(1,2) by (simp add: full_tree_def)
  then show ?thesis using assms(3) by (subst pathFrom.simps) (simp del: nodeAt_Inr)
qed

text \<open>Every node of the tree lies on the path of a leaf below it.\<close>

lemma node_on_path:
  assumes K: "viem_matches K kec" and full: "full_tree K n tree t"
    and leaf: "\<And>k. n - 1 \<le> k \<Longrightarrow> k < 2 * n - 1 \<Longrightarrow> uint256 (tn_sum (t k))"
  shows "k < 2 * n - 1 \<Longrightarrow> pathFrom tree k = Inr rest \<Longrightarrow> \<exists>p before. n - 1 \<le> p \<and> p < 2 * n - 1 \<and>
    pathFrom tree p = Inr (before @ rest) \<and> pathEnd kec (treeWords t p) (pathWords before) = treeWords t k"
proof (induction "2 * n - 1 - k" arbitrary: k rest rule: less_induct)
  case less
  show ?case
  proof (cases "k < n - 1")
    case False
    with less(2,3) show ?thesis by (intro exI [of _ k] exI [of _ "[]"]) (simp add: pathWords_def)
  next
    case True
    have lt: "2 * k + 1 < 2 * n - 1" "2 * k + 2 < 2 * n - 1" using True by simp_all
    have s: "pathFrom tree (2 * k + 1) = Inr (t (2 * k + 2) # rest)"
      by (rule pathFrom_left [OF full lt(2) less(3)])
    have m: "2 * n - 1 - (2 * k + 1) < 2 * n - 1 - k" using lt by simp
    obtain p before where p: "n - 1 \<le> p" "p < 2 * n - 1" "pathFrom tree p = Inr (before @ t (2 * k + 2) # rest)"
      "pathEnd kec (treeWords t p) (pathWords before) = treeWords t (2 * k + 1)"
      using less(1) [OF m lt(1) s] by blast
    have c: "combine K (t (2 * k + 1)) (t (2 * k + 2)) = Inr (t k)" and g: "good_node (t (2 * k + 1))" "good_node (t (2 * k + 2))"
      using full True lt by (simp_all add: full_tree_def)
    note step = tree_step [OF K c g full_tree_sums [OF full leaf lt(1)] full_tree_sums [OF full leaf lt(2)]]
    have "pathEnd kec (treeWords t p) (pathWords (before @ [t (2 * k + 2)])) = treeWords t k"
      using p(4) step by (simp add: pathWords_def pathEnd_append toSumNode_words treeWords_def) (simp add: toSumNode_def nodeWords_def)
    with p(1-3) show ?thesis by (intro exI [of _ p] exI [of _ "before @ [t (2 * k + 2)]"]) simp
  qed
qed

lemma path_total: "full_tree K n tree t \<Longrightarrow> k < 2 * n - 1 \<Longrightarrow> \<exists>path. pathFrom tree k = Inr path"
proof (induction k rule: less_induct)
  case (less k)
  show ?case
  proof (cases "k = 0")
    case False
    define s where "s = (if k mod 2 = 0 then k - 1 else k + 1)"
    have p: "(k - 1) div 2 < k" "(k - 1) div 2 < 2 * n - 1" and s: "s < 2 * n - 1"
      using False less(3) unfolding s_def by presburger+
    obtain rest where "pathFrom tree ((k - 1) div 2) = Inr rest" using less(1) [OF p(1) less(2) p(2)] by blast
    moreover have "nodeAt tree s = Inr (t s)" using less(2) s by (simp add: full_tree_def)
    ultimately show ?thesis using False unfolding s_def by (subst pathFrom.simps) (simp del: nodeAt_Inr)
  qed (simp add: pathFrom.simps [of tree])
qed

lemma fixture_word_tree:
  assumes K: "viem_matches K kec" and V: "viem_addresses (cv_viem K)" and e: "uint256 epochId"
    and norm: "normalizeClaims (cv_viem K) raw = Inr claims" and build: "buildFixture K epochId claims = Inr f"
  obtains n leaf t where "word_tree kec n (of_int epochId) leaf t (fixtureInputs kec f)"
    "t 0 = (hashWord (fx_merkleRoot f), of_int (fx_rootSum f))"
    "\<And>k. n - 1 \<le> k \<Longrightarrow> k < 2 * n - 1 \<Longrightarrow> \<exists>c \<in> set claims.
       leaf k = (of_int (rc_index c), addressWord (rc_account c), of_int (rc_amount c))"
proof -
  note nc = normalizeClaims_Inr [OF V norm]
  have hash: "\<And>x. lower_hash (cv_keccak256 K x)" using K by (simp add: viem_matches_def)
  have cl: "map fc_claim (fx_claims f) = claims" by (rule buildFixture_sound(2) [OF build e nc(4,6) hash])
  obtain n tree t where full: "full_tree K n tree t" and root: "fx_merkleRoot f = tn_hash (t 0)" "fx_rootSum f = tn_sum (t 0)"
    and fe: "fx_epochId f = epochId" and leaves: "\<And>k. n - 1 \<le> k \<Longrightarrow> k < 2 * n - 1 \<Longrightarrow> \<exists>c \<in> set (fx_claims f).
       hashToriumRewardLeaf K (claimOf epochId (fc_claim c)) = Inr (tn_hash (t k)) \<and> tn_sum (t k) = rc_amount (fc_claim c) \<and>
       pathFrom tree k = Inr (fc_proof c)"
    using buildFixture_tree [OF build e nc(4,6) hash] by metis
  then obtain cf where cf: "\<And>k. n - 1 \<le> k \<Longrightarrow> k < 2 * n - 1 \<Longrightarrow> cf k \<in> set (fx_claims f) \<and>
       hashToriumRewardLeaf K (claimOf epochId (fc_claim (cf k))) = Inr (tn_hash (t k)) \<and> tn_sum (t k) = rc_amount (fc_claim (cf k)) \<and>
       pathFrom tree k = Inr (fc_proof (cf k))"
    by metis
  have valid: "valid_claim (cv_viem K) (fc_claim (cf k))" "fc_claim (cf k) \<in> set claims" if "n - 1 \<le> k" "k < 2 * n - 1" for k
    using cf [OF that] nc(6) cl by (metis image_eqI list.set_map)+
  have u: "uint256 (tn_sum (t k))" if "n - 1 \<le> k" "k < 2 * n - 1" for k
    using cf [OF that] valid [OF that] by (simp add: valid_claim_def)
  define leaf where "leaf k = (of_int (rc_index (fc_claim (cf k))) :: Solidity_Core.uint256, addressWord (rc_account (fc_claim (cf k))),
      of_int (rc_amount (fc_claim (cf k))) :: Solidity_Core.uint256)" for k
  have hashed: "treeWords t k = (leafHashOf kec (of_int epochId) (of_int (rc_index (fc_claim (cf k)))) (addressWord (rc_account (fc_claim (cf k))))
      (of_int (rc_amount (fc_claim (cf k)))), of_int (rc_amount (fc_claim (cf k))))" if k: "n - 1 \<le> k" "k < 2 * n - 1" for k
  proof -
    have l: "good_leaf K (claimOf epochId (fc_claim (cf k)))" using valid(1) [OF k] e by (simp add: good_leaf_def claimOf_def valid_claim_def)
    have "processToriumRewardProof K (claimOf epochId (fc_claim (cf k))) [] =
        Inr \<lparr>pr_rootHash = tn_hash (t k), pr_rootSum = rc_amount (fc_claim (cf k))\<rparr>"
      using cf [OF k] valid(1) [OF k] by (simp add: processToriumRewardProof_def claimOf_def valid_claim_def)
    with processLeaf_agrees [OF K l, of "[]"] show ?thesis
      using cf [OF k] by (simp add: processLeaf_def processProof_def claimOf_def treeWords_def nodeWords_def toProofNode_def)
  qed
  have path: "set (claimInputs kec epochId (cf p)) \<subseteq> fixtureInputs kec f" if "n - 1 \<le> p" "p < 2 * n - 1" for p
    using cf [OF that] by (auto simp: fixtureInputs_def fe)
  have inputs: "claimInputs kec epochId (cf p) = leafInput (of_int epochId) (fst (leaf p)) (fst (snd (leaf p))) (snd (snd (leaf p))) #
      pathInputs kec (treeWords t p) (pathWords (fc_proof (cf p)))" if "n - 1 \<le> p" "p < 2 * n - 1" for p
    unfolding claimInputs_def proofInputs_def hashed [OF that] leaf_def by simp
  show thesis
  proof (rule that)
    show "treeWords t 0 = (hashWord (fx_merkleRoot f), of_int (fx_rootSum f))" by (simp add: root treeWords_def nodeWords_def toProofNode_def)
    show "\<exists>c \<in> set claims. leaf k = (of_int (rc_index c), addressWord (rc_account c), of_int (rc_amount c))"
      if "n - 1 \<le> k" "k < 2 * n - 1" for k using valid(2) [OF that] by (auto simp: leaf_def)
    show "word_tree kec n (of_int epochId) leaf (treeWords t) (fixtureInputs kec f)"
      unfolding word_tree_def
    proof (intro conjI allI impI)
      show "0 < n" using full by (simp add: full_tree_def)
    next
      fix k assume k: "k < n - 1"
      have lt: "2 * k + 1 < 2 * n - 1" "2 * k + 2 < 2 * n - 1" "k < 2 * n - 1" using k by simp_all
      have c: "combine K (t (2 * k + 1)) (t (2 * k + 2)) = Inr (t k)" and g: "good_node (t (2 * k + 1))" "good_node (t (2 * k + 2))"
        using full k lt by (simp_all add: full_tree_def)
      show "fst (treeWords t k) = kec (nodeInput (treeWords t (2 * k + 1)) (treeWords t (2 * k + 2)))"
        using tree_step [OF K c g full_tree_sums [OF full u lt(1)] full_tree_sums [OF full u lt(2)]] by (simp add: treeWords_def)
      obtain rest where r: "pathFrom tree k = Inr rest" using path_total [OF full lt(3)] by blast
      have s: "pathFrom tree (2 * k + 1) = Inr (t (2 * k + 2) # rest)"
        by (rule pathFrom_left [OF full lt(2) r])
      obtain p before where p: "n - 1 \<le> p" "p < 2 * n - 1" "pathFrom tree p = Inr (before @ t (2 * k + 2) # rest)"
        "pathEnd kec (treeWords t p) (pathWords before) = treeWords t (2 * k + 1)"
        using node_on_path [OF K full u lt(1) s] by blast
      have fp: "pathWords (fc_proof (cf p)) = pathWords before @ pathWords (t (2 * k + 2) # rest)"
      proof -
        have "fc_proof (cf p) = before @ t (2 * k + 2) # rest" using cf [OF p(1,2)] p(3) by simp
        then show ?thesis by (simp only: pathWords_def map_append list.map)
      qed
      have "nodeInput (treeWords t (2 * k + 1)) (treeWords t (2 * k + 2)) \<in>
          set (pathInputs kec (pathEnd kec (treeWords t p) (pathWords before)) (pathWords (t (2 * k + 2) # rest)))"
        unfolding p(4) by (simp add: pathWords_def Let_def toSumNode_words treeWords_def)
      then have "nodeInput (treeWords t (2 * k + 1)) (treeWords t (2 * k + 2)) \<in> set (pathInputs kec (treeWords t p) (pathWords (fc_proof (cf p))))"
        unfolding fp pathInputs_append by simp
      then show "nodeInput (treeWords t (2 * k + 1)) (treeWords t (2 * k + 2)) \<in> fixtureInputs kec f"
        using path [OF p(1,2)] unfolding inputs [OF p(1,2)] by auto
    next
      fix k i a m assume k: "k < 2 * n - 1" "n - 1 \<le> k" and l: "leaf k = (i, a, m)"
      show "leafInput (of_int epochId) i a m \<in> fixtureInputs kec f" using path [OF k(2,1)] unfolding inputs [OF k(2,1)] l by simp
      show "fst (treeWords t k) = kec (leafInput (of_int epochId) i a m)"
        using l unfolding hashed [OF k(2,1)] leaf_def by (simp add: leafHashOf_def leafInput_def)
    qed
  qed
qed

end
