(* ===== verification/Reward_Settlement.thy ===== *)
theory Reward_Settlement
  imports Reward_Paths
begin

text \<open>
  The settlement of a fixture on the chain: which claims the distributor accepts for the root of a generated fixture, that
  it can pay all of them, and that the preflight of the SDK predicts its decision.
\<close>

section \<open>Fixtures on the chain\<close>

lemma word_tree_mono: "word_tree kec n e leaf t X \<Longrightarrow> X \<subseteq> Y \<Longrightarrow> word_tree kec n e leaf t Y"
  unfolding word_tree_def by blast

text \<open>
  C4: The contract pays nobody but the claims of a fixture. Where the hash has no collisions among the inputs at hand and
  gives no value that reads as an account, a claim whose proof the contract accepts for the root of a generated fixture is
  a claim of that fixture: it has the index, the account and the amount of one of its entries.
\<close>

theorem only_fixture_claims_accepted:
  assumes "viem_matches K kec" "viem_addresses (cv_viem K)" "uint256 epochId" "epochId < 2 ^ 160"
    and "normalizeClaims (cv_viem K) raw = Inr claims" "buildFixture K epochId claims = Inr f"
    and "sound_hash kec (fixtureInputs kec f \<union> set (proofInputs kec (of_int epochId) i a m nodes))"
    and "processProof kec (of_int epochId) i a m nodes = Inr (hashWord (fx_merkleRoot f), v)"
  shows "\<exists>c \<in> set claims. i = of_int (rc_index c) \<and> a = addressWord (rc_account c) \<and> m = of_int (rc_amount c)"
proof -
  let ?X = "fixtureInputs kec f \<union> set (proofInputs kec (of_int epochId) i a m nodes)"
  obtain n leaf t where tree: "word_tree kec n (of_int epochId) leaf t (fixtureInputs kec f)"
    and root: "t 0 = (hashWord (fx_merkleRoot f), of_int (fx_rootSum f))"
    and leaves: "\<And>k. n - 1 \<le> k \<Longrightarrow> k < 2 * n - 1 \<Longrightarrow> \<exists>c \<in> set claims.
       leaf k = (of_int (rc_index c), addressWord (rc_account c), of_int (rc_amount c))"
    using fixture_word_tree [OF assms(1,2,3,5,6)] by metis
  have "int (unat (of_int epochId :: Solidity_Core.uint256)) < 2 ^ 160" using uint256_unat [OF assms(3)] assms(4) by simp
  then have e: "unat (of_int epochId :: Solidity_Core.uint256) < 2 ^ 160" by (metis of_nat_less_iff of_nat_numeral of_nat_power)
  have z: "0 < 2 * n - 1" using tree by (auto simp: word_tree_def)
  obtain k where "n - 1 \<le> k" "k < 2 * n - 1" "leaf k = (i, a, m)"
    using path_starts_at_leaf [OF word_tree_mono [OF tree] assms(7) e assms(8) [unfolded processProof_def] _ z] root by auto
  with leaves show ?thesis by fastforce
qed

lemma zero_digits: "list_all is_hex s \<Longrightarrow> read_hex s = 0 \<Longrightarrow> s = replicate (length s) CHR ''0''"
proof (induction s)
  case (Cons c s)
  then have "hex_val c = 0" "is_hex c" by (simp_all add: read_hex_Cons)
  then have "code c = code CHR ''0''" by (auto simp: hex_val_def char_class_defs split: if_splits)
  then have "c = CHR ''0''" by (simp only: of_char_eq_iff)
  with Cons show ?case by (simp add: read_hex_Cons)
qed simp

lemma addressWord_0:
  assumes "address_shape a" "addressWord a = 0"
  shows "a = zeroAddress"
proof -
  have s: "a = ''0x'' @ drop 2 a" "list_all is_hex (drop 2 a)" "length (drop 2 a) = 40"
    using assms(1) append_take_drop_id [of 2 a] by (auto simp: address_shape_def)
  have "read_hex (drop 2 a) < 16 ^ 40" using read_hex_bound [OF s(2)] s(3) by simp
  moreover have "(16 :: nat) ^ 40 = 2 ^ 160" by (simp add: power_mult [symmetric])
  ultimately have "read_hex (drop 2 a) < 2 ^ 160" by simp
  then have "read_hex (drop 2 a) = unat (addressWord a)"
    unfolding addressWord_def by (simp add: unsigned_of_nat take_bit_nat_eq_self)
  with assms(2) zero_digits [OF s(2)] s show ?thesis by (simp add: zeroAddress_def)
qed

text \<open>The words of a claim, and of the sum node list of its proof.\<close>

definition claimWords :: "Solidity_Core.uint256 \<Rightarrow> reward_claim \<Rightarrow> Solidity_Core.uint256 \<times> Solidity_Core.uint256 \<times> Solidity_Core.uint256" where
  "claimWords e c = (e, of_int (rc_index c), of_int (rc_amount c))"

text \<open>An epoch that was published for a fixture and has paid only claims of it, with nothing clawed back.\<close>

definition settling :: "'o distributor \<Rightarrow> fixture \<Rightarrow> bool" where
  "settling s f \<longleftrightarrow>
     (let e = of_int (fx_epochId f); ep = d_epochs s e in
      e_rootHash ep = hashWord (fx_merkleRoot f) \<and> e_funded ep = of_int (fx_rootSum f) \<and> e_clawed ep = 0 \<and>
      (\<forall>x \<in> set (claimsOf (d_events s)). fst x = e \<longrightarrow> x \<in> claimWords e ` set (map fc_claim (fx_claims f))))"

lemma paid_within:
  fixes w :: "'a \<Rightarrow> 'b \<times> 'c" and v :: "'b \<times> 'c \<Rightarrow> nat"
  assumes "distinct (map fst xs)" "set xs \<subseteq> w ` A" "finite A" "inj_on (fst o w) A" "c \<in> A" "fst (w c) \<notin> set (map fst xs)"
  shows "sum_list (map v xs) + v (w c) \<le> (\<Sum>a \<in> A. v (w a))"
proof -
  have d: "distinct xs" using assms(1) by (simp add: distinct_map)
  have iw: "inj_on w A" using assms(4) by (auto simp: inj_on_def)
  have "w c \<notin> set xs" using assms(6) by auto
  then have "sum_list (map v xs) + v (w c) = (\<Sum>x \<in> insert (w c) (set xs). v x)" using d by (simp add: sum_list_distinct_conv_sum_set)
  also have "\<dots> \<le> (\<Sum>x \<in> w ` A. v x)" using assms by (intro sum_mono2) auto
  also have "\<dots> = (\<Sum>a \<in> A. v (w a))" using sum.reindex [OF iw, of v] by simp
  finally show ?thesis .
qed

lemma paidFor_filter: "paidFor e cs = sum_list (map (\<lambda>c. unat (snd (snd c))) (filter (\<lambda>c. fst c = e) cs))"
  by (induction cs) (simp_all add: paidFor_def)

lemma settling_room:
  assumes s: "reachable kec I s" and st: "settling s f" and ids: "distinct (map rc_index (map fc_claim (fx_claims f)))"
    and ok: "\<And>c. c \<in> set (map fc_claim (fx_claims f)) \<Longrightarrow> uint256 (rc_index c) \<and> uint256 (rc_amount c)"
    and sum: "fx_rootSum f = sum_list (map rc_amount (map fc_claim (fx_claims f)))" and u: "uint256 (fx_rootSum f)"
    and c: "c \<in> set (map fc_claim (fx_claims f))" and fresh: "\<not> isClaimed s (of_int (fx_epochId f)) (of_int (rc_index c))"
  shows "unat (e_claimed (d_epochs s (of_int (fx_epochId f)))) + unat (of_int (rc_amount c) :: Solidity_Core.uint256) \<le>
    unat (e_funded (d_epochs s (of_int (fx_epochId f))))"
proof -
  define e :: Solidity_Core.uint256 where "e = of_int (fx_epochId f)"
  define cl where "cl = map fc_claim (fx_claims f)"
  define xs where "xs = filter (\<lambda>x. fst x = e) (claimsOf (d_events s))"
  let ?w = "\<lambda>c. (of_int (rc_index c) :: Solidity_Core.uint256, of_int (rc_amount c) :: Solidity_Core.uint256)"
  have bk: "booked (claimsOf (d_events s)) s" using reachable_books [OF s] by (simp add: books_def)
  have inj: "inj_on (\<lambda>c. of_int (rc_index c) :: Solidity_Core.uint256) (set cl)"
  proof (rule inj_onI)
    fix a b assume ab: "a \<in> set cl" "b \<in> set cl" and w: "(of_int (rc_index a) :: Solidity_Core.uint256) = of_int (rc_index b)"
    have u: "uint256 (rc_index a)" "uint256 (rc_index b)" using ok ab by (simp_all add: cl_def)
    have "rc_index a = rc_index b" using uint256_word [OF u(1)] uint256_word [OF u(2)] unfolding w by (simp only:)
    with ids ab show "a = b" by (auto simp: cl_def [symmetric] distinct_map inj_on_def)
  qed
  have keys: "distinct (map (fst o snd) xs)"
  proof -
    have "distinct (map claimKey xs)" using bk by (simp add: booked_def xs_def distinct_map_filter)
    moreover have "map claimKey xs = map (Pair e) (map (fst o snd) xs)" by (auto simp: xs_def claimKey_def)
    ultimately show ?thesis using distinct_map by metis
  qed
  have mem: "set (map snd xs) \<subseteq> ?w ` set cl"
    using st unfolding settling_def Let_def e_def [symmetric] cl_def [symmetric] by (auto simp: xs_def claimWords_def)
  have new: "of_int (rc_index c) \<notin> set (map fst (map snd xs))"
  proof
    assume "of_int (rc_index c) \<in> set (map fst (map snd xs))"
    then have "(e, of_int (rc_index c)) \<in> set (map claimKey (claimsOf (d_events s)))" by (auto simp: xs_def claimKey_def)
    with bk fresh show False by (simp add: booked_def e_def)
  qed
  have le: "sum_list (map (\<lambda>x. unat (snd x)) (map snd xs)) + unat (snd (?w c)) \<le> (\<Sum>a \<in> set cl. unat (snd (?w a)))"
    by (rule paid_within [where w = ?w]) (use keys mem inj c new in \<open>simp_all add: cl_def o_def\<close>)
  have eq: "unat (e_claimed (d_epochs s e)) = sum_list (map (\<lambda>x. unat (snd x)) (map snd xs))"
    using bk by (simp add: booked_def paidFor_filter xs_def o_def)
  have i: "int (\<Sum>a \<in> set cl. unat (snd (?w a))) = (\<Sum>a \<in> set cl. rc_amount a)"
    using ok uint256_unat unfolding of_nat_sum by (intro sum.cong) (simp_all add: cl_def)
  have r: "(\<Sum>a \<in> set cl. rc_amount a) = fx_rootSum f"
    using ids unfolding sum cl_def [symmetric] by (subst sum_list_distinct_conv_sum_set) (auto simp: distinct_map)
  have fu: "int (unat (e_funded (d_epochs s e))) = fx_rootSum f"
    using st uint256_unat [OF u] by (simp add: settling_def Let_def e_def)
  have "(\<Sum>a \<in> set cl. unat (snd (?w a))) = unat (e_funded (d_epochs s e))"
  proof (rule of_nat_eq_iff [where 'a = int, THEN iffD1])
    show "int (\<Sum>a \<in> set cl. unat (snd (?w a))) = int (unat (e_funded (d_epochs s e)))" unfolding i r fu ..
  qed
  with le eq show ?thesis unfolding e_def [symmetric] snd_conv by (simp only:)
qed


lemma normal_fixture:
  assumes K: "viem_matches K kec" and V: "viem_addresses (cv_viem K)" and e: "uint256 epochId"
    and norm: "normalizeClaims (cv_viem K) raw = Inr claims" and build: "buildFixture K epochId claims = Inr f"
  shows "fx_rootSum f = sum_list (map rc_amount claims)" "map fc_claim (fx_claims f) = claims"
    "c \<in> set (fx_claims f) \<Longrightarrow> \<forall>n \<in> set (fc_proof c). tn_hash n \<noteq> zeroHash \<Longrightarrow>
       processToriumRewardProof K (claimOf epochId (fc_claim c)) (map toProofNode (fc_proof c)) =
         Inr \<lparr>pr_rootHash = fx_merkleRoot f, pr_rootSum = fx_rootSum f\<rparr>"
    "c \<in> set (fx_claims f) \<Longrightarrow> list_all good_node (fc_proof c)" "lower_hash (fx_merkleRoot f)"
    "distinct (map rc_index claims)" "x \<in> set claims \<Longrightarrow> valid_claim (cv_viem K) x"
proof -
  note nc = normalizeClaims_Inr [OF V norm]
  have hash: "\<And>x. lower_hash (cv_keccak256 K x)" using K by (simp add: viem_matches_def)
  note fx = buildFixture_sound [OF build e nc(4,6) hash]
  show "fx_rootSum f = sum_list (map rc_amount claims)" "map fc_claim (fx_claims f) = claims" "lower_hash (fx_merkleRoot f)"
    "distinct (map rc_index claims)" by (rule fx(1,2,5) nc(4); assumption?)+
  show "c \<in> set (fx_claims f) \<Longrightarrow> \<forall>n \<in> set (fc_proof c). tn_hash n \<noteq> zeroHash \<Longrightarrow>
       processToriumRewardProof K (claimOf epochId (fc_claim c)) (map toProofNode (fc_proof c)) =
         Inr \<lparr>pr_rootHash = fx_merkleRoot f, pr_rootSum = fx_rootSum f\<rparr>"
    by (rule fx(3); assumption?)
  show "c \<in> set (fx_claims f) \<Longrightarrow> list_all good_node (fc_proof c)" by (rule fx(4); assumption?)
  show "x \<in> set claims \<Longrightarrow> valid_claim (cv_viem K) x" by (rule nc(6))
qed

lemma fixture_processed:
  assumes K: "viem_matches K kec" and V: "viem_addresses (cv_viem K)" and e: "uint256 epochId"
    and norm: "normalizeClaims (cv_viem K) raw = Inr claims" and build: "buildFixture K epochId claims = Inr f"
    and c: "c \<in> set (fx_claims f)" and z: "\<forall>n \<in> set (fc_proof c). tn_hash n \<noteq> zeroHash"
  shows "processProof kec (of_int epochId) (of_int (rc_index (fc_claim c))) (addressWord (rc_account (fc_claim c)))
      (of_int (rc_amount (fc_claim c))) (pathWords (fc_proof c)) = Inr (hashWord (fx_merkleRoot f), of_int (fx_rootSum f))"
    "uint256 (fx_rootSum f)"
proof -
  note fx = normal_fixture [OF K V e norm build]
  note r = fx(3) [OF c z]
  have "fc_claim c \<in> set claims" using c fx(2) by (metis image_eqI list.set_map)
  then have "valid_claim (cv_viem K) (fc_claim c)" by (rule fx(7))
  then have l: "good_leaf K (claimOf epochId (fc_claim c))" using e by (simp add: good_leaf_def claimOf_def valid_claim_def)
  note s = processToriumRewardProof_sum [OF r]
  have n: "list_all good_proof_node (map toProofNode (fc_proof c))"
    unfolding list_all_iff
  proof
    fix x assume x: "x \<in> set (map toProofNode (fc_proof c))"
    have "pn_sum x \<le> sum_list (map pn_sum (map toProofNode (fc_proof c)))"
      using x s(3) by (intro member_le_sum_list) auto
    then have "pn_sum x \<le> toriumMaxUint256" using s(1,2,4) by (simp add: uint256_def)
    moreover have "0 < pn_sum x" using x s(3) by blast
    moreover have "lower_hash (pn_nodeHash x)" using x fx(4) [OF c] by (auto simp: list_all_iff good_node_def toProofNode_def)
    ultimately show "good_proof_node x" by (simp add: good_proof_node_def uint256_def)
  qed
  have "uint256 (fx_rootSum f) \<and> processLeaf kec (claimOf epochId (fc_claim c)) (map toProofNode (fc_proof c)) =
      Inr (hashWord (fx_merkleRoot f), of_int (fx_rootSum f))"
    using processLeaf_agrees [OF K l n] r by simp
  then show "processProof kec (of_int epochId) (of_int (rc_index (fc_claim c))) (addressWord (rc_account (fc_claim c)))
      (of_int (rc_amount (fc_claim c))) (pathWords (fc_proof c)) = Inr (hashWord (fx_merkleRoot f), of_int (fx_rootSum f))"
    "uint256 (fx_rootSum f)"
    by (simp_all add: processLeaf_def claimOf_def pathWords_def)
qed

text \<open>
  C5: Every claim of a generated fixture can be paid. While an epoch that was published with the root and sum of the fixture
  has paid claims of the fixture only and nothing was clawed back, the contract pays each unclaimed claim with the proof the
  fixture lists for it, in the window of the epoch: the funding is enough for all of them, in any order.
\<close>

theorem fixture_claims_payable:
  assumes "viem_matches K kec" "viem_addresses (cv_viem K)" "uint256 epochId"
    and "normalizeClaims (cv_viem K) raw = Inr claims" "buildFixture K epochId claims = Inr f" "fx_merkleRoot f \<noteq> zeroHash"
    and "reachable kec I s" "settling s f" "c \<in> set (fx_claims f)" "\<forall>n \<in> set (fc_proof c). tn_hash n \<noteq> zeroHash"
    and "\<not> isClaimed s (of_int epochId) (of_int (rc_index (fc_claim c)))"
    and "ucast (e_claimStart (d_epochs s (of_int epochId))) \<le> c_timestamp tx"
      "c_timestamp tx < ucast (e_claimEnd (d_epochs s (of_int epochId)))" "c_value tx = 0"
    and "in_nonReentrantBefore I (d_inherited s) = Inr o1" "in_requireNotPaused I o1 = Inr ()"
  shows "\<exists>s'. exec kec I (Claim tx (of_int epochId) (of_int (rc_index (fc_claim c))) (addressWord (rc_account (fc_claim c)))
    (of_int (rc_amount (fc_claim c))) (pathWords (fc_proof c)) [] True) s = Inr s'"
proof -
  note fx = normal_fixture [OF assms(1-5)]
  note p = fixture_processed [OF assms(1-5,9,10)]
  have fe: "fx_epochId f = epochId" using assms(5) by (auto simp: buildFixture_def)
  have m: "fc_claim c \<in> set claims" using assms(9) fx(2) by (metis image_eqI list.set_map)
  have v: "uint256 (rc_index x) \<and> uint256 (rc_amount x)" if "x \<in> set (map fc_claim (fx_claims f))" for x
    using fx(7) that unfolding fx(2) by (simp add: valid_claim_def)
  have c: "valid_claim (cv_viem K) (fc_claim c)" by (rule fx(7) [OF m])
  have d: "distinct (map rc_index (map fc_claim (fx_claims f)))" unfolding fx(2) by (rule fx(6))
  have t: "fx_rootSum f = sum_list (map rc_amount (map fc_claim (fx_claims f)))" unfolding fx(2) by (rule fx(1))
  have i: "fc_claim c \<in> set (map fc_claim (fx_claims f))" using assms(9) by simp
  have room: "unat (e_claimed (d_epochs s (of_int epochId))) + unat (of_int (rc_amount (fc_claim c)) :: Solidity_Core.uint256) \<le>
      unat (e_funded (d_epochs s (of_int epochId)))"
    by (rule settling_room [OF assms(7,8) d v t p(2) i, unfolded fe]) (use assms(11) fe in simp_all)
  have am: "(of_int (rc_amount (fc_claim c)) :: Solidity_Core.uint256) \<noteq> 0"
    using c of_int_0_iff [of "rc_amount (fc_claim c)"] by (simp add: valid_claim_def)
  have ac: "addressWord (rc_account (fc_claim c)) \<noteq> 0"
    using c addressWord_0 [of "rc_account (fc_claim c)"] assms(2) by (auto simp: valid_claim_def viem_addresses_def)
  have ro: "hashWord (fx_merkleRoot f) \<noteq> 0" using hashWord_0 [OF fx(5)] assms(6) by simp
  have st: "e_rootHash (d_epochs s (of_int epochId)) = hashWord (fx_merkleRoot f)"
    "e_funded (d_epochs s (of_int epochId)) = of_int (fx_rootSum f)" "e_clawed (d_epochs s (of_int epochId)) = 0"
    using assms(8) by (simp_all add: settling_def Let_def fe)
  have "claimDue kec (c_timestamp tx) (of_int epochId) (of_int (rc_index (fc_claim c))) (addressWord (rc_account (fc_claim c)))
      (of_int (rc_amount (fc_claim c))) (pathWords (fc_proof c)) s"
    unfolding claimDue_def using p(1) room am ac ro st assms(11-13) by simp
  then show ?thesis
    unfolding exec_plain claim_plain_iff [OF reachable_books [OF assms(7)]] using assms(14-16) by blast
qed


section \<open>The preflight of the SDK predicts the contract\<close>

fun hexDigits :: "nat \<Rightarrow> nat \<Rightarrow> string" where
  "hexDigits 0 n = []"
| "hexDigits (Suc k) n = hexDigits k (n div 16) @ [hex_char (n mod 16)]"

definition wordHex :: "bytes32 \<Rightarrow> string" where
  "wordHex w = ''0x'' @ hexDigits 64 (unat w)"

lemma hexDigits_props: "length (hexDigits k n) = k" "list_all is_hex_lower (hexDigits k n)" "read_hex (hexDigits k n) = n mod 16 ^ k"
proof -
  show "length (hexDigits k n) = k" by (induction k arbitrary: n) simp_all
  show "list_all is_hex_lower (hexDigits k n)" by (induction k arbitrary: n) simp_all
  show "read_hex (hexDigits k n) = n mod 16 ^ k"
  proof (induction k arbitrary: n)
    case (Suc k)
    then show ?case using mod_mult2_eq [of n 16 "16 ^ k"] by simp
  qed simp
qed

lemma wordHex_props: "lower_hash (wordHex w)" "hashWord (wordHex w) = w"
proof -
  show l: "lower_hash (wordHex w)" using hexDigits_props(1,2) [of 64 "unat w"] by (simp add: lower_hash_def wordHex_def)
  have "(16 :: nat) ^ 64 = 2 ^ 256" by (simp add: power_mult [symmetric])
  then have "unat w mod 16 ^ 64 = unat w" using unat256 [of w] by simp
  then have "read_hex (drop 2 (wordHex w)) = unat w" using hexDigits_props(3) [of 64 "unat w"] by (simp add: wordHex_def)
  then have "unat (hashWord (wordHex w)) = unat w" unfolding unat_hashWord [OF l] .
  then show "hashWord (wordHex w) = w" by (simp add: word_unat_eq_iff)
qed

lemma wordHex_zero: "wordHex w = zeroHash \<longleftrightarrow> w = 0"
  using hashWord_0 [OF wordHex_props(1), of w] by (simp add: wordHex_props(2))

lemma uint256_uint: "uint256 (uint w)" for w :: Solidity_Core.uint256
proof -
  have "uint w < 2 ^ 256" using uint_lt2p [of w] by simp
  then show ?thesis by (simp add: uint256_def toriumMaxUint256_eq)
qed

lemma uint_up: "uint (ucast x :: Solidity_Core.uint256) = uint x" for x :: uint64
  by (simp only: uint_nat unat_up)

text \<open>What a node answers to the reads of a claim preflight when the contract is in a given state.\<close>

definition epochAnswer :: "epoch \<Rightarrow> jsval" where
  "epochAnswer ep =
     JArr [JStr (wordHex (e_rootHash ep)), JBigInt (uint (e_funded ep)), JBigInt (uint (e_claimStart ep)),
           JBigInt (uint (e_claimEnd ep)), JBigInt (uint (e_claimed ep)), JBigInt (uint (e_clawed ep))]"

definition chainAnswers :: "'o distributor \<Rightarrow> int \<Rightarrow> int \<Rightarrow> bool \<Rightarrow> Solidity_Core.uint256 \<Rightarrow> jsval list" where
  "chainAnswers s epochId index paused now =
     [epochAnswer (d_epochs s (of_int epochId)), JBool (isClaimed s (of_int epochId) (of_int index)), JBool paused,
      JObj [(''timestamp'', JBigInt (uint now))]]"

definition epochRead :: "int \<Rightarrow> epoch \<Rightarrow> reward_epoch option" where
  "epochRead epochId ep =
     (if e_rootHash ep = 0 then None
      else Some \<lparr>ep_epochId = epochId, ep_rootHash = wordHex (e_rootHash ep), ep_funded = uint (e_funded ep),
                ep_claimStart = uint (e_claimStart ep), ep_claimEnd = uint (e_claimEnd ep), ep_claimed = uint (e_claimed ep),
                ep_clawed = uint (e_clawed ep)\<rparr>)"

lemma parseUint_word: "parseUint J d label (JBigInt (uint w)) = Inr (uint w)" for w :: Solidity_Core.uint256
  using uint256_uint [of w] by simp

lemma parse_epochAnswer: "parseRewardEpoch J d epochId (epochAnswer ep) = Inr (epochRead epochId ep)"
proof -
  have h: "rx_test hash_ci_rx (wordHex w)" "toLowerCase (wordHex w) = wordHex w" for w
  proof -
    have l: "length (wordHex w) = 66" "take 2 (wordHex w) = ''0x''" "list_all is_hex (drop 2 (wordHex w))"
      using wordHex_props(1) [of w] by (simp_all add: lower_hash_def list_all_iff is_hex_def)
    show "rx_test hash_ci_rx (wordHex w)" unfolding hash_ci_rx_iff hex_prefixed_def l(2) toLowerCase_0x using l by simp
    show "toLowerCase (wordHex w) = wordHex w" by (rule lower_hash_toLowerCase [OF wordHex_props(1)])
  qed
  have t: "parseUint J d label (JBigInt (uint x)) = Inr (uint x)" for x :: uint64 and label
    using parseUint_word [of J d label "ucast x"] by (simp only: uint_up)
  show ?thesis unfolding parseRewardEpoch_def epochAnswer_def epochRead_def by (simp add: h wordHex_zero parseUint_word t del: parseUint.simps)
qed

lemma claimVerdict_chain:
  "claimVerdict J d epochId computed (chainAnswers s epochId index paused now) = Inr p \<Longrightarrow>
   cp_canClaim p \<longleftrightarrow> claimBlockers computed (epochRead epochId (d_epochs s (of_int epochId)))
     (isClaimed s (of_int epochId) (of_int index)) paused (uint now) = []"
  by (auto simp: claimVerdict_def chainAnswers_def parse_epochAnswer parseUint_word getProp_def isNullish_def fieldOf_def Let_def
      simp del: parseUint.simps)

lemma computed_root:
  assumes K: "viem_matches K kec" and l: "good_leaf K leaf" and n: "list_all good_proof_node nodes"
  shows "(\<exists>r. processToriumRewardProof K leaf nodes = Inr r \<and> pr_rootHash r = wordHex h \<and> pr_rootSum r = uint v) \<longleftrightarrow>
    processLeaf kec leaf nodes = Inr (h, v)"
proof (cases "processToriumRewardProof K leaf nodes")
  case (Inl er)
  with processLeaf_agrees [OF K l n] show ?thesis by auto
next
  case (Inr r)
  with processLeaf_agrees [OF K l n] have r: "lower_hash (pr_rootHash r)" "uint256 (pr_rootSum r)"
    "processLeaf kec leaf nodes = Inr (hashWord (pr_rootHash r), of_int (pr_rootSum r))" by simp_all
  have "pr_rootHash r = wordHex h \<longleftrightarrow> hashWord (pr_rootHash r) = h"
    using hashWord_order(2) [OF r(1) wordHex_props(1), of h] by (simp add: wordHex_props(2))
  moreover have "pr_rootSum r = uint v \<longleftrightarrow> of_int (pr_rootSum r) = v"
    unfolding word_uint_eq_iff uint256_word [OF r(2)] by (rule refl)
  ultimately show ?thesis using Inr r(3) by auto
qed



section \<open>A sample settlement\<close>

text \<open>One claim of 30, whose leaf is the root, against the sample contract.\<close>

definition settle_contracts :: contract_viem where
  "settle_contracts = sample_contracts\<lparr>cv_viem := sample_viem, cv_encodeAbi := (\<lambda>types args. Inr []),
     cv_keccak256 := (\<lambda>s. wordHex sample_root)\<rparr>"

definition settle_claim :: reward_claim where
  "settle_claim = \<lparr>rc_index = 0, rc_account = wallet_address, rc_amount = 30\<rparr>"

definition settle_entry :: fixture_claim where
  "settle_entry = \<lparr>fc_claim = settle_claim, fc_leafHash = wordHex sample_root, fc_leafSum = 30, fc_proof = []\<rparr>"

definition settle_fixture :: fixture where
  "settle_fixture =
     \<lparr>fx_epochId = 1, fx_merkleRoot = wordHex sample_root, fx_rootSum = 30, fx_claimCount = 1, fx_claims = [settle_entry]\<rparr>"

definition settle_input :: "jsval list" where
  "settle_input = [JObj [(''index'', JStr ''0''), (''account'', JStr wallet_address), (''amount'', JStr ''30'')]]"

lemma settle_viem [simp]: "cv_viem settle_contracts = sample_viem"
  by (simp add: settle_contracts_def)

lemma settle_matches: "viem_matches settle_contracts sample_keccak"
  by (simp add: viem_matches_def settle_contracts_def sample_keccak_def wordHex_props)

lemma settle_addresses: "viem_addresses (cv_viem settle_contracts)"
  by (simp add: sample_viem_addresses)

lemma wallet_parsed: "parseAddress sample_viem (JStr wallet_address) label True = Inr wallet_address"
  unfolding wallet_address_def by (rule tree_addresses)

lemma settle_normal: "normalizeClaims (cv_viem settle_contracts) settle_input = Inr [settle_claim]"
proof -
  have k: "validateExactKeys [(''index'', a), (''account'', b), (''amount'', c)] CLAIM_KEYS label = Inr ()" for a b c label
    by (simp add: validateExactKeys_def CLAIM_KEYS_def hasOwn_def)
  have f: "fieldOf [(''index'', a), (''account'', b), (''amount'', c)] ''index'' = a"
    "fieldOf [(''index'', a), (''account'', b), (''amount'', c)] ''account'' = b"
    "fieldOf [(''index'', a), (''account'', b), (''amount'', c)] ''amount'' = c" for a b c by (simp_all add: fieldOf_def)
  have n: "parseUint256 (JStr ''30'') label True = Inr 30" for label
    by (simp add: parseUint256_def canonical_decimal_def char_class_defs read_nat_def digit_val_def UINT256_MAX_eq toriumMaxUint256_eq)
  show ?thesis
    unfolding normalizeClaims_def settle_input_def settle_viem
    by (simp add: normalizeClaim_def Let_def k f n tree_numbers wallet_parsed settle_claim_def)
qed

lemma settle_built: "buildFixture settle_contracts 1 [settle_claim] = Inr settle_fixture"
proof -
  let ?n = "\<lparr>tn_hash = wordHex sample_root, tn_sum = 30\<rparr>"
  have "pathFrom [Some ?n] 0 = Inr []" by (simp add: pathFrom.simps)
  then have t: "buildMerkleSumTree settle_contracts [(settle_claim, ?n)] = Inr \<lparr>mt_root = ?n, mt_proofs = [(show_int 0, [])]\<rparr>"
    by (simp add: buildMerkleSumTree_def sortLeaves_def Let_def placeLeaf_def proofOf_def nodeAt_def settle_claim_def)
  have l: "fixtureLeaf settle_contracts 1 settle_claim = Inr (settle_claim, ?n)"
    by (simp add: fixtureLeaf_def leafHash_def settle_contracts_def settle_claim_def)
  show ?thesis by (simp add: buildFixture_def l t fixtureClaim_def settle_fixture_def settle_entry_def) (simp add: settle_claim_def)
qed

lemma settle_epoch: "uint256 1" "fx_merkleRoot settle_fixture \<noteq> zeroHash"
  by (simp_all add: settle_fixture_def wordHex_zero sample_root_big(1))

lemma sound_constant: "sound_hash sample_keccak {x}"
  by (simp add: sound_hash_def sample_keccak_def sample_root_big)

theorem only_fixture_claims_accepted_witness:
  "processProof sample_keccak 1 0 (addressWord wallet_address) 30 [] = Inr (hashWord (fx_merkleRoot settle_fixture), 30) \<and>
   (\<exists>c \<in> {settle_claim}. (0 :: Solidity_Core.uint256) = of_int (rc_index c) \<and> (30 :: Solidity_Core.uint256) = of_int (rc_amount c))"
proof -
  have p: "processProof sample_keccak (of_int 1) 0 (addressWord wallet_address) 30 [] = Inr (hashWord (fx_merkleRoot settle_fixture), 30)"
    by (simp add: processProof_def leafHashOf_def sample_keccak_def settle_fixture_def wordHex_props)
  have "fixtureInputs sample_keccak settle_fixture \<union> set (proofInputs sample_keccak (of_int 1) 0 (addressWord wallet_address) 30 []) =
      {leafInput 1 0 (addressWord wallet_address) 30}"
    by (simp add: fixtureInputs_def claimInputs_def settle_fixture_def settle_entry_def settle_claim_def proofInputs_def pathWords_def)
  then have s: "sound_hash sample_keccak (fixtureInputs sample_keccak settle_fixture \<union>
      set (proofInputs sample_keccak (of_int 1) 0 (addressWord wallet_address) 30 []))" using sound_constant by simp
  have "(1 :: int) < 2 ^ 160" by simp
  from only_fixture_claims_accepted [OF settle_matches settle_addresses settle_epoch(1) this settle_normal settle_built s p] p
  show ?thesis by auto
qed

lemma sample_settling: "settling sample_distributor settle_fixture"
  by (simp add: settling_def Let_def sample_distributor_def settle_fixture_def wordHex_props)

lemma sample_unclaimed: "\<not> isClaimed sample_distributor 1 0"
  by (simp add: isClaimed_def Let_def sample_slot sample_distributor_def)

theorem fixture_claims_payable_witness:
  "\<exists>s'. exec sample_keccak sample_inherited (Claim (sample_tx 0 150) 1 0 (addressWord wallet_address) 30 [] [] True)
     sample_distributor = Inr s'"
  using fixture_claims_payable [OF settle_matches settle_addresses settle_epoch(1) settle_normal settle_built settle_epoch(2) sample_reachable
      sample_settling, of settle_entry "sample_tx 0 150" "(False, True)"] sample_unclaimed
  by (simp add: settle_fixture_def settle_entry_def settle_claim_def sample_distributor_def sample_tx_def sample_inherited_def pathWords_def)


section \<open>The two implementations of a proof\<close>

text \<open>
  C10: The SDK and the contract process a claim alike: for every claim with an account in normal form and every path of
  well-formed nodes, the contract rebuilds a root and sum exactly when the SDK does, and they are the same; where the SDK
  throws the contract reverts.
\<close>

theorem sdk_and_contract_agree:
  assumes "viem_matches K kec" "good_leaf K leaf" "list_all good_proof_node nodes"
  shows "processLeaf kec leaf nodes = Inr (h, v) \<longleftrightarrow>
    (\<exists>r. processToriumRewardProof K leaf nodes = Inr r \<and> h = hashWord (pr_rootHash r) \<and> v = of_int (pr_rootSum r))"
  using processLeaf_agrees [OF assms] by (auto split: sum.splits)

definition settle_leaf :: claim_leaf where
  "settle_leaf = claimOf 1 settle_claim"

lemma wallet_normal: "getAddress sample_viem wallet_address = Inr wallet_address" "addressWord wallet_address \<noteq> 0"
proof -
  show n: "getAddress sample_viem wallet_address = Inr wallet_address"
    using parseAddress_Inr(2) [OF sample_viem_addresses wallet_parsed] .
  have "address_shape wallet_address" by (simp add: wallet_address_def address_shape_def list_all_iff char_class_defs)
  then show "addressWord wallet_address \<noteq> 0" using addressWord_0 parseAddress_Inr(3) [OF sample_viem_addresses wallet_parsed] by blast
qed

lemma settle_good: "good_leaf settle_contracts settle_leaf"
  by (simp add: good_leaf_def settle_leaf_def claimOf_def settle_claim_def wallet_normal toriumMaxUint256_eq)

theorem sdk_and_contract_agree_witness:
  "processLeaf sample_keccak settle_leaf [] = Inr (sample_root, 30) \<and>
   (\<exists>r. processToriumRewardProof settle_contracts settle_leaf [] = Inr r \<and> hashWord (pr_rootHash r) = sample_root)"
proof -
  have p: "processLeaf sample_keccak settle_leaf [] = Inr (sample_root, 30)"
    by (simp add: processLeaf_def processProof_def leafHashOf_def sample_keccak_def settle_leaf_def claimOf_def settle_claim_def)
  with sdk_and_contract_agree [OF settle_matches settle_good, of "[]" sample_root 30] show ?thesis by auto
qed

text \<open>A node that answers the reads of a preflight from the sample contract.\<close>

definition settle_answer :: "string \<Rightarrow> jsval list \<Rightarrow> jsval" where
  "settle_answer name args =
     (if name = ''getBlock'' then JObj [(''timestamp'', JBigInt 150)]
      else case args of
          [JObj fs] \<Rightarrow>
            (if fieldOf fs ''functionName'' = JStr ''epochs'' then epochAnswer (d_epochs sample_distributor 1) else JBool False)
        | _ \<Rightarrow> JUndefined)"

definition settle_env :: env where
  "settle_env = sample_env\<lparr>ev_call := (\<lambda>n name args. (1, Inr (settle_answer name args)))\<rparr>"

lemma settle_resolved: "rewardDeployment settle_env settle_contracts (Some reward_override) = Inr reward_deployment"
  by (simp add: rewardDeployment_def resolveToriumContractDeployment_def registryCatalog_def resolveBase_def reward_override_def
      normalizeContractAddress_def wallet_normal reward_deployment_def throwIf_def Let_def)

lemma settle_reads: "promiseAll settle_env (claimReads reward_deployment 1 0) v =
    (Inr (chainAnswers sample_distributor 1 0 False 150),
     v\<lparr>w_trace := w_trace v @ claimReads reward_deployment 1 0, w_clock := w_clock v + 1\<rparr>)"
  using sample_unclaimed
  by (simp add: promiseAll_def claimReads_def readParameters_def settle_env_def settle_answer_def fieldOf_def optionField_def chainAnswers_def)

lemma settle_verdict:
  "\<exists>p. fst (preflightToriumRewardClaim settle_env settle_contracts (Some reward_override) settle_leaf [] sample_options sample_world) = Inr p \<and>
     cp_canClaim p"
proof -
  have i: "cl_epochId settle_leaf = 1" "cl_index settle_leaf = 0" by (simp_all add: settle_leaf_def claimOf_def settle_claim_def)
  have r: "processToriumRewardProof settle_contracts settle_leaf [] = Inr \<lparr>pr_rootHash = wordHex sample_root, pr_rootSum = 30\<rparr>"
    by (simp add: processToriumRewardProof_def hashToriumRewardLeaf_def settle_leaf_def claimOf_def settle_claim_def wallet_normal)
      (simp add: settle_contracts_def toriumMaxUint256_eq wallet_normal)
  have "claimVerdict J d 1 (Some \<lparr>pr_rootHash = wordHex sample_root, pr_rootSum = 30\<rparr>) (chainAnswers sample_distributor 1 0 False 150) =
     Inr \<lparr>cp_canClaim = True, cp_blockers = [], cp_epoch = epochRead 1 (d_epochs sample_distributor 1), cp_currentTimestamp = 150,
          cp_computedRootHash = Some (wordHex sample_root), cp_computedRootSum = Some 30\<rparr>" for J d
    using sample_unclaimed parseUint_word [of J d _ 150]
    by (simp add: claimVerdict_def chainAnswers_def parse_epochAnswer getProp_def isNullish_def fieldOf_def claimBlockers_def epochRead_def
        sample_distributor_def sample_root_big(1) Let_def del: parseUint.simps)
  then obtain p where v: "\<And>J d. claimVerdict J d 1 (Some \<lparr>pr_rootHash = wordHex sample_root, pr_rootSum = 30\<rparr>)
      (chainAnswers sample_distributor 1 0 False 150) = Inr p" and can: "cp_canClaim p" by fastforce
  have a: "fst (claimAction settle_env settle_contracts reward_deployment settle_leaf [] 1 None u) = Inr p" for u
    by (simp add: claimAction_def Let_def r i bindP_def settle_reads v throwAborted_def abortedAt_def returnP_def liftP_def)
  have "labelValid (Some ''preflightToriumRewardClaim'')" "labelValid (Some ''eth_call'')" "labelValid None"
    unfolding labelValid_Some by (code_simp, code_simp, simp add: labelValid_def)
  then have c: "validateExecutionContext (ev_js settle_env)
      ((contractContext ''preflightToriumRewardClaim'' ''eth_call'' None)\<lparr>cx_kind := Read\<rparr>) = Inr ()"
    by (simp add: validateExecutionContext_def contractContext_def)
  have run: "fst (runToriumReadAction settle_env (claimAction settle_env settle_contracts reward_deployment settle_leaf [])
      (contractContext ''preflightToriumRewardClaim'' ''eth_call'' None) sample_options u) = Inr p" for u
    unfolding runToriumReadAction_def by (rule runAction_first [OF c]) (rule a)
  have l: "claimLeaf settle_contracts settle_leaf = Inr settle_leaf"
    using settle_good by (simp add: claimLeaf_def good_leaf_def)
  have "fst (preflightToriumRewardClaim settle_env settle_contracts (Some reward_override) settle_leaf [] sample_options sample_world) = Inr p"
    unfolding preflightToriumRewardClaim_def settle_resolved l using run by (simp add: bindP_def liftP_def liftExn_def)
  with can show ?thesis by blast
qed


end
