(* ===== verification/Spec2Isabelle.thy ===== *)
theory Spec2Isabelle
  imports Torium_Json Wallet Attestations Reward_Claims Reward_Csv Signer_Guard Reward_Settlement
begin

text \<open>
  A verification library for the Torium repository: the TypeScript SDK under \<^verbatim>\<open>src/packages/torium-sdk\<close>, the reward scripts
  and contracts under \<^verbatim>\<open>src/contracts\<close>, and the operator tool that guards the state of a validator's signer under
  \<^verbatim>\<open>src/chain/operator\<close>.

  \<^bold>\<open>The program and how its parts interact.\<close> The SDK talks to an endpoint of the chain. An application makes a client for one
  of four chain definitions (\<^verbatim>\<open>chains.ts\<close>), which is validated against the endpoint; reads it (\<^verbatim>\<open>clients.ts\<close>); prepares
  and sends transactions (\<^verbatim>\<open>wallet.ts\<close>); and calls the contracts (\<^verbatim>\<open>contracts.ts\<close>). Every action runs in one executor
  (\<^verbatim>\<open>internal/execution.ts\<close>), which retries and times out, and whatever fails becomes an SDK error (\<^verbatim>\<open>errors.ts\<close>).
  Rewards are settled in three steps: the script \<^verbatim>\<open>generate-reward-fixture.mjs\<close> makes a Merkle-sum tree from a list of claims;
  an administrator publishes its root and sum to the contract \<^verbatim>\<open>ToriumRewardDistributor.sol\<close>; and a recipient checks the claim
  with the preflight of the SDK and claims with the proof from the fixture.

  \<^bold>\<open>Foundations.\<close>
  \<^item> \<open>Torium_Prelude\<close>: computations that throw, as sums with \<open>bindR\<close>, \<open>throwIf\<close>, \<open>catchR\<close> and \<open>foldR\<close>; text and digits.
  \<^item> \<open>Hex\<close>, \<open>Base64\<close>: hexadecimal and base64 text and its value.
  \<^item> \<open>Js_Regex\<close>: an executable matcher for the regular expressions of the sources, with the language it decides.
  \<^item> \<open>Js_Values\<close>: the values of JavaScript, its numbers with not-a-number and the infinities, and its exceptions.
  \<^item> \<open>Solidity_Core\<close>: words of fixed width, checked arithmetic, \<^verbatim>\<open>abi.encode\<close> of words and bit maps.

  \<^bold>\<open>The SDK.\<close> Every function keeps its name, every \<^verbatim>\<open>throw\<close> and early return is a branch, and an asynchronous function is a
  \<open>proc\<close>: a function on a \<open>world\<close> with the clock, the trace of calls that left the SDK and the diagnostic events. A signal is the
  moment at which the caller aborts, if ever. What the endpoint, the wallet and the callbacks answer is the parameter \<open>env\<close>, arbitrary and dependent on the trace.
  \<^item> \<open>Bech32\<close>, \<open>Bech32_Checksum\<close>, \<open>Utils\<close>, \<open>Torium_Json\<close> model \<^verbatim>\<open>utils.ts\<close>. The checksum is treated as linear algebra over
    two elements: round trips, canonical spelling, and the detection of one or two wrong characters. Amounts and the JSON envelope of
    big integers round-trip.
  \<^item> \<open>Errors\<close> models \<^verbatim>\<open>errors.ts\<close>: cause chains over a heap, which may be cyclic, classification, retry hints and redaction. Only
    transient reads are safe to retry, and an error shows fixed messages and white-listed causes only.
  \<^item> \<open>Execution\<close> models \<^verbatim>\<open>internal/execution.ts\<close>: attempts are bounded, a time-out is kept, failures are SDK errors, and the
    events of a run are complete.
  \<^item> \<open>Chain_Defs\<close>, \<open>Endpoint\<close> model \<^verbatim>\<open>chains.ts\<close>: the definitions agree with themselves, and a validated endpoint has
    answered the requests of the protocol with the values of its chain.
  \<^item> \<open>Clients\<close> models \<^verbatim>\<open>clients.ts\<close>: network status, fee history, and log ranges that partition the blocks asked for.
  \<^item> \<open>Wallet\<close> models \<^verbatim>\<open>wallet.ts\<close>: the normal form of requests, preflights, and submission; what is sent is what was authorised,
    at most once, and the life cycle of a transaction is reported from matching receipts.
  \<^item> \<open>Contract_Core\<close>, \<open>Rewards\<close>, \<open>Attestations\<close> model \<^verbatim>\<open>contracts.ts\<close>: deployments whose code is pinned, reverts, and the
    preflights of the reward distributor and of the attestation registry.

  \<^bold>\<open>The rewards.\<close>
  \<^item> \<open>Reward_Tree\<close>, \<open>Reward_Claims\<close>, \<open>Reward_Csv\<close> model \<^verbatim>\<open>generate-reward-fixture.mjs\<close>: the claims, the tree, the fixture,
    and the CSV reader. The SDK accepts every generated proof, and the reader reads back what any writer wrote.
  \<^item> \<open>Distributor\<close> models all of \<^verbatim>\<open>ToriumRewardDistributor.sol\<close>. A recipient may call back into the contract while it is paid:
    a call carries the list of calls made during the payment, and those carry their own.
  \<^item> \<open>Distributor_Books\<close>: the invariant of the books in every reachable state, which gives solvency, that a claim is paid once and exactly
    when it is due, and that published epochs do not change.
  \<^item> \<open>Reward_Words\<close>, \<open>Reward_Paths\<close>, \<open>Reward_Settlement\<close> join the three parts: SDK and contract rebuild the same root, only the claims of a
    fixture are accepted for its root, all of them can be paid, and the preflight of the SDK predicts the contract.

  \<^bold>\<open>The signer.\<close> \<open>Signer_Guard\<close> models \<^verbatim>\<open>signer-state-guard.mjs\<close> over a snapshot of the file system: the decision to restore, and that
  over any run of signing and guarded restores no position is signed twice with different bytes.

  \<^bold>\<open>Interfaces.\<close> What several parts promise alike is a locale: an exact codec (the account codec, base units) and a node combiner that adds sums (the
  generator's and the SDK's). Each is interpreted on the definitions of the sources, and the properties use the facts of the interpretations.

  \<^bold>\<open>Parameters and what is assumed of them.\<close> Code outside the repository is an argument of the definitions: viem (hashing, ABI
  coding, its clients), the URL parser, Node's cryptography and file system, keccak256, and the OpenZeppelin contracts that the distributor inherits. A
  theorem that needs more of them than that they are functions says so in a hypothesis, and has an instance in which it holds. The
  hash is never assumed to be injective: where collisions matter, the hypothesis is their absence among the inputs that occur.

  \<^bold>\<open>Bounds and fuel.\<close> The cause walk of \<^verbatim>\<open>errors.ts\<close> keeps its own limit on depth and remembers what it has seen, and the attempt loop of
  \<^verbatim>\<open>execution.ts\<close> its own limit on attempts, so both recursions end for the reason for which the loops do; no definition
  of the SDK needs fuel. The wait for a receipt is a call of viem, which answers or throws after a time of its own. Numbers of Solidity are words of their width and numbers of JavaScript's
  \<^verbatim>\<open>BigInt\<close> are integers. A JavaScript number is a real, which is exact for the whole numbers the sources compute with.

  \<^bold>\<open>Not modelled.\<close>
  \<^item> The Go node: the chain itself is in the model only through what an endpoint answers.
  \<^item> The constructors of viem clients and wallets, which only pass options on, the generated ABI tables, and the capability tables, which are
    documentation.
  \<^item> Scripts that drive processes, containers, compilers, browsers or networks, and validators that compare fixed files of the
    repository with fixed values: a model would restate the constants.
  \<^item> Of the fixture generator: the command line and the output of files.
  \<^item> Gas, and the life of memory and of objects that no code observes.
\<close>

end
